theory Spec2Isabelle
  imports Complex_Main
begin

section \<open>A snooker table: shot resolution and trajectory prediction\<close>

text \<open>
  The development embeds the game logic of the sketch (setup constants, the input
  handlers, the pocket and settling checks, and the trajectory predictor) as HOL
  functions over an explicit game state.

  Numbers. The sketch computes with JavaScript numbers. They are modelled as exact
  reals: \<open>+\<close>, \<open>*\<close>, \<open>sqrt\<close>, \<open>cos\<close> and \<open>sin\<close> are the
  mathematical operations, without rounding. A division whose divisor can be zero is
  guarded where the outcome of the source differs from HOL's \<open>x / 0 = 0\<close>; each such
  place says what the source produces (NaN or an infinity) and why the branch taken is
  the same.
\<close>

subsection \<open>Table measurements (\<open>setup\<close>, \<open>initTableMeasurements\<close>)\<close>

definition canvasWidth :: real where "canvasWidth = 1100"
definition canvasHeight :: real where "canvasHeight = 700"

definition tableLength :: real where "tableLength = 900"
definition tableWidth :: real where "tableWidth = tableLength / 2"
definition cushionThickness :: real where "cushionThickness = 25"

definition tableX :: real where "tableX = (canvasWidth - tableLength) / 2"
definition tableY :: real where "tableY = (canvasHeight - tableWidth) / 2"

definition playAreaLength :: real where "playAreaLength = tableLength - (cushionThickness * 2)"
definition playAreaWidth :: real where "playAreaWidth = tableWidth - (cushionThickness * 2)"

definition ballDiameter :: real where "ballDiameter = tableWidth / 36"
definition ballRadius :: real where "ballRadius = ballDiameter / 2"

definition pocketSize :: real where "pocketSize = ballDiameter * 1.5"

definition dRadius :: real where "dRadius = playAreaWidth * 0.26"

lemmas table_defs =
  canvasWidth_def canvasHeight_def tableLength_def tableWidth_def cushionThickness_def
  tableX_def tableY_def playAreaLength_def playAreaWidth_def ballDiameter_def
  ballRadius_def pocketSize_def dRadius_def

definition uiX :: real where "uiX = canvasWidth - 60"
definition uiY :: real where "uiY = canvasHeight - 60"
definition uiRadius :: real where "uiRadius = 35"

definition maxPullBack :: real where "maxPullBack = 120"

definition maxBounces :: nat where "maxBounces = 3"
definition maxDistance :: real where "maxDistance = 800"
definition stepSize :: real where "stepSize = 5"

definition maxFrames :: nat where "maxFrames = 180"
definition playbackSpeed :: real where "playbackSpeed = 0.25"

definition BALL_FRICTION_AIR :: real where "BALL_FRICTION_AIR = 0.001"

text \<open>
  The fields \<open>spinControl.uiX\<close>, \<open>uiY\<close>, \<open>uiRadius\<close>, \<open>cue.maxPullBack\<close>,
  \<open>trajectoryPreview.maxBounces\<close>, \<open>maxDistance\<close>, \<open>replaySystem.maxFrames\<close> and
  \<open>playbackSpeed\<close> are written once (in the object literal or in \<open>setup\<close>) and
  never again, so they are constants here, like the table measurements. The canvas is
  created with \<open>createCanvas(1100, 700)\<close>.
\<close>

type_synonym vec = "real \<times> real"

definition pocketPositions :: "vec list" where
  "pocketPositions =
    (let offset = pocketSize * 0.35 in
     [(tableX + offset, tableY + offset),
      (tableX + tableLength - offset, tableY + offset),
      (tableX + offset, tableY + tableWidth - offset),
      (tableX + tableLength - offset, tableY + tableWidth - offset),
      (tableX + tableLength / 2, tableY),
      (tableX + tableLength / 2, tableY + tableWidth)])"

datatype colour = Yellow | Green | Brown | Blue | Pink | Black

text \<open>The keys of \<open>colouredBalls\<close>, in the order \<open>for (var colour in colouredBalls)\<close> visits them.\<close>

definition colours :: "colour list" where
  "colours = [Yellow, Green, Brown, Blue, Pink, Black]"

fun colourLabel :: "colour \<Rightarrow> string" where
  "colourLabel Yellow = ''yellow''"
| "colourLabel Green = ''green''"
| "colourLabel Brown = ''brown''"
| "colourLabel Blue = ''blue''"
| "colourLabel Pink = ''pink''"
| "colourLabel Black = ''black''"

fun BALL_COLORS :: "colour \<Rightarrow> string" where
  "BALL_COLORS Yellow = ''#FDD835''"
| "BALL_COLORS Green = ''#388E3C''"
| "BALL_COLORS Brown = ''#6D4C41''"
| "BALL_COLORS Blue = ''#1976D2''"
| "BALL_COLORS Pink = ''#F48FB1''"
| "BALL_COLORS Black = ''#212121''"

definition BALL_COLORS_cue :: string where "BALL_COLORS_cue = ''#FFFEF2''"
definition BALL_COLORS_red :: string where "BALL_COLORS_red = ''#D32F2F''"

subsection \<open>Ball spots (\<open>initBallSpots\<close>)\<close>

definition spotPositions :: "colour \<Rightarrow> vec" where
  "spotPositions col =
    (let centerX = tableX + tableLength / 2;
         playTop = tableY + cushionThickness;
         playBottom = tableY + tableWidth - cushionThickness;
         playHeight = playBottom - playTop;
         baulkY = playBottom - (playHeight * 0.2)
     in case col of
          Yellow \<Rightarrow> (centerX - dRadius, baulkY)
        | Green \<Rightarrow> (centerX + dRadius, baulkY)
        | Brown \<Rightarrow> (centerX, baulkY)
        | Blue \<Rightarrow> (centerX, playTop + playHeight / 2)
        | Pink \<Rightarrow> (centerX, playTop + playHeight * 0.25)
        | Black \<Rightarrow> (centerX, playTop + playHeight * 0.08))"

subsection \<open>The state\<close>

text \<open>
  A ball is a Matter.js body. The fields kept are the ones the sketch reads or writes:
  the id, the label, position and velocity, the accumulated force (\<open>Body.applyForce\<close>
  adds to it), the air friction (\<open>Body.set\<close>) and the angular velocity.
\<close>

record ball =
  ball_id :: nat
  label :: string
  circleRadius :: real
  position :: vec
  velocity :: vec
  force :: vec
  frictionAir :: real
  angularVelocity :: real

text \<open>
  The cue stick. \<open>cue.length\<close> and \<open>cue.tipOffset\<close> are read by the drawing code
  only and are left out.
\<close>

record cue_stick =
  angle :: real
  pullBack :: real
  isAiming :: bool
  dragStartX :: real
  dragStartY :: real

record spin_control =
  spin_x :: real
  spin_y :: real
  isDragging :: bool

record path_point =
  pt_x :: real
  pt_y :: real
  bounce :: nat

text \<open>
  \<open>ghostBall.targetBall\<close> is a reference to the struck body in the source; nothing
  writes through it, so the record holds the body's value at the time of the forecast.
\<close>

record ghost_ball =
  ghost_x :: real
  ghost_y :: real
  targetBall :: ball
  targetColor :: string

text \<open>An entry of \<open>collisionBalls\<close>; the source's field \<open>length\<close> is \<open>ray_length\<close>.\<close>

record deflection =
  startX :: real
  startY :: real
  dirX :: real
  dirY :: real
  ray_color :: string
  ray_length :: real

record trajectory_preview =
  enabled :: bool
  points :: "path_point list"
  ghostBall :: "ghost_ball option"
  collisionBalls :: "deflection list"

record replay_frame =
  frame_cueBall :: "vec option"
  frame_redBalls :: "vec list"
  frame_colouredBalls :: "colour \<Rightarrow> vec option"

record replay_system =
  recording :: bool
  frames :: "replay_frame list"
  playbackIndex :: real
  showReplay :: bool

text \<open>
  The globals of the sketch. The Matter.js world holds exactly the bodies registered in
  \<open>cueBall\<close>, \<open>redBalls\<close> and \<open>colouredBalls\<close> (every \<open>World.add\<close> and
  \<open>World.remove\<close> is paired with a write to one of them) and the static cushions, so
  it is not a field of its own. \<open>nextId\<close> is Matter's counter for body ids. The trail,
  impact and pocket animations are drawing state that no game logic reads; they are left
  out.
\<close>

record game =
  cueBall :: "ball option"
  redBalls :: "ball list"
  colouredBalls :: "colour \<Rightarrow> ball option"
  cue :: cue_stick
  currentMode :: nat
  cueBallPlaced :: bool
  isShooting :: bool
  canShoot :: bool
  spinControl :: spin_control
  trajectoryPreview :: trajectory_preview
  replaySystem :: replay_system
  nextId :: nat

datatype error = TypeError

subsection \<open>Library functions of p5.js, Matter.js and JavaScript\<close>

text \<open>
  Modelled from the documentation of the libraries (they are not part of the
  repository): \<open>constrain\<close>, \<open>map\<close> (here \<open>p5map\<close>), \<open>Matter.Vector.magnitude\<close>,
  \<open>Bodies.circle\<close>, \<open>Body.setPosition\<close>, \<open>Body.setVelocity\<close>, \<open>Body.applyForce\<close> at
  the body's own position (no torque), and \<open>atan2\<close> with the quadrant cases of
  \<open>Math.atan2\<close> (signed zeros are not distinguished).
\<close>

definition constrain :: "real \<Rightarrow> real \<Rightarrow> real \<Rightarrow> real" where
  "constrain n low high = max (min n high) low"

definition p5map :: "real \<Rightarrow> real \<Rightarrow> real \<Rightarrow> real \<Rightarrow> real \<Rightarrow> real" where
  "p5map n start1 stop1 start2 stop2 = (n - start1) / (stop1 - start1) * (stop2 - start2) + start2"

definition magnitude :: "vec \<Rightarrow> real" where
  "magnitude v = sqrt (fst v * fst v + snd v * snd v)"

definition atan2 :: "real \<Rightarrow> real \<Rightarrow> real" where
  "atan2 yy xx =
    (if xx > 0 then arctan (yy / xx)
     else if xx < 0 \<and> yy \<ge> 0 then arctan (yy / xx) + pi
     else if xx < 0 \<and> yy < 0 then arctan (yy / xx) - pi
     else if yy > 0 then pi / 2
     else if yy < 0 then - pi / 2
     else 0)"

definition HALF_PI :: real where "HALF_PI = pi / 2"

definition Bodies_circle :: "nat \<Rightarrow> real \<Rightarrow> real \<Rightarrow> real \<Rightarrow> string \<Rightarrow> ball" where
  "Bodies_circle i px py r lbl =
    \<lparr>ball_id = i, label = lbl, circleRadius = r, position = (px, py), velocity = (0, 0),
     force = (0, 0), frictionAir = BALL_FRICTION_AIR, angularVelocity = 0\<rparr>"

definition Body_setPosition :: "ball \<Rightarrow> vec \<Rightarrow> ball" where
  "Body_setPosition b p = b\<lparr>position := p\<rparr>"

definition Body_setVelocity :: "ball \<Rightarrow> vec \<Rightarrow> ball" where
  "Body_setVelocity b v = b\<lparr>velocity := v\<rparr>"

definition Body_applyForce :: "ball \<Rightarrow> vec \<Rightarrow> ball" where
  "Body_applyForce b f = b\<lparr>force := (fst (force b) + fst f, snd (force b) + snd f)\<rparr>"

subsection \<open>Creating balls (\<open>createCueBall\<close>, \<open>createColouredBalls\<close>, \<open>createRedBallsByMode\<close>)\<close>

definition createCueBall :: "real \<Rightarrow> real \<Rightarrow> game \<Rightarrow> game" where
  "createCueBall posX posY g =
    g\<lparr>cueBall := Some (Bodies_circle (nextId g) posX posY ballRadius ''cueBall''),
      nextId := nextId g + 1,
      cueBallPlaced := True\<rparr>"

fun createColouredLoop :: "colour list \<Rightarrow> game \<Rightarrow> game" where
  "createColouredLoop [] g = g"
| "createColouredLoop (col # cols) g =
    createColouredLoop cols
      (let pos = spotPositions col in
       g\<lparr>colouredBalls := (colouredBalls g)
            (col := Some (Bodies_circle (nextId g) (fst pos) (snd pos) ballRadius (colourLabel col))),
         nextId := nextId g + 1\<rparr>)"

definition createColouredBalls :: "game \<Rightarrow> game" where
  "createColouredBalls g = createColouredLoop colours g"

fun addReds :: "vec list \<Rightarrow> game \<Rightarrow> game" where
  "addReds [] g = g"
| "addReds (p # ps) g =
    addReds ps
      (g\<lparr>redBalls := redBalls g @ [Bodies_circle (nextId g) (fst p) (snd p) ballRadius ''red''],
         nextId := nextId g + 1\<rparr>)"

text \<open>
  \<open>createRedTriangle\<close>: five rows of 1 to 5 balls behind the pink spot. The guard
  \<open>ballCount >= 15\<close> of the source first holds after the last ball of the last row.
\<close>

definition redTrianglePositions :: "vec list" where
  "redTrianglePositions =
    (let pinkPos = spotPositions Pink;
         startX = fst pinkPos;
         startY = snd pinkPos - ballDiameter * 1.5
     in concat (map (\<lambda>row.
          map (\<lambda>col. (startX - (real row * ballRadius) + (real col * ballDiameter),
                      startY - (real row * ballDiameter * 0.9)))
              [0 ..< row + 1])
          [0 ..< 5]))"

text \<open>
  Modes 2 and 3 draw the positions of the reds with p5's \<open>random\<close>. The positions
  drawn are an input of the model (\<open>drawn\<close>); mode 1 ignores it. Any other mode creates
  no red ball.
\<close>

definition clearRedBalls :: "game \<Rightarrow> game" where
  "clearRedBalls g = g\<lparr>redBalls := []\<rparr>"

definition createRedBallsByMode :: "nat \<Rightarrow> vec list \<Rightarrow> game \<Rightarrow> game" where
  "createRedBallsByMode mode drawn g =
    (let g1 = clearRedBalls g in
     if mode = 1 then addReds redTrianglePositions g1
     else if mode = 2 then addReds drawn g1
     else if mode = 3 then addReds drawn g1
     else g1)"

definition createBalls :: "vec list \<Rightarrow> game \<Rightarrow> game" where
  "createBalls drawn g =
    createRedBallsByMode (currentMode g) drawn
      (createColouredBalls (g\<lparr>cueBallPlaced := False, cueBall := None\<rparr>))"

text \<open>
  The globals as their declarations initialise them, and the state after the source's
  \<open>setup()\<close> (here \<open>setupGame\<close>; mode 1 draws no random position).
\<close>

definition initialGlobals :: game where
  "initialGlobals =
    \<lparr>cueBall = None, redBalls = [], colouredBalls = (\<lambda>col. None),
     cue = \<lparr>angle = 0, pullBack = 0, isAiming = False, dragStartX = 0, dragStartY = 0\<rparr>,
     currentMode = 1, cueBallPlaced = False, isShooting = False, canShoot = True,
     spinControl = \<lparr>spin_x = 0, spin_y = 0, isDragging = False\<rparr>,
     trajectoryPreview = \<lparr>enabled = True, points = [], ghostBall = None, collisionBalls = []\<rparr>,
     replaySystem = \<lparr>recording = False, frames = [], playbackIndex = 0, showReplay = False\<rparr>,
     nextId = 1\<rparr>"

definition setupGame :: game where
  "setupGame = createBalls [] initialGlobals"

definition resetAllBalls :: "vec list \<Rightarrow> game \<Rightarrow> game" where
  "resetAllBalls drawn g =
    (let g1 = clearRedBalls g;
         g2 = (if cueBall g1 \<noteq> None then g1\<lparr>cueBall := None\<rparr> else g1);
         g3 = g2\<lparr>cueBallPlaced := False, cue := (cue g2)\<lparr>isAiming := False, pullBack := 0\<rparr>\<rparr>
     in createRedBallsByMode (currentMode g3) drawn (createColouredBalls g3))"

subsection \<open>Spin control (\<open>isInsideSpinControl\<close>, \<open>updateSpinFromMouse\<close>)\<close>

definition isInsideSpinControl :: "real \<Rightarrow> real \<Rightarrow> bool" where
  "isInsideSpinControl mx my = (sqrt ((mx - uiX)\<^sup>2 + (my - uiY)\<^sup>2) \<le> uiRadius)"

definition updateSpinFromMouse :: "real \<Rightarrow> real \<Rightarrow> game \<Rightarrow> game" where
  "updateSpinFromMouse mouseX mouseY g =
    (let dx = mouseX - uiX;
         dy = mouseY - uiY
     in g\<lparr>spinControl := (spinControl g)
           \<lparr>spin_x := constrain (dx / uiRadius) (- 1) 1,
            spin_y := constrain (dy / uiRadius) (- 1) 1\<rparr>\<rparr>)"

subsection \<open>Cue ball placement (\<open>isInDZone\<close>, \<open>isOverlappingBall\<close>)\<close>

definition isInDZone :: "real \<Rightarrow> real \<Rightarrow> bool" where
  "isInDZone px py =
    (let innerLeft = tableX + cushionThickness;
         innerRight = tableX + tableLength - cushionThickness;
         innerBottom = tableY + tableWidth - cushionThickness;
         playHeight = tableWidth - cushionThickness * 2;
         baulkY = innerBottom - (playHeight * 0.2);
         centerX = tableX + tableLength / 2
     in if py < baulkY then False
        else if py > innerBottom then False
        else
          let distFromCenter = sqrt ((px - centerX)\<^sup>2 + (py - baulkY)\<^sup>2) in
          if distFromCenter \<le> dRadius then
            (if px \<ge> innerLeft \<and> px \<le> innerRight then True else False)
          else False)"

text \<open>
  \<open>isOverlappingBall\<close> reads \<open>ball.position\<close> of every entry of \<open>colouredBalls\<close>
  without a null test: an entry that is \<open>null\<close> raises a TypeError.
\<close>

fun overlapsColoured :: "real \<Rightarrow> real \<Rightarrow> (colour \<Rightarrow> ball option) \<Rightarrow> colour list \<Rightarrow> error + bool" where
  "overlapsColoured px py cb [] = Inr False"
| "overlapsColoured px py cb (col # cols) =
    (case cb col of
       None \<Rightarrow> Inl TypeError
     | Some b \<Rightarrow>
         if sqrt ((px - fst (position b))\<^sup>2 + (py - snd (position b))\<^sup>2) < ballDiameter
         then Inr True
         else overlapsColoured px py cb cols)"

fun overlapsReds :: "real \<Rightarrow> real \<Rightarrow> ball list \<Rightarrow> bool" where
  "overlapsReds px py [] = False"
| "overlapsReds px py (b # bs) =
    (if sqrt ((px - fst (position b))\<^sup>2 + (py - snd (position b))\<^sup>2) < ballDiameter
     then True
     else overlapsReds px py bs)"

definition isOverlappingBall :: "real \<Rightarrow> real \<Rightarrow> game \<Rightarrow> error + bool" where
  "isOverlappingBall px py g =
    (case overlapsColoured px py (colouredBalls g) colours of
       Inl e \<Rightarrow> Inl e
     | Inr True \<Rightarrow> Inr True
     | Inr False \<Rightarrow> Inr (overlapsReds px py (redBalls g)))"

subsection \<open>Mouse handlers (\<open>mousePressed\<close>, \<open>mouseDragged\<close>, \<open>mouseReleased\<close>, \<open>shootCueBall\<close>)\<close>

definition mousePressed :: "real \<Rightarrow> real \<Rightarrow> game \<Rightarrow> error + game" where
  "mousePressed mouseX mouseY g =
    (if isInsideSpinControl mouseX mouseY then
       Inr (updateSpinFromMouse mouseX mouseY
              (g\<lparr>spinControl := (spinControl g)\<lparr>isDragging := True\<rparr>\<rparr>))
     else if \<not> cueBallPlaced g then
       (if isInDZone mouseX mouseY then
          (case isOverlappingBall mouseX mouseY g of
             Inl e \<Rightarrow> Inl e
           | Inr overlapping \<Rightarrow>
               if \<not> overlapping then Inr (createCueBall mouseX mouseY g) else Inr g)
        else Inr g)
     else
       (case cueBall g of
          Some cb \<Rightarrow>
            if cueBallPlaced g \<and> canShoot g then
              (let dx = mouseX - fst (position cb);
                   dy = mouseY - snd (position cb)
               in Inr (g\<lparr>cue := (cue g)
                        \<lparr>angle := atan2 dy dx,
                         dragStartX := mouseX,
                         dragStartY := mouseY,
                         isAiming := True,
                         pullBack := 0\<rparr>\<rparr>))
            else Inr g
        | None \<Rightarrow> Inr g))"

definition mouseDragged :: "real \<Rightarrow> real \<Rightarrow> bool \<Rightarrow> game \<Rightarrow> game" where
  "mouseDragged mouseX mouseY shiftDown g =
    (if isDragging (spinControl g) then updateSpinFromMouse mouseX mouseY g
     else if isAiming (cue g) \<and> cueBall g \<noteq> None then
       (let dx = mouseX - dragStartX (cue g);
            dy = mouseY - dragStartY (cue g);
            dragDistance = sqrt (dx * dx + dy * dy);
            sensitivity = (if shiftDown then 0.25 else 0.8)
        in g\<lparr>cue := (cue g)\<lparr>pullBack := min maxPullBack (dragDistance * sensitivity)\<rparr>\<rparr>)
     else g)"

definition startRecording :: "game \<Rightarrow> game" where
  "startRecording g = g\<lparr>replaySystem := (replaySystem g)\<lparr>recording := True, frames := []\<rparr>\<rparr>"

definition stopRecording :: "game \<Rightarrow> game" where
  "stopRecording g = g\<lparr>replaySystem := (replaySystem g)\<lparr>recording := False\<rparr>\<rparr>"

text \<open>
  \<open>shootCueBall\<close> dereferences \<open>cueBall\<close>; its only caller tests \<open>cueBall\<close> first.
  The impact animation it triggers is drawing state.
\<close>

definition shootCueBall :: "game \<Rightarrow> error + game" where
  "shootCueBall g =
    (case cueBall g of
       None \<Rightarrow> Inl TypeError
     | Some cb \<Rightarrow>
         let power = p5map (pullBack (cue g)) 0 maxPullBack 0 0.5;
             forceX = cos (angle (cue g)) * power;
             forceY = sin (angle (cue g)) * power;
             sideSpinEffect = spin_x (spinControl g) * 0.08 * power;
             perpX = - sin (angle (cue g));
             perpY = cos (angle (cue g));
             forceX = forceX + perpX * sideSpinEffect;
             forceY = forceY + perpY * sideSpinEffect;
             spinFrictionMod = 1 + (spin_y (spinControl g) * 0.3);
             cb1 = cb\<lparr>frictionAir := BALL_FRICTION_AIR * spinFrictionMod\<rparr>;
             cb2 = Body_applyForce cb1 (forceX, forceY);
             cb3 = cb2\<lparr>angularVelocity := spin_x (spinControl g) * 0.2\<rparr>
         in Inr (g\<lparr>cueBall := Some cb3, isShooting := True, canShoot := False\<rparr>))"

definition mouseReleased :: "game \<Rightarrow> error + game" where
  "mouseReleased g =
    (if isDragging (spinControl g) then
       Inr (g\<lparr>spinControl := (spinControl g)\<lparr>isDragging := False\<rparr>\<rparr>)
     else
       (case (if isAiming (cue g) \<and> cueBall g \<noteq> None \<and> pullBack (cue g) > 5
              then shootCueBall (startRecording g) else Inr g) of
          Inl e \<Rightarrow> Inl e
        | Inr g1 \<Rightarrow> Inr (g1\<lparr>cue := (cue g1)\<lparr>isAiming := False, pullBack := 0\<rparr>\<rparr>)))"

subsection \<open>Pocket capture (\<open>checkPocketCollisions\<close>)\<close>

text \<open>
  The inner loop over \<open>pocketPositions\<close>: the first pocket whose centre is closer than
  \<open>pocketRadius\<close> to the ball's centre, if any.
\<close>

fun pocketOf :: "vec \<Rightarrow> vec list \<Rightarrow> vec option" where
  "pocketOf pos [] = None"
| "pocketOf pos (pocket # pockets) =
    (if sqrt ((fst pos - fst pocket)\<^sup>2 + (snd pos - snd pocket)\<^sup>2) < pocketSize * 0.6
     then Some pocket
     else pocketOf pos pockets)"

definition potted :: "ball \<Rightarrow> bool" where
  "potted b = (pocketOf (position b) pocketPositions \<noteq> None)"

text \<open>
  The loop over the reds runs \<open>i\<close> from \<open>redBalls.length - 1\<close> down to \<open>0\<close> and
  removes a potted ball with \<open>splice(i, 1)\<close>. \<open>redsLoop (Suc i) rs\<close> is the loop about
  to visit index \<open>i\<close>.
\<close>

fun redsLoop :: "nat \<Rightarrow> ball list \<Rightarrow> ball list" where
  "redsLoop 0 rs = rs"
| "redsLoop (Suc i) rs =
    redsLoop i (if potted (rs ! i) then take i rs @ drop (Suc i) rs else rs)"

fun respotLoop :: "colour list \<Rightarrow> (colour \<Rightarrow> ball option) \<Rightarrow> (colour \<Rightarrow> ball option)" where
  "respotLoop [] cb = cb"
| "respotLoop (col # cols) cb =
    respotLoop cols
      (case cb col of
         None \<Rightarrow> cb
       | Some b \<Rightarrow>
           if potted b
           then cb(col := Some (Body_setVelocity (Body_setPosition b (spotPositions col)) (0, 0)))
           else cb)"

definition checkPocketCollisions :: "game \<Rightarrow> game" where
  "checkPocketCollisions g =
    (let g1 = (case cueBall g of
                 None \<Rightarrow> g
               | Some cb \<Rightarrow> if potted cb then g\<lparr>cueBall := None, cueBallPlaced := False\<rparr> else g);
         g2 = g1\<lparr>redBalls := redsLoop (length (redBalls g1)) (redBalls g1)\<rparr>
     in g2\<lparr>colouredBalls := respotLoop colours (colouredBalls g2)\<rparr>)"

subsection \<open>Settling (\<open>checkBallsMoving\<close>)\<close>

fun redsMoving :: "real \<Rightarrow> ball list \<Rightarrow> bool" where
  "redsMoving threshold [] = False"
| "redsMoving threshold (b # bs) =
    (if magnitude (velocity b) > threshold then True else redsMoving threshold bs)"

text \<open>The loop over \<open>colouredBalls\<close> reads \<open>.velocity\<close> of each entry without a null test.\<close>

fun colouredMoving :: "real \<Rightarrow> (colour \<Rightarrow> ball option) \<Rightarrow> colour list \<Rightarrow> error + bool" where
  "colouredMoving threshold cb [] = Inr False"
| "colouredMoving threshold cb (col # cols) =
    (case cb col of
       None \<Rightarrow> Inl TypeError
     | Some b \<Rightarrow>
         if magnitude (velocity b) > threshold then Inr True
         else colouredMoving threshold cb cols)"

definition checkBallsMoving :: "game \<Rightarrow> error + game" where
  "checkBallsMoving g =
    (let threshold = 0.15;
         anyMoving = (case cueBall g of
                        None \<Rightarrow> False
                      | Some cb \<Rightarrow> magnitude (velocity cb) > threshold);
         anyMoving = (if redsMoving threshold (redBalls g) then True else anyMoving)
     in case (if \<not> anyMoving then colouredMoving threshold (colouredBalls g) colours
              else Inr anyMoving) of
          Inl e \<Rightarrow> Inl e
        | Inr anyMoving \<Rightarrow>
            if isShooting g \<and> \<not> anyMoving
            then Inr (stopRecording (g\<lparr>isShooting := False, canShoot := True\<rparr>))
            else Inr g)"

subsection \<open>Segment against circle (\<open>lineCircleCollision\<close>)\<close>

record hit =
  hit_x :: real
  hit_y :: real
  hit_dist :: real

text \<open>
  The source returns \<open>{x, y, dist}\<close> or \<open>null\<close>. When the segment has length zero,
  \<open>a = 0\<close> and \<open>b = 0\<close>; if the discriminant is not negative it is \<open>0\<close>, and
  both roots are \<open>0 / 0 = NaN\<close> in the source, so that both range tests fail and
  \<open>null\<close> is returned. The guard \<open>a = 0\<close> writes this out.
\<close>

definition lineCircleCollision ::
  "real \<Rightarrow> real \<Rightarrow> real \<Rightarrow> real \<Rightarrow> real \<Rightarrow> real \<Rightarrow> real \<Rightarrow> hit option" where
  "lineCircleCollision x1 y1 x2 y2 cx cy radius =
    (let dx = x2 - x1;
         dy = y2 - y1;
         fx = x1 - cx;
         fy = y1 - cy;
         a = dx * dx + dy * dy;
         b = 2 * (fx * dx + fy * dy);
         c = fx * fx + fy * fy - radius * radius;
         discriminant = b * b - 4 * a * c
     in if discriminant < 0 then None
        else if a = 0 then None
        else
          let discriminant = sqrt discriminant;
              t1 = (- b - discriminant) / (2 * a);
              t2 = (- b + discriminant) / (2 * a)
          in if t1 \<ge> 0 \<and> t1 \<le> 1 then
               Some \<lparr>hit_x = x1 + t1 * dx, hit_y = y1 + t1 * dy, hit_dist = t1 * sqrt a\<rparr>
             else if t2 \<ge> 0 \<and> t2 \<le> 1 then
               Some \<lparr>hit_x = x1 + t2 * dx, hit_y = y1 + t2 * dy, hit_dist = t2 * sqrt a\<rparr>
             else None)"


subsection \<open>Trajectory prediction (\<open>calculateTrajectoryPreview\<close> and its helpers)\<close>

fun colouredPresent :: "(colour \<Rightarrow> ball option) \<Rightarrow> colour list \<Rightarrow> (ball \<times> string) list" where
  "colouredPresent cb [] = []"
| "colouredPresent cb (col # cols) =
    (case cb col of
       None \<Rightarrow> colouredPresent cb cols
     | Some b \<Rightarrow> (b, BALL_COLORS col) # colouredPresent cb cols)"

definition getAllBallsExceptCue :: "game \<Rightarrow> (ball \<times> string) list" where
  "getAllBallsExceptCue g =
    map (\<lambda>b. (b, BALL_COLORS_red)) (redBalls g) @ colouredPresent (colouredBalls g) colours"

text \<open>The value \<open>checkTrajectoryBallCollision\<close> returns: \<open>{ball, color, hitX, hitY, dist}\<close>.\<close>

record target_hit =
  hit_ball :: ball
  hit_color :: string
  hitX :: real
  hitY :: real
  hitDist :: real

fun closestLoop ::
  "real \<Rightarrow> real \<Rightarrow> real \<Rightarrow> real \<Rightarrow> (ball \<times> string) list \<Rightarrow> target_hit option \<Rightarrow> target_hit option" where
  "closestLoop x1 y1 x2 y2 [] closest = closest"
| "closestLoop x1 y1 x2 y2 (bc # allBalls) closest =
    closestLoop x1 y1 x2 y2 allBalls
      (let bx = fst (position (fst bc));
           by = snd (position (fst bc))
       in case lineCircleCollision x1 y1 x2 y2 bx by ballDiameter of
            None \<Rightarrow> closest
          | Some collision \<Rightarrow>
              if closest = None \<or> hit_dist collision < hitDist (the closest)
              then Some \<lparr>hit_ball = fst bc, hit_color = snd bc,
                         hitX = hit_x collision, hitY = hit_y collision,
                         hitDist = hit_dist collision\<rparr>
              else closest)"

definition checkTrajectoryBallCollision ::
  "real \<Rightarrow> real \<Rightarrow> real \<Rightarrow> real \<Rightarrow> game \<Rightarrow> target_hit option" where
  "checkTrajectoryBallCollision x1 y1 x2 y2 g =
    closestLoop x1 y1 x2 y2 (getAllBallsExceptCue g) None"

text \<open>
  \<open>calculateDeflectionPaths\<close>. The local \<open>deflectAngle\<close> of the source is a function
  here, so that statements can name it. The source divides by \<open>toTargetLen\<close>; when the
  contact point is the centre of the struck ball the length is \<open>0\<close> and the source
  produces NaN directions, where HOL's division gives \<open>0\<close>. Every contact that
  \<open>checkTrajectoryBallCollision\<close> returns lies one ball diameter from the centre
  (lemma \<open>checkTrajectoryBallCollision_contact\<close> below), so the case does not arise in
  \<open>calculateTrajectoryPreview\<close>.
\<close>

definition toTarget :: "target_hit \<Rightarrow> vec" where
  "toTarget hitInfo =
    (let targetX = fst (position (hit_ball hitInfo));
         targetY = snd (position (hit_ball hitInfo));
         toTargetX = targetX - hitX hitInfo;
         toTargetY = targetY - hitY hitInfo;
         toTargetLen = sqrt (toTargetX * toTargetX + toTargetY * toTargetY)
     in (toTargetX / toTargetLen, toTargetY / toTargetLen))"

definition deflectAngle :: "target_hit \<Rightarrow> game \<Rightarrow> real" where
  "deflectAngle hitInfo g =
    (let spinEffect = spin_y (spinControl g) * 0.3
     in atan2 (snd (toTarget hitInfo)) (fst (toTarget hitInfo)) + HALF_PI + spinEffect)"

definition calculateDeflectionPaths :: "target_hit \<Rightarrow> game \<Rightarrow> game" where
  "calculateDeflectionPaths hitInfo g =
    (let targetX = fst (position (hit_ball hitInfo));
         targetY = snd (position (hit_ball hitInfo));
         tp1 = (trajectoryPreview g)
           \<lparr>collisionBalls := collisionBalls (trajectoryPreview g) @
              [\<lparr>startX = targetX, startY = targetY,
                dirX = fst (toTarget hitInfo), dirY = snd (toTarget hitInfo),
                ray_color = hit_color hitInfo, ray_length = 80\<rparr>]\<rparr>;
         tp2 = tp1
           \<lparr>collisionBalls := collisionBalls tp1 @
              [\<lparr>startX = hitX hitInfo, startY = hitY hitInfo,
                dirX = cos (deflectAngle hitInfo g), dirY = sin (deflectAngle hitInfo g),
                ray_color = BALL_COLORS_cue, ray_length = 50\<rparr>]\<rparr>
     in g\<lparr>trajectoryPreview := tp2\<rparr>)"

text \<open>The locals of the marching loop.\<close>

record march =
  currentX :: real
  currentY :: real
  currentDirX :: real
  currentDirY :: real
  bounces :: nat
  totalDist :: real
  curveAmount :: real

text \<open>
  One pass through the body of the \<open>while\<close> loop, in two parts. \<open>marchForward\<close> is
  the part from "Move forward" to the end of the cushion tests: it computes \<open>nextX\<close>,
  \<open>nextY\<close> (returned in the fields \<open>currentX\<close>, \<open>currentY\<close>), the reflected
  direction, the bounce counter and the decayed curve. The local \<open>bounced\<close> of the
  source is written and never read.
\<close>

definition innerLeft :: real where "innerLeft = tableX + cushionThickness + ballRadius"
definition innerRight :: real where "innerRight = tableX + tableLength - cushionThickness - ballRadius"
definition innerTop :: real where "innerTop = tableY + cushionThickness + ballRadius"
definition innerBottom :: real where "innerBottom = tableY + tableWidth - cushionThickness - ballRadius"

definition marchForward :: "march \<Rightarrow> march" where
  "marchForward m =
    (let nextX = currentX m + currentDirX m * stepSize;
         nextY = currentY m + currentDirY m * stepSize;
         curved = (\<bar>curveAmount m\<bar> > 0.01);
         perpX = - currentDirY m;
         perpY = currentDirX m;
         nextX = (if curved then nextX + perpX * curveAmount m * 0.3 else nextX);
         nextY = (if curved then nextY + perpY * curveAmount m * 0.3 else nextY);
         m1 = (if curved then m\<lparr>curveAmount := curveAmount m * 0.995\<rparr> else m);
         m2 = (if nextX < innerLeft then
                 m1\<lparr>currentX := innerLeft, currentDirX := - currentDirX m1,
                    bounces := bounces m1 + 1\<rparr>
               else if nextX > innerRight then
                 m1\<lparr>currentX := innerRight, currentDirX := - currentDirX m1,
                    bounces := bounces m1 + 1\<rparr>
               else m1\<lparr>currentX := nextX\<rparr>)
     in if nextY < innerTop then
          m2\<lparr>currentY := innerTop, currentDirY := - currentDirY m2, bounces := bounces m2 + 1\<rparr>
        else if nextY > innerBottom then
          m2\<lparr>currentY := innerBottom, currentDirY := - currentDirY m2, bounces := bounces m2 + 1\<rparr>
        else m2\<lparr>currentY := nextY\<rparr>)"

text \<open>
  \<open>traceStep\<close> is the whole pass: push the point, march, test for a ball contact, and
  either \<open>break\<close> (result \<open>None\<close>) or commit the locals for the next pass. The last
  two statements divide by \<open>dirLen\<close>: the direction starts as \<open>(cos, sin)\<close> of the
  aim angle and is only ever negated componentwise, so \<open>dirLen = 1\<close> on every pass
  (lemma \<open>traceStep_unit\<close>), and the source never divides by zero there.
\<close>

definition traceStep :: "march \<Rightarrow> game \<Rightarrow> march option \<times> game" where
  "traceStep m g =
    (let g1 = g\<lparr>trajectoryPreview := (trajectoryPreview g)
                 \<lparr>points := points (trajectoryPreview g) @
                    [\<lparr>pt_x = currentX m, pt_y = currentY m, bounce = bounces m\<rparr>]\<rparr>\<rparr>;
         n = marchForward m;
         hitBall = (if bounces n = 0 \<and> ghostBall (trajectoryPreview g1) = None
                    then checkTrajectoryBallCollision
                           (currentX m) (currentY m) (currentX n) (currentY n) g1
                    else None)
     in case hitBall of
          Some h \<Rightarrow>
            (None,
             calculateDeflectionPaths h
               (g1\<lparr>trajectoryPreview := (trajectoryPreview g1)
                    \<lparr>ghostBall := Some \<lparr>ghost_x = hitX h, ghost_y = hitY h,
                                        targetBall = hit_ball h, targetColor = hit_color h\<rparr>\<rparr>\<rparr>))
        | None \<Rightarrow>
            (let dirLen = sqrt (currentDirX n * currentDirX n + currentDirY n * currentDirY n)
             in (Some (n\<lparr>totalDist := totalDist m + stepSize,
                         currentDirX := currentDirX n / dirLen,
                         currentDirY := currentDirY n / dirLen\<rparr>),
                 g1)))"

function traceLoop :: "march \<Rightarrow> game \<Rightarrow> game" where
  "traceLoop m g =
    (if bounces m \<le> maxBounces \<and> totalDist m < maxDistance then
       (case traceStep m g of
          (None, g') \<Rightarrow> g'
        | (Some m', g') \<Rightarrow> traceLoop m' g')
     else g)"
  by pat_completeness auto

lemma traceStep_totalDist:
  "traceStep m g = (Some m', g') \<Longrightarrow> totalDist m' = totalDist m + stepSize"
  by (auto simp: traceStep_def Let_def split: option.splits)

termination traceLoop
proof (relation "measure (\<lambda>(m, g). nat \<lceil>maxDistance - totalDist m\<rceil>)", goal_cases)
  case 1
  show ?case by simp
next
  case (2 m g x g' m')
  then have "traceStep m g = (Some m', g')" by simp
  then have "totalDist m' = totalDist m + stepSize" by (rule traceStep_totalDist)
  then have "\<lceil>maxDistance - totalDist m'\<rceil> = \<lceil>maxDistance - totalDist m\<rceil> - 5"
    by (simp add: stepSize_def algebra_simps) linarith
  moreover have "0 < \<lceil>maxDistance - totalDist m\<rceil>" using 2 by simp
  ultimately show ?case by simp
qed

declare traceLoop.simps [simp del]

definition initialMarch :: "ball \<Rightarrow> game \<Rightarrow> march" where
  "initialMarch cb g =
    \<lparr>currentX = fst (position cb), currentY = snd (position cb),
     currentDirX = cos (angle (cue g)), currentDirY = sin (angle (cue g)),
     bounces = 0, totalDist = 0,
     curveAmount = spin_x (spinControl g) * 0.15\<rparr>"

definition clearPreview :: "game \<Rightarrow> game" where
  "clearPreview g =
    g\<lparr>trajectoryPreview := (trajectoryPreview g)
        \<lparr>points := [], ghostBall := None, collisionBalls := []\<rparr>\<rparr>"

definition calculateTrajectoryPreview :: "game \<Rightarrow> game" where
  "calculateTrajectoryPreview g =
    (let g0 = clearPreview g in
     case cueBall g0 of
       None \<Rightarrow> g0
     | Some cb \<Rightarrow> traceLoop (initialMarch cb g0) g0)"

subsection \<open>Replay (\<open>recordReplayFrame\<close>, \<open>drawReplayFrame\<close>, \<open>toggleReplay\<close>)\<close>

definition recordReplayFrame :: "game \<Rightarrow> game" where
  "recordReplayFrame g =
    (let rs = replaySystem g;
         fs = (if length (frames rs) \<ge> maxFrames then tl (frames rs) else frames rs);
         frame = \<lparr>frame_cueBall = map_option position (cueBall g),
                  frame_redBalls = map position (redBalls g),
                  frame_colouredBalls = (\<lambda>col. map_option position (colouredBalls g col))\<rparr>
     in g\<lparr>replaySystem := rs\<lparr>frames := fs @ [frame]\<rparr>\<rparr>)"

definition drawReplayFrame :: "game \<Rightarrow> game" where
  "drawReplayFrame g =
    (let rs = replaySystem g in
     if length (frames rs) = 0 then g\<lparr>replaySystem := rs\<lparr>showReplay := False\<rparr>\<rparr>
     else
       let rs1 = rs\<lparr>playbackIndex := playbackIndex rs + playbackSpeed\<rparr> in
       if playbackIndex rs1 \<ge> real (length (frames rs1))
       then g\<lparr>replaySystem := rs1\<lparr>showReplay := False, playbackIndex := 0\<rparr>\<rparr>
       else g\<lparr>replaySystem := rs1\<rparr>)"

definition toggleReplay :: "game \<Rightarrow> game" where
  "toggleReplay g =
    (let rs = replaySystem g in
     if length (frames rs) > 0 \<and> \<not> isShooting g
     then g\<lparr>replaySystem := rs\<lparr>showReplay := \<not> showReplay rs, playbackIndex := 0\<rparr>\<rparr>
     else g)"

subsection \<open>Keys (\<open>keyPressed\<close>)\<close>

definition keyPressed :: "char \<Rightarrow> vec list \<Rightarrow> game \<Rightarrow> game" where
  "keyPressed key drawn g =
    (let g1 = (if key = CHR ''1'' then resetAllBalls drawn (g\<lparr>currentMode := 1\<rparr>)
               else if key = CHR ''2'' then resetAllBalls drawn (g\<lparr>currentMode := 2\<rparr>)
               else if key = CHR ''3'' then resetAllBalls drawn (g\<lparr>currentMode := 3\<rparr>)
               else g);
         g2 = (if key = CHR ''r'' \<or> key = CHR ''R'' then
                 (if cueBall g1 \<noteq> None \<and> \<not> isShooting g1 then
                    g1\<lparr>cueBall := None, cueBallPlaced := False,
                       cue := (cue g1)\<lparr>isAiming := False, pullBack := 0\<rparr>\<rparr>
                  else g1)
               else g1);
         g3 = (if key = CHR '' '' then toggleReplay g2 else g2);
         g4 = (if key = CHR ''c'' \<or> key = CHR ''C'' then
                 g3\<lparr>spinControl := (spinControl g3)\<lparr>spin_x := 0, spin_y := 0\<rparr>\<rparr>
               else g3)
     in if key = CHR ''t'' \<or> key = CHR ''T'' then
          g4\<lparr>trajectoryPreview := (trajectoryPreview g4)
                \<lparr>enabled := \<not> enabled (trajectoryPreview g4)\<rparr>\<rparr>
        else g4)"

subsection \<open>The frame (\<open>draw\<close>)\<close>

text \<open>
  \<open>Engine.update\<close> belongs to Matter.js. What it does to each body in one tick is an
  input of the model (\<open>advance\<close>); it adds and removes no body. Of the drawing code,
  \<open>drawCue\<close> writes \<open>cue.angle\<close> and \<open>drawBalls\<close> reads \<open>.position\<close> of
  every entry of \<open>colouredBalls\<close> without a null test; the rest only reads the state.
\<close>

definition Engine_update :: "(ball \<Rightarrow> ball) \<Rightarrow> game \<Rightarrow> game" where
  "Engine_update advance g =
    g\<lparr>cueBall := map_option advance (cueBall g),
      redBalls := map advance (redBalls g),
      colouredBalls := (\<lambda>col. map_option advance (colouredBalls g col))\<rparr>"

definition drawCue :: "real \<Rightarrow> real \<Rightarrow> game \<Rightarrow> game" where
  "drawCue mouseX mouseY g =
    (case cueBall g of
       None \<Rightarrow> g
     | Some cb \<Rightarrow>
         if isShooting g then g
         else if \<not> isAiming (cue g) then
           (let dx = mouseX - fst (position cb);
                dy = mouseY - snd (position cb)
            in g\<lparr>cue := (cue g)\<lparr>angle := atan2 dy dx\<rparr>\<rparr>)
         else g)"

definition draw :: "(ball \<Rightarrow> ball) \<Rightarrow> real \<Rightarrow> real \<Rightarrow> game \<Rightarrow> error + game" where
  "draw advance mouseX mouseY g =
    (if showReplay (replaySystem g) then Inr (drawReplayFrame g)
     else
       let g1 = Engine_update advance g;
           g2 = (if isShooting g1 \<and> recording (replaySystem g1)
                 then recordReplayFrame g1 else g1);
           g3 = checkPocketCollisions g2
       in case checkBallsMoving g3 of
            Inl e \<Rightarrow> Inl e
          | Inr g4 \<Rightarrow>
              let g5 = (if cueBallPlaced g4 \<and> canShoot g4 \<and> cueBall g4 \<noteq> None
                        then calculateTrajectoryPreview g4 else g4)
              in if list_ex (\<lambda>col. colouredBalls g5 col = None) colours then Inl TypeError
                 else if cueBallPlaced g5 \<and> canShoot g5
                 then Inr (drawCue mouseX mouseY g5)
                 else Inr g5)"

subsection \<open>Events\<close>

text \<open>
  What p5.js calls: the key and mouse handlers with the key or the pointer position
  (and, for a drag, whether SHIFT is down), and \<open>draw\<close> once per frame.
\<close>

datatype event =
    KeyPressed char "vec list"
  | MousePressed real real
  | MouseDragged real real bool
  | MouseReleased
  | Draw "ball \<Rightarrow> ball" real real

fun handle :: "event \<Rightarrow> game \<Rightarrow> error + game" where
  "handle (KeyPressed key drawn) g = Inr (keyPressed key drawn g)"
| "handle (MousePressed mx my) g = mousePressed mx my g"
| "handle (MouseDragged mx my shiftDown) g = Inr (mouseDragged mx my shiftDown g)"
| "handle MouseReleased g = mouseReleased g"
| "handle (Draw advance mx my) g = draw advance mx my g"

fun run :: "event list \<Rightarrow> game \<Rightarrow> error + game" where
  "run [] g = Inr g"
| "run (e # es) g = (case handle e g of Inl err \<Rightarrow> Inl err | Inr g' \<Rightarrow> run es g')"

subsection \<open>Vocabulary for stating the geometric claims\<close>

definition segmentPoint :: "real \<Rightarrow> real \<Rightarrow> real \<Rightarrow> real \<Rightarrow> real \<Rightarrow> real \<times> real" where
  "segmentPoint x1 y1 x2 y2 t = (x1 + t * (x2 - x1), y1 + t * (y2 - y1))"

definition euclid :: "real \<times> real \<Rightarrow> real \<times> real \<Rightarrow> real" where
  "euclid p q = sqrt ((fst p - fst q)\<^sup>2 + (snd p - snd q)\<^sup>2)"

text \<open>
  The discriminant and the two roots that \<open>lineCircleCollision\<close> computes (its locals
  \<open>discriminant\<close>, \<open>t1\<close> and \<open>t2\<close>).
\<close>

definition lcDiscriminant :: "real \<Rightarrow> real \<Rightarrow> real \<Rightarrow> real \<Rightarrow> real \<Rightarrow> real \<Rightarrow> real \<Rightarrow> real" where
  "lcDiscriminant x1 y1 x2 y2 cx cy radius =
    (let dx = x2 - x1; dy = y2 - y1; fx = x1 - cx; fy = y1 - cy;
         a = dx * dx + dy * dy;
         b = 2 * (fx * dx + fy * dy);
         c = fx * fx + fy * fy - radius * radius
     in b * b - 4 * a * c)"

definition lcRoot1 :: "real \<Rightarrow> real \<Rightarrow> real \<Rightarrow> real \<Rightarrow> real \<Rightarrow> real \<Rightarrow> real \<Rightarrow> real" where
  "lcRoot1 x1 y1 x2 y2 cx cy radius =
    (let dx = x2 - x1; dy = y2 - y1; fx = x1 - cx; fy = y1 - cy;
         a = dx * dx + dy * dy;
         b = 2 * (fx * dx + fy * dy)
     in (- b - sqrt (lcDiscriminant x1 y1 x2 y2 cx cy radius)) / (2 * a))"

definition lcRoot2 :: "real \<Rightarrow> real \<Rightarrow> real \<Rightarrow> real \<Rightarrow> real \<Rightarrow> real \<Rightarrow> real \<Rightarrow> real" where
  "lcRoot2 x1 y1 x2 y2 cx cy radius =
    (let dx = x2 - x1; dy = y2 - y1; fx = x1 - cx; fy = y1 - cy;
         a = dx * dx + dy * dy;
         b = 2 * (fx * dx + fy * dy)
     in (- b + sqrt (lcDiscriminant x1 y1 x2 y2 cx cy radius)) / (2 * a))"

text \<open>
  The capture radius of \<open>checkPocketCollisions\<close> (its local \<open>pocketRadius\<close>), the
  number of balls on the table, and a coloured ball put back on its spot.
\<close>

definition captureRadius :: real where
  "captureRadius = pocketSize * 0.6"

definition liveCount :: "game \<Rightarrow> nat" where
  "liveCount g =
    (case cueBall g of None \<Rightarrow> 0 | Some cb \<Rightarrow> 1) + length (redBalls g) +
    length (filter (\<lambda>col. colouredBalls g col \<noteq> None) colours)"

definition respot :: "colour \<Rightarrow> ball \<Rightarrow> ball" where
  "respot col b = b\<lparr>position := spotPositions col, velocity := (0, 0)\<rparr>"

text \<open>
  The D: the bottom edge of the playing area and the baulk line as \<open>isInDZone\<close>
  computes them, the centre of the semicircle, the open half disc below the baulk line,
  the balls other than the cue ball, and the state in which no entry of
  \<open>colouredBalls\<close> is \<open>null\<close> (true from \<open>setup\<close> on).
\<close>

definition playBottom :: real where
  "playBottom = tableY + tableWidth - cushionThickness"

definition baulkY :: real where
  "baulkY = playBottom - ((tableWidth - cushionThickness * 2) * 0.2)"

definition dCentre :: vec where
  "dCentre = (tableX + tableLength / 2, baulkY)"

definition strictlyInD :: "real \<Rightarrow> real \<Rightarrow> bool" where
  "strictlyInD px py = (baulkY < py \<and> euclid (px, py) dCentre < dRadius)"

definition otherBalls :: "game \<Rightarrow> ball list" where
  "otherBalls g = map fst (getAllBallsExceptCue g)"

definition allColoured :: "game \<Rightarrow> bool" where
  "allColoured g = list_all (\<lambda>col. colouredBalls g col \<noteq> None) colours"

text \<open>
  \<open>forecastOnly g g'\<close>: the state \<open>g'\<close> differs from \<open>g\<close> in the forecast
  (\<open>trajectoryPreview\<close>) at most.
\<close>

definition forecastOnly :: "game \<Rightarrow> game \<Rightarrow> bool" where
  "forecastOnly g g' = (g'\<lparr>trajectoryPreview := trajectoryPreview g\<rparr> = g)"

text \<open>
  The release gesture: the condition under which \<open>mouseReleased\<close> calls
  \<open>shootCueBall\<close>, the force \<open>shootCueBall\<close> applies, and the cue ball after the
  stroke.
\<close>

definition releaseFires :: "game \<Rightarrow> bool" where
  "releaseFires g = (isAiming (cue g) \<and> cueBall g \<noteq> None \<and> pullBack (cue g) > 5)"

definition shotForce :: "game \<Rightarrow> vec" where
  "shotForce g =
    (let power = p5map (pullBack (cue g)) 0 maxPullBack 0 0.5;
         sideSpinEffect = spin_x (spinControl g) * 0.08 * power
     in (cos (angle (cue g)) * power + (- sin (angle (cue g))) * sideSpinEffect,
         sin (angle (cue g)) * power + cos (angle (cue g)) * sideSpinEffect))"

definition struck :: "game \<Rightarrow> ball \<Rightarrow> ball" where
  "struck g cb =
    cb\<lparr>frictionAir := BALL_FRICTION_AIR * (1 + (spin_y (spinControl g) * 0.3)),
       force := (fst (force cb) + fst (shotForce g), snd (force cb) + snd (shotForce g)),
       angularVelocity := spin_x (spinControl g) * 0.2\<rparr>"






text \<open>
  States used as examples: the opening rack with the cue ball placed at \<open>(550, 500)\<close>;
  the same with the aim locked at \<open>(700, 300)\<close> and the cue pulled back by 80; and the
  latter with right-hand side spin set on the spin control. Each is reached from
  \<open>setupGame\<close> by a run of events (lemmas \<open>press_places\<close>, \<open>run_to_aiming\<close>,
  \<open>run_to_spunAiming\<close>).
\<close>

definition placedGame :: game where
  "placedGame = createCueBall 550 500 setupGame"

definition aimingGame :: game where
  "aimingGame = placedGame
     \<lparr>cue := \<lparr>angle = atan2 (- 200) 150, pullBack = 80, isAiming = True,
              dragStartX = 700, dragStartY = 300\<rparr>\<rparr>"


text \<open>
  The marching loop observed from outside. \<open>marchAfter n m g\<close> is the pair of locals
  and state with which the loop, started with \<open>m\<close> and \<open>g\<close>, begins its pass number
  \<open>n + 1\<close> (\<open>None\<close> if it has stopped before). \<open>crossesX\<close> and \<open>crossesY\<close>
  say that the straight step from \<open>m\<close> leaves the interior through a side or an end
  boundary. \<open>forecastBounded\<close> is the loop invariant relating the distance counter to
  the number of points pushed. \<open>nearCushionGame\<close> is the opening rack with the cue
  ball close to the right-hand boundary, aimed at it (angle 0).
\<close>

fun marchAfter :: "nat \<Rightarrow> march \<Rightarrow> game \<Rightarrow> (march \<times> game) option" where
  "marchAfter 0 m g = Some (m, g)"
| "marchAfter (Suc n) m g =
    (if bounces m \<le> maxBounces \<and> totalDist m < maxDistance then
       (case traceStep m g of
          (None, g') \<Rightarrow> None
        | (Some m', g') \<Rightarrow> marchAfter n m' g')
     else None)"

definition unitDirection :: "march \<Rightarrow> bool" where
  "unitDirection m = ((currentDirX m)\<^sup>2 + (currentDirY m)\<^sup>2 = 1)"

definition crossesX :: "march \<Rightarrow> bool" where
  "crossesX m =
    (currentX m + currentDirX m * stepSize < innerLeft \<or>
     currentX m + currentDirX m * stepSize > innerRight)"

definition crossesY :: "march \<Rightarrow> bool" where
  "crossesY m =
    (currentY m + currentDirY m * stepSize < innerTop \<or>
     currentY m + currentDirY m * stepSize > innerBottom)"

definition forecastBounded :: "real \<Rightarrow> game \<Rightarrow> bool" where
  "forecastBounded d g =
    (d = stepSize * real (length (points (trajectoryPreview g))) \<and>
     length (points (trajectoryPreview g)) \<le> 160 \<and>
     list_all (\<lambda>p. bounce p \<le> maxBounces) (points (trajectoryPreview g)))"

definition nearCushionGame :: game where
  "nearCushionGame =
     setupGame\<lparr>cueBall := Some (Bodies_circle 22 966 300 ballRadius ''cueBall''),
               cueBallPlaced := True\<rparr>"

text \<open>
  A ball contact: \<open>contactOK h\<close> says that the contact point of \<open>h\<close> lies one ball
  diameter from the centre of the struck ball. \<open>targetRay\<close> and \<open>cueRay\<close> are the
  two entries \<open>calculateDeflectionPaths\<close> pushes, \<open>ghostOf\<close> is the record stored in
  \<open>ghostBall\<close>. Top spin is \<open>spinControl.y < 0\<close> and back spin \<open>spinControl.y > 0\<close>
  (\<open>getSpinTypeLabel\<close> labels them TOP and BACK; the comment in
  \<open>calculateDeflectionPaths\<close> reads "top spin = less deflection, back spin = more").
  \<open>perpendicularAngle\<close> is the angle of the line of centres plus a quarter turn.
  \<open>hitGame\<close> is the opening rack with the cue ball on the baulk line, aimed (angle 0)
  at the green ball 17 away; \<open>greenHit\<close> is the contact the predictor finds there.
\<close>

definition contactOK :: "target_hit \<Rightarrow> bool" where
  "contactOK h = (euclid (hitX h, hitY h) (position (hit_ball h)) = ballDiameter)"

definition targetRay :: "target_hit \<Rightarrow> deflection" where
  "targetRay h =
    \<lparr>startX = fst (position (hit_ball h)), startY = snd (position (hit_ball h)),
     dirX = fst (toTarget h), dirY = snd (toTarget h),
     ray_color = hit_color h, ray_length = 80\<rparr>"

definition cueRay :: "target_hit \<Rightarrow> game \<Rightarrow> deflection" where
  "cueRay h g =
    \<lparr>startX = hitX h, startY = hitY h,
     dirX = cos (deflectAngle h g), dirY = sin (deflectAngle h g),
     ray_color = BALL_COLORS_cue, ray_length = 50\<rparr>"

definition ghostOf :: "target_hit \<Rightarrow> ghost_ball" where
  "ghostOf h =
    \<lparr>ghost_x = hitX h, ghost_y = hitY h, targetBall = hit_ball h, targetColor = hit_color h\<rparr>"

definition topSpin :: "game \<Rightarrow> bool" where
  "topSpin g = (spin_y (spinControl g) < 0)"

definition backSpin :: "game \<Rightarrow> bool" where
  "backSpin g = (spin_y (spinControl g) > 0)"

definition perpendicularAngle :: "target_hit \<Rightarrow> real" where
  "perpendicularAngle h = atan2 (snd (toTarget h)) (fst (toTarget h)) + HALF_PI"

definition hitGame :: game where
  "hitGame =
     setupGame\<lparr>cueBall := Some (Bodies_circle 22 637 470 ballRadius ''cueBall''),
               cueBallPlaced := True\<rparr>"

definition greenHit :: target_hit where
  "greenHit =
     \<lparr>hit_ball = Bodies_circle 2 654 470 ballRadius ''green'', hit_color = ''#388E3C'',
      hitX = 1283 / 2, hitY = 470, hitDist = 9 / 2\<rparr>"

text \<open>
  The forecast as a path. \<open>pointOf m\<close> is the point a pass pushes at its start.
  \<open>insideInterior\<close> says that a point lies within the four interior boundaries.
  \<open>sidestep m\<close> is the perpendicular offset the pass adds to the step when the curve
  is above its threshold (\<open>curveAmount * 0.3\<close>, otherwise nothing). \<open>fixedSteps\<close>
  says of a list of forecast points that consecutive points with the same bounce count are
  exactly \<open>stepSize\<close> apart and consecutive points with different bounce counts at most
  \<open>stepSize\<close> apart; \<open>pathLength\<close> is the length of the polyline through the points.
\<close>

definition pointOf :: "march \<Rightarrow> path_point" where
  "pointOf m = \<lparr>pt_x = currentX m, pt_y = currentY m, bounce = bounces m\<rparr>"

definition insideInterior :: "real \<Rightarrow> real \<Rightarrow> bool" where
  "insideInterior x y = (innerLeft \<le> x \<and> x \<le> innerRight \<and> innerTop \<le> y \<and> y \<le> innerBottom)"

definition sidestep :: "march \<Rightarrow> real" where
  "sidestep m = (if \<bar>curveAmount m\<bar> > 0.01 then curveAmount m * 0.3 else 0)"

fun fixedSteps :: "path_point list \<Rightarrow> bool" where
  "fixedSteps [] = True"
| "fixedSteps [p] = True"
| "fixedSteps (p # q # ps) =
    ((if bounce q = bounce p then euclid (pt_x p, pt_y p) (pt_x q, pt_y q) = stepSize
      else euclid (pt_x p, pt_y p) (pt_x q, pt_y q) \<le> stepSize) \<and>
     fixedSteps (q # ps))"

fun pathLength :: "path_point list \<Rightarrow> real" where
  "pathLength [] = 0"
| "pathLength [p] = 0"
| "pathLength (p # q # ps) = euclid (pt_x p, pt_y p) (pt_x q, pt_y q) + pathLength (q # ps)"

section \<open>Segment and circle\<close>

lemma quad_roots:
  fixes a b c t :: real
  assumes "a \<noteq> 0"
  shows "a * t * t + b * t + c = 0 \<longleftrightarrow>
     (b * b - 4 * a * c \<ge> 0 \<and>
      (t = (- b - sqrt (b * b - 4 * a * c)) / (2 * a) \<or> t = (- b + sqrt (b * b - 4 * a * c)) / (2 * a)))"
proof -
  have sq: "(2 * a * t + b)\<^sup>2 = b * b - 4 * a * c + 4 * a * (a * t * t + b * t + c)"
    by (simp add: power2_eq_square algebra_simps)
  show ?thesis
  proof
    assume r: "a * t * t + b * t + c = 0"
    then have e: "(2 * a * t + b)\<^sup>2 = b * b - 4 * a * c" using sq by simp
    then have d: "b * b - 4 * a * c \<ge> 0" by (metis zero_le_power2)
    have "sqrt (b * b - 4 * a * c) = \<bar>2 * a * t + b\<bar>" using e by (metis real_sqrt_abs)
    then have "2 * a * t + b = sqrt (b * b - 4 * a * c) \<or> 2 * a * t + b = - sqrt (b * b - 4 * a * c)"
      by linarith
    then have "t = (- b + sqrt (b * b - 4 * a * c)) / (2 * a) \<or> t = (- b - sqrt (b * b - 4 * a * c)) / (2 * a)"
      using assms by (auto simp: field_simps)
    with d show "b * b - 4 * a * c \<ge> 0 \<and>
      (t = (- b - sqrt (b * b - 4 * a * c)) / (2 * a) \<or> t = (- b + sqrt (b * b - 4 * a * c)) / (2 * a))"
      by blast
  next
    assume h: "b * b - 4 * a * c \<ge> 0 \<and>
      (t = (- b - sqrt (b * b - 4 * a * c)) / (2 * a) \<or> t = (- b + sqrt (b * b - 4 * a * c)) / (2 * a))"
    then have "2 * a * t + b = sqrt (b * b - 4 * a * c) \<or> 2 * a * t + b = - sqrt (b * b - 4 * a * c)"
      using assms by (auto simp: field_simps)
    then have "(2 * a * t + b)\<^sup>2 = (sqrt (b * b - 4 * a * c))\<^sup>2" by auto
    also have "\<dots> = b * b - 4 * a * c" using h by simp
    finally have "4 * a * (a * t * t + b * t + c) = 0" using sq by simp
    then show "a * t * t + b * t + c = 0" using assms by simp
  qed
qed

lemma onCircle_iff_quadratic:
  fixes x1 y1 x2 y2 cx cy radius t :: real
  assumes "0 \<le> radius"
  shows "euclid (segmentPoint x1 y1 x2 y2 t) (cx, cy) = radius \<longleftrightarrow>
    ((x2 - x1) * (x2 - x1) + (y2 - y1) * (y2 - y1)) * t * t
      + (2 * ((x1 - cx) * (x2 - x1) + (y1 - cy) * (y2 - y1))) * t
      + ((x1 - cx) * (x1 - cx) + (y1 - cy) * (y1 - cy) - radius * radius) = 0"
proof -
  let ?X = "(x1 + t * (x2 - x1) - cx)\<^sup>2 + (y1 + t * (y2 - y1) - cy)\<^sup>2"
  have X0: "0 \<le> ?X" by simp
  have "sqrt ?X = radius \<longleftrightarrow> ?X = radius\<^sup>2"
  proof
    assume "sqrt ?X = radius"
    then have "(sqrt ?X)\<^sup>2 = radius\<^sup>2" by simp
    then show "?X = radius\<^sup>2" using X0 by simp
  next
    assume "?X = radius\<^sup>2"
    then show "sqrt ?X = radius" using assms by (simp add: real_sqrt_unique)
  qed
  moreover have "?X = radius\<^sup>2 \<longleftrightarrow>
    ((x2 - x1) * (x2 - x1) + (y2 - y1) * (y2 - y1)) * t * t
      + (2 * ((x1 - cx) * (x2 - x1) + (y1 - cy) * (y2 - y1))) * t
      + ((x1 - cx) * (x1 - cx) + (y1 - cy) * (y1 - cy) - radius * radius) = 0"
    by (simp add: power2_eq_square algebra_simps)
  ultimately show ?thesis by (simp add: euclid_def segmentPoint_def)
qed

lemma segment_length_sq:
  "euclid (x1, y1) (x2, y2) = sqrt ((x2 - x1) * (x2 - x1) + (y2 - y1) * (y2 - y1))"
  by (simp add: euclid_def power2_eq_square algebra_simps)

lemma segment_nondegenerate:
  fixes x1 y1 x2 y2 :: real
  shows "(x2 - x1) * (x2 - x1) + (y2 - y1) * (y2 - y1) = 0 \<longleftrightarrow> (x1, y1) = (x2, y2)"
  by (auto simp: sum_squares_eq_zero_iff)


lemma lineCircleCollision_unfold:
  fixes x1 y1 x2 y2 cx cy radius :: real
  defines "a \<equiv> (x2 - x1) * (x2 - x1) + (y2 - y1) * (y2 - y1)"
    and "b \<equiv> 2 * ((x1 - cx) * (x2 - x1) + (y1 - cy) * (y2 - y1))"
    and "c \<equiv> (x1 - cx) * (x1 - cx) + (y1 - cy) * (y1 - cy) - radius * radius"
  defines "t1 \<equiv> (- b - sqrt (b * b - 4 * a * c)) / (2 * a)"
    and "t2 \<equiv> (- b + sqrt (b * b - 4 * a * c)) / (2 * a)"
  shows "lineCircleCollision x1 y1 x2 y2 cx cy radius =
    (if b * b - 4 * a * c < 0 then None
     else if a = 0 then None
     else if 0 \<le> t1 \<and> t1 \<le> 1 then
       Some \<lparr>hit_x = x1 + t1 * (x2 - x1), hit_y = y1 + t1 * (y2 - y1), hit_dist = t1 * sqrt a\<rparr>
     else if 0 \<le> t2 \<and> t2 \<le> 1 then
       Some \<lparr>hit_x = x1 + t2 * (x2 - x1), hit_y = y1 + t2 * (y2 - y1), hit_dist = t2 * sqrt a\<rparr>
     else None)"
  unfolding lineCircleCollision_def Let_def a_def b_def c_def t1_def t2_def ..

lemma lineCircleCollision_SomeD:
  fixes x1 y1 x2 y2 cx cy radius :: real
  defines "a \<equiv> (x2 - x1) * (x2 - x1) + (y2 - y1) * (y2 - y1)"
    and "b \<equiv> 2 * ((x1 - cx) * (x2 - x1) + (y1 - cy) * (y2 - y1))"
    and "c \<equiv> (x1 - cx) * (x1 - cx) + (y1 - cy) * (y1 - cy) - radius * radius"
  defines "t1 \<equiv> (- b - sqrt (b * b - 4 * a * c)) / (2 * a)"
    and "t2 \<equiv> (- b + sqrt (b * b - 4 * a * c)) / (2 * a)"
  assumes res: "lineCircleCollision x1 y1 x2 y2 cx cy radius = Some h"
  shows "a \<noteq> 0 \<and> 0 \<le> b * b - 4 * a * c \<and>
    (\<exists>t. 0 \<le> t \<and> t \<le> 1 \<and>
      h = \<lparr>hit_x = x1 + t * (x2 - x1), hit_y = y1 + t * (y2 - y1), hit_dist = t * sqrt a\<rparr> \<and>
      (t = t1 \<or> t = t2 \<and> \<not> (0 \<le> t1 \<and> t1 \<le> 1)))"
proof -
  note u = lineCircleCollision_unfold [of x1 y1 x2 y2 cx cy radius, folded a_def b_def c_def, folded t1_def t2_def]
  from res u show ?thesis by (auto split: if_splits)
qed

lemma lineCircleCollision_NoneD:
  fixes x1 y1 x2 y2 cx cy radius :: real
  defines "a \<equiv> (x2 - x1) * (x2 - x1) + (y2 - y1) * (y2 - y1)"
    and "b \<equiv> 2 * ((x1 - cx) * (x2 - x1) + (y1 - cy) * (y2 - y1))"
    and "c \<equiv> (x1 - cx) * (x1 - cx) + (y1 - cy) * (y1 - cy) - radius * radius"
  defines "t1 \<equiv> (- b - sqrt (b * b - 4 * a * c)) / (2 * a)"
    and "t2 \<equiv> (- b + sqrt (b * b - 4 * a * c)) / (2 * a)"
  assumes res: "lineCircleCollision x1 y1 x2 y2 cx cy radius = None"
  shows "a = 0 \<or> b * b - 4 * a * c < 0 \<or>
    (\<not> (0 \<le> t1 \<and> t1 \<le> 1) \<and> \<not> (0 \<le> t2 \<and> t2 \<le> 1))"
proof -
  note u = lineCircleCollision_unfold [of x1 y1 x2 y2 cx cy radius, folded a_def b_def c_def, folded t1_def t2_def]
  from res u show ?thesis by (simp split: if_splits)
qed


lemma lineCircleCollision_first_intersection:
  fixes x1 y1 x2 y2 cx cy radius :: real
  assumes r: "0 \<le> radius"
    and res: "lineCircleCollision x1 y1 x2 y2 cx cy radius = Some h"
  shows "\<exists>t. 0 \<le> t \<and> t \<le> 1 \<and>
      (hit_x h, hit_y h) = segmentPoint x1 y1 x2 y2 t \<and>
      euclid (hit_x h, hit_y h) (cx, cy) = radius \<and>
      hit_dist h = t * euclid (x1, y1) (x2, y2) \<and>
      (\<forall>t'. 0 \<le> t' \<and> t' \<le> 1 \<and> euclid (segmentPoint x1 y1 x2 y2 t') (cx, cy) = radius
          \<longrightarrow> t \<le> t')"
proof -
  define a where "a = (x2 - x1) * (x2 - x1) + (y2 - y1) * (y2 - y1)"
  define b where "b = 2 * ((x1 - cx) * (x2 - x1) + (y1 - cy) * (y2 - y1))"
  define c where "c = (x1 - cx) * (x1 - cx) + (y1 - cy) * (y1 - cy) - radius * radius"
  define s where "s = sqrt (b * b - 4 * a * c)"
  from lineCircleCollision_SomeD [OF res]
  obtain t where a0: "a \<noteq> 0" and d0: "0 \<le> b * b - 4 * a * c"
    and t01: "0 \<le> t" "t \<le> 1"
    and h: "h = \<lparr>hit_x = x1 + t * (x2 - x1), hit_y = y1 + t * (y2 - y1), hit_dist = t * sqrt a\<rparr>"
    and tr: "t = (- b - s) / (2 * a) \<or>
             t = (- b + s) / (2 * a) \<and> \<not> (0 \<le> (- b - s) / (2 * a) \<and> (- b - s) / (2 * a) \<le> 1)"
    unfolding a_def b_def c_def s_def by blast
  have apos: "0 < a"
    using a0 unfolding a_def by (metis less_eq_real_def sum_squares_ge_zero)
  have s0: "0 \<le> s" unfolding s_def using d0 by simp
  have le: "(- b - s) / (2 * a) \<le> (- b + s) / (2 * a)"
    using apos s0 by (simp add: divide_le_cancel)
  have circ: "\<And>u. euclid (segmentPoint x1 y1 x2 y2 u) (cx, cy) = radius \<longleftrightarrow>
      (u = (- b - s) / (2 * a) \<or> u = (- b + s) / (2 * a))"
    using onCircle_iff_quadratic [OF r, of x1 y1 x2 y2 _ cx cy]
      quad_roots [OF a0, of _ b c] d0
    unfolding a_def b_def c_def s_def by simp
  have on: "euclid (segmentPoint x1 y1 x2 y2 t) (cx, cy) = radius"
    using circ tr by blast
  have min: "\<forall>t'. 0 \<le> t' \<and> t' \<le> 1 \<and> euclid (segmentPoint x1 y1 x2 y2 t') (cx, cy) = radius
          \<longrightarrow> t \<le> t'"
  proof (intro allI impI)
    fix t' assume t': "0 \<le> t' \<and> t' \<le> 1 \<and> euclid (segmentPoint x1 y1 x2 y2 t') (cx, cy) = radius"
    then have "t' = (- b - s) / (2 * a) \<or> t' = (- b + s) / (2 * a)" using circ by blast
    then show "t \<le> t'" using tr le t' by auto
  qed
  have pt: "(hit_x h, hit_y h) = segmentPoint x1 y1 x2 y2 t"
    by (simp add: h segmentPoint_def)
  have dist: "hit_dist h = t * euclid (x1, y1) (x2, y2)"
    by (simp add: h segment_length_sq a_def)
  show ?thesis using t01 pt on dist min by (metis)
qed

lemma lineCircleCollision_finds_intersection:
  fixes x1 y1 x2 y2 cx cy radius :: real
  assumes r: "0 \<le> radius"
    and nd: "(x1, y1) \<noteq> (x2, y2)"
    and ex: "0 \<le> t" "t \<le> 1" "euclid (segmentPoint x1 y1 x2 y2 t) (cx, cy) = radius"
  shows "lineCircleCollision x1 y1 x2 y2 cx cy radius \<noteq> None"
proof
  assume none: "lineCircleCollision x1 y1 x2 y2 cx cy radius = None"
  define a where "a = (x2 - x1) * (x2 - x1) + (y2 - y1) * (y2 - y1)"
  define b where "b = 2 * ((x1 - cx) * (x2 - x1) + (y1 - cy) * (y2 - y1))"
  define c where "c = (x1 - cx) * (x1 - cx) + (y1 - cy) * (y1 - cy) - radius * radius"
  have a0: "a \<noteq> 0" using nd segment_nondegenerate [of x2 x1 y2 y1] unfolding a_def by simp
  have "a * t * t + b * t + c = 0"
    using onCircle_iff_quadratic [OF r, of x1 y1 x2 y2 t cx cy] ex(3)
    unfolding a_def b_def c_def by simp
  then have root: "b * b - 4 * a * c \<ge> 0 \<and>
      (t = (- b - sqrt (b * b - 4 * a * c)) / (2 * a) \<or> t = (- b + sqrt (b * b - 4 * a * c)) / (2 * a))"
    using quad_roots [OF a0] by simp
  from lineCircleCollision_NoneD [OF none] a0 root ex(1,2)
  show False unfolding a_def b_def c_def by auto
qed


lemma lineCircleCollision_roots:
  "lineCircleCollision x1 y1 x2 y2 cx cy radius =
    (if lcDiscriminant x1 y1 x2 y2 cx cy radius < 0 then None
     else if (x1, y1) = (x2, y2) then None
     else if 0 \<le> lcRoot1 x1 y1 x2 y2 cx cy radius \<and> lcRoot1 x1 y1 x2 y2 cx cy radius \<le> 1 then
       Some \<lparr>hit_x = fst (segmentPoint x1 y1 x2 y2 (lcRoot1 x1 y1 x2 y2 cx cy radius)),
             hit_y = snd (segmentPoint x1 y1 x2 y2 (lcRoot1 x1 y1 x2 y2 cx cy radius)),
             hit_dist = lcRoot1 x1 y1 x2 y2 cx cy radius * euclid (x1, y1) (x2, y2)\<rparr>
     else if 0 \<le> lcRoot2 x1 y1 x2 y2 cx cy radius \<and> lcRoot2 x1 y1 x2 y2 cx cy radius \<le> 1 then
       Some \<lparr>hit_x = fst (segmentPoint x1 y1 x2 y2 (lcRoot2 x1 y1 x2 y2 cx cy radius)),
             hit_y = snd (segmentPoint x1 y1 x2 y2 (lcRoot2 x1 y1 x2 y2 cx cy radius)),
             hit_dist = lcRoot2 x1 y1 x2 y2 cx cy radius * euclid (x1, y1) (x2, y2)\<rparr>
     else None)"
proof -
  have nd: "((x2 - x1) * (x2 - x1) + (y2 - y1) * (y2 - y1) = 0) = ((x1, y1) = (x2, y2))"
    by (rule segment_nondegenerate)
  show ?thesis
    unfolding lineCircleCollision_unfold lcDiscriminant_def lcRoot1_def lcRoot2_def Let_def
      segmentPoint_def segment_length_sq nd fst_conv snd_conv ..
qed

lemma lcRoot_le:
  assumes "(x1, y1) \<noteq> (x2, y2)" and "0 \<le> lcDiscriminant x1 y1 x2 y2 cx cy radius"
  shows "lcRoot1 x1 y1 x2 y2 cx cy radius \<le> lcRoot2 x1 y1 x2 y2 cx cy radius"
proof -
  have "(x2 - x1) * (x2 - x1) + (y2 - y1) * (y2 - y1) \<noteq> 0"
    using assms(1) segment_nondegenerate [of x2 x1 y2 y1] by simp
  then have "0 < (x2 - x1) * (x2 - x1) + (y2 - y1) * (y2 - y1)"
    by (metis less_eq_real_def sum_squares_ge_zero)
  moreover have "0 \<le> sqrt (lcDiscriminant x1 y1 x2 y2 cx cy radius)" using assms(2) by simp
  ultimately show ?thesis
    unfolding lcRoot1_def lcRoot2_def Let_def by (simp add: divide_le_cancel)
qed

text \<open>
  Claim C1. For a segment from \<open>(x1, y1)\<close> to \<open>(x2, y2)\<close> and a circle of radius
  \<open>radius \<ge> 0\<close> about \<open>(cx, cy)\<close>:
  \<^item> a result of \<open>lineCircleCollision\<close> is a point of the segment, at parameter
    \<open>t\<close> in \<open>[0, 1]\<close>, whose distance from the centre is the radius, with
    \<open>dist = t\<close> times the segment's length; no point of the segment that lies on the
    circle has a smaller parameter;
  \<^item> if the endpoints differ and some point of the segment lies on the circle, there is
    a result;
  \<^item> if no point of the segment lies on the circle (in particular when every point of
    the segment is farther from the centre than the radius), the result is \<open>null\<close>;
  \<^item> in terms of the quadratic: a negative discriminant gives \<open>null\<close>; for distinct
    endpoints and a discriminant that is not negative, \<open>t1 \<le> t2\<close>, the point at
    \<open>t1\<close> is returned when \<open>t1\<close> is in \<open>[0, 1]\<close> (so the smaller root when both
    are), the point at \<open>t2\<close> when only \<open>t2\<close> is; and when both roots are outside
    \<open>[0, 1]\<close> the result is \<open>null\<close>.
\<close>

theorem lineCircleCollision_correct:
  fixes x1 y1 x2 y2 cx cy radius :: real
  assumes "0 \<le> radius"
  shows
    "(\<forall>h. lineCircleCollision x1 y1 x2 y2 cx cy radius = Some h \<longrightarrow>
        (\<exists>t. 0 \<le> t \<and> t \<le> 1 \<and>
          (hit_x h, hit_y h) = segmentPoint x1 y1 x2 y2 t \<and>
          euclid (hit_x h, hit_y h) (cx, cy) = radius \<and>
          hit_dist h = t * euclid (x1, y1) (x2, y2) \<and>
          (\<forall>t'. 0 \<le> t' \<and> t' \<le> 1 \<and>
                euclid (segmentPoint x1 y1 x2 y2 t') (cx, cy) = radius \<longrightarrow> t \<le> t'))) \<and>
     ((x1, y1) \<noteq> (x2, y2) \<and>
      (\<exists>t. 0 \<le> t \<and> t \<le> 1 \<and> euclid (segmentPoint x1 y1 x2 y2 t) (cx, cy) = radius) \<longrightarrow>
        lineCircleCollision x1 y1 x2 y2 cx cy radius \<noteq> None) \<and>
     ((\<forall>t. 0 \<le> t \<and> t \<le> 1 \<longrightarrow> euclid (segmentPoint x1 y1 x2 y2 t) (cx, cy) \<noteq> radius) \<longrightarrow>
        lineCircleCollision x1 y1 x2 y2 cx cy radius = None) \<and>
     (lcDiscriminant x1 y1 x2 y2 cx cy radius < 0 \<longrightarrow>
        lineCircleCollision x1 y1 x2 y2 cx cy radius = None) \<and>
     ((x1, y1) \<noteq> (x2, y2) \<and> 0 \<le> lcDiscriminant x1 y1 x2 y2 cx cy radius \<longrightarrow>
        lcRoot1 x1 y1 x2 y2 cx cy radius \<le> lcRoot2 x1 y1 x2 y2 cx cy radius \<and>
        (0 \<le> lcRoot1 x1 y1 x2 y2 cx cy radius \<and> lcRoot1 x1 y1 x2 y2 cx cy radius \<le> 1 \<longrightarrow>
           (\<exists>h. lineCircleCollision x1 y1 x2 y2 cx cy radius = Some h \<and>
              (hit_x h, hit_y h) =
                segmentPoint x1 y1 x2 y2 (lcRoot1 x1 y1 x2 y2 cx cy radius))) \<and>
        (\<not> (0 \<le> lcRoot1 x1 y1 x2 y2 cx cy radius \<and> lcRoot1 x1 y1 x2 y2 cx cy radius \<le> 1) \<and>
         0 \<le> lcRoot2 x1 y1 x2 y2 cx cy radius \<and> lcRoot2 x1 y1 x2 y2 cx cy radius \<le> 1 \<longrightarrow>
           (\<exists>h. lineCircleCollision x1 y1 x2 y2 cx cy radius = Some h \<and>
              (hit_x h, hit_y h) =
                segmentPoint x1 y1 x2 y2 (lcRoot2 x1 y1 x2 y2 cx cy radius)))) \<and>
     (\<not> (0 \<le> lcRoot1 x1 y1 x2 y2 cx cy radius \<and> lcRoot1 x1 y1 x2 y2 cx cy radius \<le> 1) \<and>
      \<not> (0 \<le> lcRoot2 x1 y1 x2 y2 cx cy radius \<and> lcRoot2 x1 y1 x2 y2 cx cy radius \<le> 1) \<longrightarrow>
        lineCircleCollision x1 y1 x2 y2 cx cy radius = None)"
proof -
  have first: "\<forall>h. lineCircleCollision x1 y1 x2 y2 cx cy radius = Some h \<longrightarrow>
        (\<exists>t. 0 \<le> t \<and> t \<le> 1 \<and>
          (hit_x h, hit_y h) = segmentPoint x1 y1 x2 y2 t \<and>
          euclid (hit_x h, hit_y h) (cx, cy) = radius \<and>
          hit_dist h = t * euclid (x1, y1) (x2, y2) \<and>
          (\<forall>t'. 0 \<le> t' \<and> t' \<le> 1 \<and>
                euclid (segmentPoint x1 y1 x2 y2 t') (cx, cy) = radius \<longrightarrow> t \<le> t'))"
    using lineCircleCollision_first_intersection [OF assms] by blast
  have finds: "(x1, y1) \<noteq> (x2, y2) \<and>
      (\<exists>t. 0 \<le> t \<and> t \<le> 1 \<and> euclid (segmentPoint x1 y1 x2 y2 t) (cx, cy) = radius) \<longrightarrow>
        lineCircleCollision x1 y1 x2 y2 cx cy radius \<noteq> None"
    using lineCircleCollision_finds_intersection [OF assms] by blast
  have misses: "(\<forall>t. 0 \<le> t \<and> t \<le> 1 \<longrightarrow> euclid (segmentPoint x1 y1 x2 y2 t) (cx, cy) \<noteq> radius) \<longrightarrow>
        lineCircleCollision x1 y1 x2 y2 cx cy radius = None"
  proof
    assume no: "\<forall>t. 0 \<le> t \<and> t \<le> 1 \<longrightarrow> euclid (segmentPoint x1 y1 x2 y2 t) (cx, cy) \<noteq> radius"
    show "lineCircleCollision x1 y1 x2 y2 cx cy radius = None"
    proof (cases "lineCircleCollision x1 y1 x2 y2 cx cy radius")
      case None
      then show ?thesis .
    next
      case (Some h)
      from lineCircleCollision_first_intersection [OF assms Some]
      obtain t where "0 \<le> t" "t \<le> 1" "(hit_x h, hit_y h) = segmentPoint x1 y1 x2 y2 t"
        "euclid (hit_x h, hit_y h) (cx, cy) = radius" by blast
      with no show ?thesis by metis
    qed
  qed
  note r = lineCircleCollision_roots [of x1 y1 x2 y2 cx cy radius]
  have neg: "lcDiscriminant x1 y1 x2 y2 cx cy radius < 0 \<longrightarrow>
        lineCircleCollision x1 y1 x2 y2 cx cy radius = None"
    by (simp add: r)
  have roots: "(x1, y1) \<noteq> (x2, y2) \<and> 0 \<le> lcDiscriminant x1 y1 x2 y2 cx cy radius \<longrightarrow>
        lcRoot1 x1 y1 x2 y2 cx cy radius \<le> lcRoot2 x1 y1 x2 y2 cx cy radius \<and>
        (0 \<le> lcRoot1 x1 y1 x2 y2 cx cy radius \<and> lcRoot1 x1 y1 x2 y2 cx cy radius \<le> 1 \<longrightarrow>
           (\<exists>h. lineCircleCollision x1 y1 x2 y2 cx cy radius = Some h \<and>
              (hit_x h, hit_y h) =
                segmentPoint x1 y1 x2 y2 (lcRoot1 x1 y1 x2 y2 cx cy radius))) \<and>
        (\<not> (0 \<le> lcRoot1 x1 y1 x2 y2 cx cy radius \<and> lcRoot1 x1 y1 x2 y2 cx cy radius \<le> 1) \<and>
         0 \<le> lcRoot2 x1 y1 x2 y2 cx cy radius \<and> lcRoot2 x1 y1 x2 y2 cx cy radius \<le> 1 \<longrightarrow>
           (\<exists>h. lineCircleCollision x1 y1 x2 y2 cx cy radius = Some h \<and>
              (hit_x h, hit_y h) =
                segmentPoint x1 y1 x2 y2 (lcRoot2 x1 y1 x2 y2 cx cy radius)))"
  proof (intro impI conjI)
    assume a: "(x1, y1) \<noteq> (x2, y2) \<and> 0 \<le> lcDiscriminant x1 y1 x2 y2 cx cy radius"
    then show "lcRoot1 x1 y1 x2 y2 cx cy radius \<le> lcRoot2 x1 y1 x2 y2 cx cy radius"
      using lcRoot_le by blast
    {
      assume "0 \<le> lcRoot1 x1 y1 x2 y2 cx cy radius \<and> lcRoot1 x1 y1 x2 y2 cx cy radius \<le> 1"
      with a show "\<exists>h. lineCircleCollision x1 y1 x2 y2 cx cy radius = Some h \<and>
              (hit_x h, hit_y h) =
                segmentPoint x1 y1 x2 y2 (lcRoot1 x1 y1 x2 y2 cx cy radius)"
        by (auto simp: r)
    }
    {
      assume "\<not> (0 \<le> lcRoot1 x1 y1 x2 y2 cx cy radius \<and> lcRoot1 x1 y1 x2 y2 cx cy radius \<le> 1) \<and>
         0 \<le> lcRoot2 x1 y1 x2 y2 cx cy radius \<and> lcRoot2 x1 y1 x2 y2 cx cy radius \<le> 1"
      with a show "\<exists>h. lineCircleCollision x1 y1 x2 y2 cx cy radius = Some h \<and>
              (hit_x h, hit_y h) =
                segmentPoint x1 y1 x2 y2 (lcRoot2 x1 y1 x2 y2 cx cy radius)"
        by (auto simp: r)
    }
  qed
  have outside: "\<not> (0 \<le> lcRoot1 x1 y1 x2 y2 cx cy radius \<and> lcRoot1 x1 y1 x2 y2 cx cy radius \<le> 1) \<and>
      \<not> (0 \<le> lcRoot2 x1 y1 x2 y2 cx cy radius \<and> lcRoot2 x1 y1 x2 y2 cx cy radius \<le> 1) \<longrightarrow>
        lineCircleCollision x1 y1 x2 y2 cx cy radius = None"
    by (simp add: r)
  show ?thesis
    by (intro conjI first finds misses neg roots outside)
qed

theorem lineCircleCollision_correct_witness:
  "lineCircleCollision 0 0 10 0 5 0 3 = Some \<lparr>hit_x = 2, hit_y = 0, hit_dist = 2\<rparr> \<and>
   (\<exists>t. 0 \<le> t \<and> t \<le> 1 \<and> (2, 0) = segmentPoint 0 0 10 0 t \<and> euclid (2, 0) (5, 0) = 3 \<and>
        2 = t * euclid (0, 0) (10, 0) \<and>
        (\<forall>t'. 0 \<le> t' \<and> t' \<le> 1 \<and> euclid (segmentPoint 0 0 10 0 t') (5, 0) = 3 \<longrightarrow> t \<le> t')) \<and>
   lineCircleCollision 0 0 10 0 5 10 3 = None \<and>
   lcDiscriminant 0 0 10 0 5 0 3 = 3600 \<and>
   lcRoot1 0 0 10 0 5 0 3 = 1 / 5 \<and> lcRoot2 0 0 10 0 5 0 3 = 4 / 5 \<and>
   lcDiscriminant 0 0 10 0 5 10 3 < 0"
proof -
  have r: "(0::real) \<le> 3" by simp
  have s1: "sqrt 3600 = 60" by (simp add: real_sqrt_unique)
  have s2: "sqrt 100 = 10" by (simp add: real_sqrt_unique)
  have e: "lineCircleCollision 0 0 10 0 5 0 3 = Some \<lparr>hit_x = 2, hit_y = 0, hit_dist = 2\<rparr>"
    by (simp add: lineCircleCollision_def Let_def s1 s2)
  have far: "\<forall>t::real. 0 \<le> t \<and> t \<le> 1 \<longrightarrow> euclid (segmentPoint 0 0 10 0 t) (5, 10) \<noteq> 3"
  proof (intro allI impI)
    fix t :: real
    have "sqrt 100 \<le> sqrt ((10 * t - 5)\<^sup>2 + 100)"
      by (rule real_sqrt_le_mono) simp
    then have "10 \<le> euclid (segmentPoint 0 0 10 0 t) (5, 10)"
      by (simp add: euclid_def segmentPoint_def s2 algebra_simps)
    then show "euclid (segmentPoint 0 0 10 0 t) (5, 10) \<noteq> 3" by simp
  qed
  from lineCircleCollision_correct [OF r, of 0 0 10 0 5 0] e
  have a: "\<exists>t. 0 \<le> t \<and> t \<le> 1 \<and> (2, 0) = segmentPoint 0 0 10 0 t \<and> euclid (2, 0) (5, 0) = 3 \<and>
        2 = t * euclid (0, 0) (10, 0) \<and>
        (\<forall>t'. 0 \<le> t' \<and> t' \<le> 1 \<and> euclid (segmentPoint 0 0 10 0 t') (5, 0) = 3 \<longrightarrow> t \<le> t')"
    by simp
  from lineCircleCollision_correct [OF r, of 0 0 10 0 5 10] far
  have b: "lineCircleCollision 0 0 10 0 5 10 3 = None" by blast
  have d: "lcDiscriminant 0 0 10 0 5 0 3 = 3600" "lcDiscriminant 0 0 10 0 5 10 3 < 0"
    by (simp_all add: lcDiscriminant_def Let_def)
  have t: "lcRoot1 0 0 10 0 5 0 3 = 1 / 5" "lcRoot2 0 0 10 0 5 0 3 = 4 / 5"
    by (simp_all add: lcRoot1_def lcRoot2_def Let_def d s1)
  show ?thesis using e a b d t by blast
qed

section \<open>Comparisons with a square root\<close>

lemma sqrt_lt_iff: "0 \<le> c \<Longrightarrow> sqrt x < c \<longleftrightarrow> x < c * c"
  using real_sqrt_less_iff [of x "c * c"] by simp

lemma sqrt_le_iff: "0 \<le> c \<Longrightarrow> sqrt x \<le> c \<longleftrightarrow> x \<le> c * c"
  using real_sqrt_le_iff [of x "c * c"] by simp

lemma lt_sqrt_iff: "0 \<le> c \<Longrightarrow> c < sqrt x \<longleftrightarrow> c * c < x"
  using real_sqrt_less_iff [of "c * c" x] by simp

lemma le_sqrt_iff: "0 \<le> c \<Longrightarrow> c \<le> sqrt x \<longleftrightarrow> c * c \<le> x"
  using real_sqrt_le_iff [of "c * c" x] by simp

section \<open>Pocket capture\<close>

lemma pocketOf_iff:
  "pocketOf pos ps \<noteq> None \<longleftrightarrow> (\<exists>p \<in> set ps. euclid pos p < captureRadius)"
  by (induction ps) (auto simp: euclid_def captureRadius_def)

lemma potted_iff:
  "potted b \<longleftrightarrow> (\<exists>p \<in> set pocketPositions. euclid (position b) p < captureRadius)"
  unfolding potted_def by (rule pocketOf_iff)

lemma redsLoop_filter_aux:
  "i \<le> length rs \<Longrightarrow> redsLoop i rs = filter (\<lambda>b. \<not> potted b) (take i rs) @ drop i rs"
proof (induction i arbitrary: rs)
  case 0
  then show ?case by simp
next
  case (Suc i)
  then have lt: "i < length rs" by simp
  show ?case
  proof (cases "potted (rs ! i)")
    case True
    let ?rs' = "take i rs @ drop (Suc i) rs"
    have "i \<le> length ?rs'" using lt by simp
    then have "redsLoop i ?rs' = filter (\<lambda>b. \<not> potted b) (take i ?rs') @ drop i ?rs'"
      by (rule Suc.IH)
    also have "take i ?rs' = take i rs" using lt by simp
    also have "drop i ?rs' = drop (Suc i) rs" using lt by simp
    finally show ?thesis using True lt by (simp add: take_Suc_conv_app_nth)
  next
    case False
    have "redsLoop i rs = filter (\<lambda>b. \<not> potted b) (take i rs) @ drop i rs"
      using lt by (intro Suc.IH) simp
    then show ?thesis using False lt
      by (simp add: take_Suc_conv_app_nth Cons_nth_drop_Suc)
  qed
qed

lemma redsLoop_filter: "redsLoop (length rs) rs = filter (\<lambda>b. \<not> potted b) rs"
  by (simp add: redsLoop_filter_aux)

lemma respotLoop_other: "col \<notin> set cols \<Longrightarrow> respotLoop cols cb col = cb col"
  by (induction cols arbitrary: cb) (auto split: option.splits)

lemma respotLoop_at:
  "distinct cols \<Longrightarrow> col \<in> set cols \<Longrightarrow>
   respotLoop cols cb col =
     map_option (\<lambda>b. if potted b then respot col b else b) (cb col)"
proof (induction cols arbitrary: cb)
  case Nil
  then show ?case by simp
next
  case (Cons c cols)
  show ?case
  proof (cases "col = c")
    case True
    then have "col \<notin> set cols" using Cons.prems by simp
    then show ?thesis using True
      by (auto simp: respotLoop_other respot_def Body_setPosition_def Body_setVelocity_def
          split: option.splits)
  next
    case False
    then have "col \<in> set cols" "distinct cols" using Cons.prems by auto
    then show ?thesis using False Cons.IH by (auto split: option.splits)
  qed
qed

lemma colours_all: "col \<in> set colours" "distinct colours"
  by (cases col; simp add: colours_def)+

lemma respotLoop_colours:
  "respotLoop colours cb col = map_option (\<lambda>b. if potted b then respot col b else b) (cb col)"
  by (rule respotLoop_at [OF colours_all(2) colours_all(1)])


lemma checkPocketCollisions_cueBall:
  "cueBall (checkPocketCollisions g) =
    (case cueBall g of None \<Rightarrow> None | Some cb \<Rightarrow> if potted cb then None else Some cb)"
  by (simp add: checkPocketCollisions_def Let_def split: option.splits)

lemma checkPocketCollisions_cueBallPlaced:
  "cueBallPlaced (checkPocketCollisions g) =
    (case cueBall g of None \<Rightarrow> cueBallPlaced g
     | Some cb \<Rightarrow> if potted cb then False else cueBallPlaced g)"
  by (simp add: checkPocketCollisions_def Let_def split: option.splits)

lemma checkPocketCollisions_redBalls:
  "redBalls (checkPocketCollisions g) = filter (\<lambda>b. \<not> potted b) (redBalls g)"
  by (simp add: checkPocketCollisions_def Let_def redsLoop_filter split: option.splits)

lemma checkPocketCollisions_colouredBalls:
  "colouredBalls (checkPocketCollisions g) col =
    map_option (\<lambda>b. if potted b then respot col b else b) (colouredBalls g col)"
  by (simp add: checkPocketCollisions_def Let_def respotLoop_colours split: option.splits)

lemma captureRadius_pos: "0 < captureRadius"
  by (simp add: captureRadius_def table_defs)

lemma potted_at_pocket: "position b \<in> set pocketPositions \<Longrightarrow> potted b"
  unfolding potted_iff using captureRadius_pos by (auto simp: euclid_def intro!: bexI [of _ "position b"])

lemma liveCount_checkPocketCollisions:
  "liveCount g = liveCount (checkPocketCollisions g)
      + (case cueBall g of None \<Rightarrow> 0 | Some cb \<Rightarrow> if potted cb then 1 else 0)
      + length (filter potted (redBalls g))"
proof -
  have col: "filter (\<lambda>col. colouredBalls (checkPocketCollisions g) col \<noteq> None) colours =
      filter (\<lambda>col. colouredBalls g col \<noteq> None) colours"
    by (simp add: checkPocketCollisions_colouredBalls)
  have red: "length (redBalls g) =
      length (filter (\<lambda>b. \<not> potted b) (redBalls g)) + length (filter potted (redBalls g))"
    using sum_length_filter_compl [of potted "redBalls g"] by simp
  show ?thesis
    unfolding liveCount_def col checkPocketCollisions_redBalls checkPocketCollisions_cueBall
    using red by (simp split: option.splits)
qed

lemma pocketOf_Cons_sq:
  "pocketOf pos (pocket # pockets) =
    (if (fst pos - fst pocket)\<^sup>2 + (snd pos - snd pocket)\<^sup>2 < captureRadius * captureRadius
     then Some pocket else pocketOf pos pockets)"
  using captureRadius_pos sqrt_lt_iff [of captureRadius]
  by (simp add: captureRadius_def)

lemma captureRadius_value: "captureRadius = 45 / 4"
  by (simp add: captureRadius_def table_defs)

lemma pocketPositions_value:
  "pocketPositions =
    [(1705 / 16, 2105 / 16), (15895 / 16, 2105 / 16), (1705 / 16, 9095 / 16),
     (15895 / 16, 9095 / 16), (550, 125), (550, 575)]"
  by (simp add: pocketPositions_def Let_def table_defs)

text \<open>
  Claim C4, as the code has it. \<open>potted b\<close> is the test of the capture pass: the
  centre of \<open>b\<close> is closer than \<open>captureRadius = 0.6 * pocketSize\<close> to some pocket
  centre; it reads no velocity, and it holds for a ball whose centre is a pocket centre.
  After one pass of \<open>checkPocketCollisions\<close>: the cue ball is \<open>null\<close> and
  \<open>cueBallPlaced\<close> is \<open>false\<close> if it was potted (both are unchanged otherwise); the
  reds are the reds that were not potted; every coloured ball that was potted
  is on its spot with velocity zero and is still on the table; and the number of balls on
  the table has gone down by one for the potted cue ball and by one for each potted red.
\<close>

theorem checkPocketCollisions_capture:
  "(\<forall>b :: ball. potted b \<longleftrightarrow> (\<exists>p \<in> set pocketPositions. euclid (position b) p < captureRadius)) \<and>
   (\<forall>b :: ball. position b \<in> set pocketPositions \<longrightarrow> potted b) \<and>
   cueBall (checkPocketCollisions g) =
     (case cueBall g of None \<Rightarrow> None | Some cb \<Rightarrow> if potted cb then None else Some cb) \<and>
   cueBallPlaced (checkPocketCollisions g) =
     (case cueBall g of None \<Rightarrow> cueBallPlaced g
      | Some cb \<Rightarrow> if potted cb then False else cueBallPlaced g) \<and>
   redBalls (checkPocketCollisions g) = filter (\<lambda>b. \<not> potted b) (redBalls g) \<and>
   (\<forall>col. colouredBalls (checkPocketCollisions g) col =
      map_option (\<lambda>b. if potted b then respot col b else b) (colouredBalls g col)) \<and>
   liveCount g = liveCount (checkPocketCollisions g)
      + (case cueBall g of None \<Rightarrow> 0 | Some cb \<Rightarrow> if potted cb then 1 else 0)
      + length (filter potted (redBalls g))"
proof (intro conjI allI impI)
  fix b :: ball show "potted b \<longleftrightarrow> (\<exists>p \<in> set pocketPositions. euclid (position b) p < captureRadius)"
    by (rule potted_iff)
next
  fix b :: ball assume "position b \<in> set pocketPositions" then show "potted b" by (rule potted_at_pocket)
next
  show "cueBall (checkPocketCollisions g) =
     (case cueBall g of None \<Rightarrow> None | Some cb \<Rightarrow> if potted cb then None else Some cb)"
    by (rule checkPocketCollisions_cueBall)
next
  show "cueBallPlaced (checkPocketCollisions g) =
     (case cueBall g of None \<Rightarrow> cueBallPlaced g
      | Some cb \<Rightarrow> if potted cb then False else cueBallPlaced g)"
    by (rule checkPocketCollisions_cueBallPlaced)
next
  show "redBalls (checkPocketCollisions g) = filter (\<lambda>b. \<not> potted b) (redBalls g)"
    by (rule checkPocketCollisions_redBalls)
next
  fix col show "colouredBalls (checkPocketCollisions g) col =
      map_option (\<lambda>b. if potted b then respot col b else b) (colouredBalls g col)"
    by (rule checkPocketCollisions_colouredBalls)
next
  show "liveCount g = liveCount (checkPocketCollisions g)
      + (case cueBall g of None \<Rightarrow> 0 | Some cb \<Rightarrow> if potted cb then 1 else 0)
      + length (filter potted (redBalls g))"
    by (rule liveCount_checkPocketCollisions)
qed


theorem checkPocketCollisions_capture_witness:
  "potted (Bodies_circle 1 550 125 ballRadius ''cueBall'') \<and>
   (let g = initialGlobals
        \<lparr>cueBall := Some (Bodies_circle 1 550 125 ballRadius ''cueBall''),
         cueBallPlaced := True,
         redBalls := [Bodies_circle 2 550 575 ballRadius ''red'',
                      Bodies_circle 3 400 300 ballRadius ''red''],
         colouredBalls := (\<lambda>col. None)(Black := Some (Bodies_circle 4 550 575 ballRadius ''black''))\<rparr>
    in cueBall (checkPocketCollisions g) = None \<and>
       cueBallPlaced g \<and> \<not> cueBallPlaced (checkPocketCollisions g) \<and>
       redBalls (checkPocketCollisions g) = [Bodies_circle 3 400 300 ballRadius ''red''] \<and>
       colouredBalls (checkPocketCollisions g) Black =
         Some (respot Black (Bodies_circle 4 550 575 ballRadius ''black'')) \<and>
       liveCount g = liveCount (checkPocketCollisions g) + 2)"
proof -
  define g where "g = initialGlobals
        \<lparr>cueBall := Some (Bodies_circle 1 550 125 ballRadius ''cueBall''),
         cueBallPlaced := True,
         redBalls := [Bodies_circle 2 550 575 ballRadius ''red'',
                      Bodies_circle 3 400 300 ballRadius ''red''],
         colouredBalls := (\<lambda>col. None)(Black := Some (Bodies_circle 4 550 575 ballRadius ''black''))\<rparr>"
  note inst = checkPocketCollisions_capture [of g]
  have at: "\<And>b :: ball. position b \<in> set pocketPositions \<Longrightarrow> potted b"
    using inst by blast
  have pc: "potted (Bodies_circle 1 550 125 ballRadius ''cueBall'')"
    by (rule at) (simp add: Bodies_circle_def pocketPositions_value)
  have pr: "potted (Bodies_circle 2 550 575 ballRadius ''red'')"
    by (rule at) (simp add: Bodies_circle_def pocketPositions_value)
  have pk: "potted (Bodies_circle 4 550 575 ballRadius ''black'')"
    by (rule at) (simp add: Bodies_circle_def pocketPositions_value)
  have "pocketOf (400, 300) pocketPositions = None"
    unfolding pocketPositions_value
    by (simp add: pocketOf_Cons_sq captureRadius_value power2_eq_square del: pocketOf.simps(2))
  then have nr: "\<not> potted (Bodies_circle 3 400 300 ballRadius ''red'')"
    by (simp add: potted_def Bodies_circle_def)
  have c1: "cueBall (checkPocketCollisions g) = None"
    using inst pc by (simp add: g_def)
  have c5: "cueBallPlaced g \<and> \<not> cueBallPlaced (checkPocketCollisions g)"
    using inst pc by (simp add: g_def)
  have c2: "redBalls (checkPocketCollisions g) = [Bodies_circle 3 400 300 ballRadius ''red'']"
    using inst pr nr by (simp add: g_def)
  have c3: "colouredBalls (checkPocketCollisions g) Black =
         Some (respot Black (Bodies_circle 4 550 575 ballRadius ''black''))"
    using inst pk by (simp add: g_def)
  have c4: "liveCount g = liveCount (checkPocketCollisions g) + 2"
    using inst pc pr nr by (simp add: g_def)
  show ?thesis using pc c1 c5 c2 c3 c4 unfolding g_def Let_def by simp
qed


text \<open>
  The claim reads "within the capture radius" as "at most" (the specification says
  \<open>\<le>\<close>); the test of the code is strict. A cue ball in the mouth of the top middle
  pocket, exactly \<open>captureRadius\<close> from its centre, stays on the table.
\<close>

theorem capture_at_radius_counterexample:
  "(550, 125) \<in> set pocketPositions \<and>
   euclid (550, 136.25) (550, 125) \<le> captureRadius \<and>
   cueBall (checkPocketCollisions
     (setupGame\<lparr>cueBall := Some (Bodies_circle 22 550 136.25 ballRadius ''cueBall''),
                cueBallPlaced := True\<rparr>))
     = Some (Bodies_circle 22 550 136.25 ballRadius ''cueBall'')"
proof -
  have p: "(550, 125) \<in> set pocketPositions"
    by (simp add: pocketPositions_value)
  have "sqrt ((550 - 550)\<^sup>2 + (136.25 - 125)\<^sup>2) = (45 / 4 :: real)"
    by (rule real_sqrt_unique) (simp_all add: power2_eq_square)
  then have d: "euclid (550, 136.25) (550, 125) \<le> captureRadius"
    unfolding euclid_def captureRadius_value by simp
  have "pocketOf (550, 136.25) pocketPositions = None"
    unfolding pocketPositions_value
    by (simp add: pocketOf_Cons_sq captureRadius_value power2_eq_square del: pocketOf.simps(2))
  then have n: "\<not> potted (Bodies_circle 22 550 136.25 ballRadius ''cueBall'')"
    by (simp add: potted_def Bodies_circle_def)
  show ?thesis using p d n by (simp add: checkPocketCollisions_cueBall)
qed

section \<open>Cue ball placement\<close>

lemma allColoured_iff: "allColoured g \<longleftrightarrow> (\<forall>col. colouredBalls g col \<noteq> None)"
  unfolding allColoured_def list_all_iff using colours_all(1) by blast

lemma isInDZone_iff:
  "isInDZone px py \<longleftrightarrow>
     baulkY \<le> py \<and> py \<le> playBottom \<and> euclid (px, py) dCentre \<le> dRadius"
proof -
  have bounds: "euclid (px, py) dCentre \<le> dRadius \<Longrightarrow>
      tableX + cushionThickness \<le> px \<and> px \<le> tableX + tableLength - cushionThickness"
  proof -
    assume a: "euclid (px, py) dCentre \<le> dRadius"
    have "\<bar>px - (tableX + tableLength / 2)\<bar> \<le> euclid (px, py) dCentre"
      unfolding euclid_def dCentre_def by (simp add: real_le_rsqrt abs_le_square_iff [symmetric] power2_eq_square)
    with a have "\<bar>px - (tableX + tableLength / 2)\<bar> \<le> dRadius" by linarith
    then show ?thesis by (simp add: table_defs) linarith
  qed
  show ?thesis
    using bounds
    by (auto simp: isInDZone_def Let_def playBottom_def baulkY_def dCentre_def euclid_def)
qed

lemma isInDZone_not_spin: "isInDZone px py \<Longrightarrow> \<not> isInsideSpinControl px py"
proof
  assume d: "isInDZone px py" and s: "isInsideSpinControl px py"
  from d have "py \<le> 550" by (simp add: isInDZone_iff playBottom_def table_defs)
  moreover
  have "\<bar>py - uiY\<bar> \<le> sqrt ((px - uiX)\<^sup>2 + (py - uiY)\<^sup>2)"
    by (simp add: real_le_rsqrt)
  with s have "\<bar>py - uiY\<bar> \<le> uiRadius" unfolding isInsideSpinControl_def by linarith
  then have "605 \<le> py" by (simp add: uiY_def uiRadius_def table_defs) 
  ultimately show False by simp
qed

lemma overlapsReds_iff:
  "overlapsReds px py bs \<longleftrightarrow> (\<exists>b \<in> set bs. euclid (px, py) (position b) < ballDiameter)"
  by (induction bs) (auto simp: euclid_def)

lemma overlapsColoured_present:
  "\<forall>col \<in> set cols. cb col \<noteq> None \<Longrightarrow>
   overlapsColoured px py cb cols =
     Inr (\<exists>b \<in> set (map fst (colouredPresent cb cols)). euclid (px, py) (position b) < ballDiameter)"
  by (induction cols) (auto simp: euclid_def)

lemma isOverlappingBall_present:
  assumes "allColoured g"
  shows "isOverlappingBall px py g =
    Inr (\<exists>b \<in> set (otherBalls g). euclid (px, py) (position b) < ballDiameter)"
proof -
  have "\<forall>col \<in> set colours. colouredBalls g col \<noteq> None"
    using assms by (simp add: allColoured_iff)
  from overlapsColoured_present [OF this, of px py]
  show ?thesis
    by (auto simp: isOverlappingBall_def otherBalls_def getAllBallsExceptCue_def
        overlapsReds_iff image_Un split: bool.splits)
qed


subsection \<open>The state after \<open>setup\<close>, evaluated\<close>

lemma redTrianglePositions_value:
  "redTrianglePositions =
    [(550, 925 / 4),
     (2175 / 4, 220), (2225 / 4, 220),
     (1075 / 2, 835 / 4), (550, 835 / 4), (1125 / 2, 835 / 4),
     (2125 / 4, 395 / 2), (2175 / 4, 395 / 2), (2225 / 4, 395 / 2), (2275 / 4, 395 / 2),
     (525, 745 / 4), (1075 / 2, 745 / 4), (550, 745 / 4), (1125 / 2, 745 / 4), (575, 745 / 4)]"
  by (simp add: redTrianglePositions_def spotPositions_def Let_def table_defs upt_rec)

lemma setupGame_reds:
  "map position (redBalls setupGame) = redTrianglePositions"
  unfolding redTrianglePositions_value
  by (simp add: setupGame_def createBalls_def createRedBallsByMode_def clearRedBalls_def
      createColouredBalls_def colours_def initialGlobals_def Let_def Bodies_circle_def
      redTrianglePositions_value)

lemma setupGame_coloured:
  "map (\<lambda>col. map_option position (colouredBalls setupGame col)) colours =
     [Some (446, 470), Some (654, 470), Some (550, 470), Some (550, 350),
      Some (550, 250), Some (550, 182)]"
  by (simp add: setupGame_def createBalls_def createRedBallsByMode_def clearRedBalls_def
      createColouredBalls_def colours_def initialGlobals_def Let_def Bodies_circle_def
      redTrianglePositions_value spotPositions_def table_defs)


lemmas setup_eval =
  setupGame_def createBalls_def createRedBallsByMode_def clearRedBalls_def
  createColouredBalls_def colours_def initialGlobals_def Let_def

lemma setupGame_flags:
  "cueBall setupGame = None" "\<not> cueBallPlaced setupGame" "canShoot setupGame"
  "\<not> isShooting setupGame" "nextId setupGame = 22" "allColoured setupGame"
  by (simp_all add: setup_eval redTrianglePositions_value allColoured_def)

lemma setupGame_otherBalls:
  "map position (otherBalls setupGame) =
     redTrianglePositions @
     [(446, 470), (654, 470), (550, 470), (550, 350), (550, 250), (550, 182)]"
  unfolding redTrianglePositions_value
  by (simp add: otherBalls_def getAllBallsExceptCue_def setup_eval Bodies_circle_def
      redTrianglePositions_value spotPositions_def table_defs)

lemma euclid_lt_iff:
  "0 \<le> c \<Longrightarrow> euclid p q < c \<longleftrightarrow> (fst p - fst q)\<^sup>2 + (snd p - snd q)\<^sup>2 < c * c"
  unfolding euclid_def by (rule sqrt_lt_iff)

lemma euclid_le_iff:
  "0 \<le> c \<Longrightarrow> euclid p q \<le> c \<longleftrightarrow> (fst p - fst q)\<^sup>2 + (snd p - snd q)\<^sup>2 \<le> c * c"
  unfolding euclid_def by (rule sqrt_le_iff)

lemma lt_euclid_iff:
  "0 \<le> c \<Longrightarrow> c < euclid p q \<longleftrightarrow> c * c < (fst p - fst q)\<^sup>2 + (snd p - snd q)\<^sup>2"
  unfolding euclid_def by (rule lt_sqrt_iff)

lemma le_euclid_iff:
  "0 \<le> c \<Longrightarrow> c \<le> euclid p q \<longleftrightarrow> c * c \<le> (fst p - fst q)\<^sup>2 + (snd p - snd q)\<^sup>2"
  unfolding euclid_def by (rule le_sqrt_iff)

lemma ballDiameter_value: "ballDiameter = 25 / 2"
  by (simp add: table_defs)

lemma dzone_values: "baulkY = 470" "playBottom = 550" "dCentre = (550, 470)" "dRadius = 104"
  by (simp_all add: baulkY_def playBottom_def dCentre_def table_defs)

lemma ballDiameter_euclid:
  "ballDiameter \<le> euclid p q \<longleftrightarrow> 625 / 4 \<le> (fst p - fst q)\<^sup>2 + (snd p - snd q)\<^sup>2"
  "ballDiameter < euclid p q \<longleftrightarrow> 625 / 4 < (fst p - fst q)\<^sup>2 + (snd p - snd q)\<^sup>2"
  "euclid p q < ballDiameter \<longleftrightarrow> (fst p - fst q)\<^sup>2 + (snd p - snd q)\<^sup>2 < 625 / 4"
  "euclid p q \<le> ballDiameter \<longleftrightarrow> (fst p - fst q)\<^sup>2 + (snd p - snd q)\<^sup>2 \<le> 625 / 4"
  using le_euclid_iff [of ballDiameter p q] lt_euclid_iff [of ballDiameter p q]
    euclid_lt_iff [of ballDiameter p q] euclid_le_iff [of ballDiameter p q]
  by (simp_all add: ballDiameter_value)

lemma dRadius_euclid:
  "euclid p q \<le> dRadius \<longleftrightarrow> (fst p - fst q)\<^sup>2 + (snd p - snd q)\<^sup>2 \<le> 10816"
  "euclid p q < dRadius \<longleftrightarrow> (fst p - fst q)\<^sup>2 + (snd p - snd q)\<^sup>2 < 10816"
  using euclid_le_iff [of dRadius p q] euclid_lt_iff [of dRadius p q]
  by (simp_all add: dzone_values)

lemma mousePressed_placement:
  assumes np: "\<not> cueBallPlaced g" and ac: "allColoured g"
  shows "mousePressed px py g =
    (if isInsideSpinControl px py then
       Inr (updateSpinFromMouse px py (g\<lparr>spinControl := (spinControl g)\<lparr>isDragging := True\<rparr>\<rparr>))
     else if isInDZone px py \<and>
             \<not> (\<exists>b \<in> set (otherBalls g). euclid (px, py) (position b) < ballDiameter)
     then Inr (createCueBall px py g)
     else Inr g)"
  using np by (simp add: mousePressed_def isOverlappingBall_present [OF ac])

text \<open>
  Claim C5, as the code has it. For a press while no cue ball is placed (and no entry of
  \<open>colouredBalls\<close> is \<open>null\<close>):
  \<^item> at a point that \<open>isInDZone\<close> accepts and that is at least one ball diameter from
    the centre of every other ball, the press creates the cue ball at that point, at
    rest, and changes no other ball;
  \<^item> at a point that \<open>isInDZone\<close> rejects, or that is closer than one ball diameter
    to the centre of some ball, the press creates no cue ball and changes no ball;
  \<^item> \<open>isInDZone\<close> accepts exactly the points of the closed half disc of radius
    \<open>dRadius\<close> below the baulk line that are not below the bottom edge of the playing
    area; in particular every point strictly inside the half disc and not below that
    edge.
\<close>

theorem placeCueBall_valid:
  assumes np: "\<not> cueBallPlaced g" and ac: "allColoured g"
  shows
    "(isInDZone px py \<and> (\<forall>b \<in> set (otherBalls g). ballDiameter \<le> euclid (px, py) (position b)) \<longrightarrow>
        (\<exists>g' cb. mousePressed px py g = Inr g' \<and> cueBall g' = Some cb \<and>
           position cb = (px, py) \<and> velocity cb = (0, 0) \<and> label cb = ''cueBall'' \<and>
           cueBallPlaced g' \<and> redBalls g' = redBalls g \<and> colouredBalls g' = colouredBalls g)) \<and>
     (\<not> isInDZone px py \<or> (\<exists>b \<in> set (otherBalls g). euclid (px, py) (position b) < ballDiameter) \<longrightarrow>
        (\<exists>g'. mousePressed px py g = Inr g' \<and> cueBall g' = cueBall g \<and>
           cueBallPlaced g' = cueBallPlaced g \<and> redBalls g' = redBalls g \<and>
           colouredBalls g' = colouredBalls g)) \<and>
     (isInDZone px py \<longleftrightarrow>
        baulkY \<le> py \<and> py \<le> playBottom \<and> euclid (px, py) dCentre \<le> dRadius) \<and>
     (strictlyInD px py \<and> py \<le> playBottom \<longrightarrow> isInDZone px py)"
proof (intro conjI impI)
  assume a: "isInDZone px py \<and> (\<forall>b \<in> set (otherBalls g). ballDiameter \<le> euclid (px, py) (position b))"
  then have ns: "\<not> isInsideSpinControl px py" using isInDZone_not_spin by blast
  from a have no: "\<not> (\<exists>b \<in> set (otherBalls g). euclid (px, py) (position b) < ballDiameter)"
    by (auto simp: not_less)
  have "mousePressed px py g = Inr (createCueBall px py g)"
    using a ns no by (simp add: mousePressed_placement [OF np ac])
  then show "\<exists>g' cb. mousePressed px py g = Inr g' \<and> cueBall g' = Some cb \<and>
           position cb = (px, py) \<and> velocity cb = (0, 0) \<and> label cb = ''cueBall'' \<and>
           cueBallPlaced g' \<and> redBalls g' = redBalls g \<and> colouredBalls g' = colouredBalls g"
    by (simp add: createCueBall_def Bodies_circle_def)
next
  assume b: "\<not> isInDZone px py \<or> (\<exists>b \<in> set (otherBalls g). euclid (px, py) (position b) < ballDiameter)"
  show "\<exists>g'. mousePressed px py g = Inr g' \<and> cueBall g' = cueBall g \<and>
           cueBallPlaced g' = cueBallPlaced g \<and> redBalls g' = redBalls g \<and>
           colouredBalls g' = colouredBalls g"
  proof (cases "isInsideSpinControl px py")
    case True
    then show ?thesis
      by (simp add: mousePressed_placement [OF np ac] updateSpinFromMouse_def Let_def)
  next
    case False
    then have "mousePressed px py g = Inr g"
      using b by (auto simp: mousePressed_placement [OF np ac])
    then show ?thesis by simp
  qed
next
  show "isInDZone px py \<longleftrightarrow>
        baulkY \<le> py \<and> py \<le> playBottom \<and> euclid (px, py) dCentre \<le> dRadius"
    by (rule isInDZone_iff)
next
  assume "strictlyInD px py \<and> py \<le> playBottom"
  then show "isInDZone px py" by (simp add: isInDZone_iff strictlyInD_def)
qed


theorem placeCueBall_valid_witness:
  "\<not> cueBallPlaced setupGame \<and> allColoured setupGame \<and>
   isInDZone 550 500 \<and>
   list_all (\<lambda>b. ballDiameter \<le> euclid (550, 500) (position b)) (otherBalls setupGame) \<and>
   (\<exists>g' cb. mousePressed 550 500 setupGame = Inr g' \<and> cueBall g' = Some cb \<and>
      position cb = (550, 500) \<and> velocity cb = (0, 0) \<and> label cb = ''cueBall'' \<and>
      cueBallPlaced g' \<and> redBalls g' = redBalls setupGame \<and>
      colouredBalls g' = colouredBalls setupGame) \<and>
   \<not> isInDZone 300 300 \<and>
   (\<exists>g'. mousePressed 300 300 setupGame = Inr g' \<and> cueBall g' = cueBall setupGame \<and>
      cueBallPlaced g' = cueBallPlaced setupGame \<and> redBalls g' = redBalls setupGame \<and>
      colouredBalls g' = colouredBalls setupGame)"
proof -
  note np = setupGame_flags(2) and ac = setupGame_flags(6)
  have d1: "isInDZone 550 500"
    unfolding isInDZone_iff by (simp add: dRadius_euclid) (simp add: dzone_values power2_eq_square)
  have d2: "\<not> isInDZone 300 300"
    unfolding isInDZone_iff by (simp add: dzone_values)
  have "list_all (\<lambda>p. ballDiameter \<le> euclid (550, 500) p) (map position (otherBalls setupGame))"
    unfolding setupGame_otherBalls redTrianglePositions_value
    by (simp add: ballDiameter_euclid power2_eq_square)
  then have far: "list_all (\<lambda>b. ballDiameter \<le> euclid (550, 500) (position b)) (otherBalls setupGame)"
    by (simp add: list.pred_map comp_def)
  then have far': "\<forall>b \<in> set (otherBalls setupGame). ballDiameter \<le> euclid (550, 500) (position b)"
    by (simp add: list_all_iff)
  from placeCueBall_valid [OF np ac, of 550 500] d1 far'
  have a: "\<exists>g' cb. mousePressed 550 500 setupGame = Inr g' \<and> cueBall g' = Some cb \<and>
      position cb = (550, 500) \<and> velocity cb = (0, 0) \<and> label cb = ''cueBall'' \<and>
      cueBallPlaced g' \<and> redBalls g' = redBalls setupGame \<and>
      colouredBalls g' = colouredBalls setupGame"
    by blast
  from placeCueBall_valid [OF np ac, of 300 300] d2
  have b: "\<exists>g'. mousePressed 300 300 setupGame = Inr g' \<and> cueBall g' = cueBall setupGame \<and>
      cueBallPlaced g' = cueBallPlaced setupGame \<and> redBalls g' = redBalls setupGame \<and>
      colouredBalls g' = colouredBalls setupGame"
    by blast
  show ?thesis using np ac d1 d2 far a b by blast
qed


text \<open>
  The claim as stated fails in two places. The half disc has radius 104 and the bottom
  edge of the playing area is 80 below the baulk line: the point \<open>(550, 560)\<close> is
  strictly inside the half disc and far from every ball of the opening rack, and the
  press there places nothing (\<open>isInDZone\<close> returns \<open>false\<close> for
  \<open>y > innerBottom\<close>). And the overlap test is strict: at \<open>(550, 482.5)\<close>, exactly
  one ball diameter from the centre of the brown ball, the press places the cue ball.
\<close>

theorem placeCueBall_counterexample:
  "\<not> cueBallPlaced setupGame \<and> cueBall setupGame = None \<and>
   strictlyInD 550 560 \<and>
   list_all (\<lambda>b. ballDiameter < euclid (550, 560) (position b)) (otherBalls setupGame) \<and>
   mousePressed 550 560 setupGame = Inr setupGame \<and>
   isInDZone 550 482.5 \<and>
   map_option position (colouredBalls setupGame Brown) = Some (550, 470) \<and>
   euclid (550, 482.5) (550, 470) \<le> ballDiameter \<and>
   mousePressed 550 482.5 setupGame = Inr (createCueBall 550 482.5 setupGame) \<and>
   map_option position (cueBall (createCueBall 550 482.5 setupGame)) = Some (550, 482.5)"
proof -
  note np = setupGame_flags(2) and ac = setupGame_flags(6)
  have s: "strictlyInD 550 560"
    unfolding strictlyInD_def by (simp add: dRadius_euclid) (simp add: dzone_values power2_eq_square)
  have nd: "\<not> isInDZone 550 560"
    unfolding isInDZone_iff by (simp add: dzone_values)
  have ns: "\<not> isInsideSpinControl 550 560" "\<not> isInsideSpinControl 550 482.5"
    by (simp_all add: isInsideSpinControl_def uiX_def uiY_def uiRadius_def table_defs
        sqrt_le_iff power2_eq_square)
  have "list_all (\<lambda>p. ballDiameter < euclid (550, 560) p) (map position (otherBalls setupGame))"
    unfolding setupGame_otherBalls redTrianglePositions_value
    by (simp add: ballDiameter_euclid power2_eq_square)
  then have far: "list_all (\<lambda>b. ballDiameter < euclid (550, 560) (position b)) (otherBalls setupGame)"
    by (simp add: list.pred_map comp_def)
  have m1: "mousePressed 550 560 setupGame = Inr setupGame"
    using nd ns by (simp add: mousePressed_placement [OF np ac])
  have d2: "isInDZone 550 482.5"
    unfolding isInDZone_iff by (simp add: dRadius_euclid) (simp add: dzone_values power2_eq_square)
  have br: "map_option position (colouredBalls setupGame Brown) = Some (550, 470)"
    using setupGame_coloured by (simp add: colours_def)
  have eq: "euclid (550, 482.5) (550, 470) \<le> ballDiameter"
    by (simp add: ballDiameter_euclid power2_eq_square)
  have "list_all (\<lambda>p. \<not> euclid (550, 482.5) p < ballDiameter) (map position (otherBalls setupGame))"
    unfolding setupGame_otherBalls redTrianglePositions_value
    by (simp add: ballDiameter_euclid power2_eq_square)
  then have "\<not> (\<exists>b \<in> set (otherBalls setupGame). euclid (550, 482.5) (position b) < ballDiameter)"
    by (simp add: list.pred_map comp_def list_all_iff)
  then have m2: "mousePressed 550 482.5 setupGame = Inr (createCueBall 550 482.5 setupGame)"
    using d2 ns by (simp add: mousePressed_placement [OF np ac])
  have c: "map_option position (cueBall (createCueBall 550 482.5 setupGame)) = Some (550, 482.5)"
    by (simp add: createCueBall_def Bodies_circle_def)
  show ?thesis using np setupGame_flags(1) s far m1 d2 br eq m2 c by blast
qed

section \<open>The predictor writes the forecast only\<close>

lemma forecastOnly_iff: "forecastOnly g g' \<longleftrightarrow> (\<exists>tp. g' = g\<lparr>trajectoryPreview := tp\<rparr>)"
proof
  assume "forecastOnly g g'"
  then have "g'\<lparr>trajectoryPreview := trajectoryPreview g\<rparr> = g" by (simp add: forecastOnly_def)
  then have "g\<lparr>trajectoryPreview := trajectoryPreview g'\<rparr> = g'"
    by (cases g, cases g') simp
  then show "\<exists>tp. g' = g\<lparr>trajectoryPreview := tp\<rparr>" by metis
next
  assume "\<exists>tp. g' = g\<lparr>trajectoryPreview := tp\<rparr>"
  then show "forecastOnly g g'" by (auto simp: forecastOnly_def)
qed

lemma forecastOnly_refl: "forecastOnly g g"
  by (simp add: forecastOnly_def)

lemma forecastOnly_upd: "forecastOnly g (g\<lparr>trajectoryPreview := tp\<rparr>)"
  by (simp add: forecastOnly_def)

lemma forecastOnly_trans: "forecastOnly g g1 \<Longrightarrow> forecastOnly g1 g2 \<Longrightarrow> forecastOnly g g2"
  unfolding forecastOnly_iff by auto

lemma calculateDeflectionPaths_frame: "forecastOnly g (calculateDeflectionPaths h g)"
  by (simp add: calculateDeflectionPaths_def Let_def forecastOnly_def)

lemma traceStep_frame: "traceStep m g = (r, g') \<Longrightarrow> forecastOnly g g'"
  unfolding traceStep_def Let_def
  by (auto simp: forecastOnly_def calculateDeflectionPaths_def Let_def split: option.splits)

lemma traceLoop_stop:
  "\<not> (bounces m \<le> maxBounces \<and> totalDist m < maxDistance) \<Longrightarrow> traceLoop m g = g"
  by (subst traceLoop.simps) auto

lemma traceLoop_break:
  "bounces m \<le> maxBounces \<and> totalDist m < maxDistance \<Longrightarrow> traceStep m g = (None, g') \<Longrightarrow>
   traceLoop m g = g'"
  by (subst traceLoop.simps) simp

lemma traceLoop_continue:
  "bounces m \<le> maxBounces \<and> totalDist m < maxDistance \<Longrightarrow> traceStep m g = (Some m', g') \<Longrightarrow>
   traceLoop m g = traceLoop m' g'"
  by (subst traceLoop.simps) simp

lemma traceLoop_frame: "forecastOnly g (traceLoop m g)"
proof (induction m g rule: traceLoop.induct)
  case (1 m g)
  show ?case
  proof (cases "bounces m \<le> maxBounces \<and> totalDist m < maxDistance")
    case False
    then show ?thesis by (simp add: traceLoop_stop forecastOnly_refl)
  next
    case True
    obtain r g' where s: "traceStep m g = (r, g')" by (cases "traceStep m g")
    show ?thesis
    proof (cases r)
      case None
      with s True show ?thesis
        by (simp add: traceLoop_break traceStep_frame)
    next
      case (Some m')
      with s True "1.IH" have "forecastOnly g' (traceLoop m' g')" by simp
      with traceStep_frame [OF s] have "forecastOnly g (traceLoop m' g')"
        by (rule forecastOnly_trans)
      with s True Some show ?thesis by (simp add: traceLoop_continue)
    qed
  qed
qed

lemma calculateTrajectoryPreview_frame: "forecastOnly g (calculateTrajectoryPreview g)"
proof -
  have c: "forecastOnly g (clearPreview g)"
    by (simp add: clearPreview_def forecastOnly_def)
  show ?thesis
    unfolding calculateTrajectoryPreview_def Let_def
    using c forecastOnly_trans [OF c traceLoop_frame]
    by (simp split: option.splits)
qed


text \<open>
  Claim C6. \<open>calculateTrajectoryPreview\<close> returns the state it was given with a new
  forecast: the cue ball, the reds and the coloured balls (every field of every body) and
  every other global are unchanged. The same holds for each pass of the marching loop,
  for the loop, and for \<open>calculateDeflectionPaths\<close>; \<open>checkTrajectoryBallCollision\<close>,
  \<open>getAllBallsExceptCue\<close> and \<open>lineCircleCollision\<close> write nothing at all (they
  compute a value from the state).
\<close>

theorem calculateTrajectoryPreview_reads_only:
  "forecastOnly g (calculateTrajectoryPreview g) \<and>
   cueBall (calculateTrajectoryPreview g) = cueBall g \<and>
   redBalls (calculateTrajectoryPreview g) = redBalls g \<and>
   colouredBalls (calculateTrajectoryPreview g) = colouredBalls g \<and>
   forecastOnly g (snd (traceStep m g)) \<and>
   forecastOnly g (traceLoop m g) \<and>
   forecastOnly g (calculateDeflectionPaths h g)"
proof -
  obtain tp where "calculateTrajectoryPreview g = g\<lparr>trajectoryPreview := tp\<rparr>"
    using calculateTrajectoryPreview_frame [of g] unfolding forecastOnly_iff by blast
  then have "cueBall (calculateTrajectoryPreview g) = cueBall g"
    "redBalls (calculateTrajectoryPreview g) = redBalls g"
    "colouredBalls (calculateTrajectoryPreview g) = colouredBalls g"
    by simp_all
  moreover have "forecastOnly g (snd (traceStep m g))"
    by (rule traceStep_frame [of m g "fst (traceStep m g)"]) simp
  ultimately show ?thesis
    using calculateTrajectoryPreview_frame traceLoop_frame calculateDeflectionPaths_frame
    by blast
qed

theorem calculateTrajectoryPreview_reads_only_witness:
  "forecastOnly setupGame (calculateTrajectoryPreview setupGame) \<and>
   cueBall (calculateTrajectoryPreview setupGame) = None \<and>
   map position (redBalls (calculateTrajectoryPreview setupGame)) = redTrianglePositions"
  using calculateTrajectoryPreview_reads_only [of setupGame] setupGame_flags(1) setupGame_reds
  by simp

section \<open>The release gesture and the shot\<close>

lemma shootCueBall_Some:
  "cueBall g = Some cb \<Longrightarrow>
   shootCueBall g = Inr (g\<lparr>cueBall := Some (struck g cb), isShooting := True, canShoot := False\<rparr>)"
  by (simp add: shootCueBall_def struck_def shotForce_def Let_def Body_applyForce_def)

lemma shotForce_startRecording: "shotForce (startRecording g) = shotForce g"
  by (simp add: shotForce_def startRecording_def)

lemma struck_startRecording: "struck (startRecording g) cb = struck g cb"
  by (simp add: struck_def shotForce_startRecording) (simp add: startRecording_def)

lemma shotForce_nonzero:
  assumes "pullBack (cue g) > 5"
  shows "shotForce g \<noteq> (0, 0)"
proof
  assume z: "shotForce g = (0, 0)"
  define p where "p = p5map (pullBack (cue g)) 0 maxPullBack 0 0.5"
  define k where "k = spin_x (spinControl g) * 0.08"
  define c where "c = cos (angle (cue g))"
  define s where "s = sin (angle (cue g))"
  have ppos: "0 < p" using assms by (simp add: p_def p5map_def maxPullBack_def)
  have cs: "c * c + s * s = 1" unfolding c_def s_def
    using sin_cos_squared_add2 [of "angle (cue g)"] by (simp add: power2_eq_square)
  from z have fx: "c * p - s * (k * p) = 0" and fy: "s * p + c * (k * p) = 0"
    by (simp_all add: shotForce_def Let_def p_def k_def c_def s_def algebra_simps)
  have "(c * p - s * (k * p)) * (c * p - s * (k * p)) + (s * p + c * (k * p)) * (s * p + c * (k * p))
      = (c * c + s * s) * (p * p * (1 + k * k))"
    by (simp add: algebra_simps)
  then have "(0::real) * 0 + 0 * 0 = 1 * (p * p * (1 + k * k))"
    unfolding fx fy cs .
  then have "p * p * (1 + k * k) = 0" by simp
  moreover have "0 < 1 + k * k" by (simp add: add_pos_nonneg)
  ultimately have "p * p = 0" by simp
  with ppos show False by simp
qed

lemma mouseReleased_dragging:
  "isDragging (spinControl g) \<Longrightarrow>
   mouseReleased g = Inr (g\<lparr>spinControl := (spinControl g)\<lparr>isDragging := False\<rparr>\<rparr>)"
  by (simp add: mouseReleased_def)

lemma mouseReleased_fires:
  assumes "\<not> isDragging (spinControl g)" and "releaseFires g" and "cueBall g = Some cb"
  shows "mouseReleased g =
    Inr (startRecording g
          \<lparr>cueBall := Some (struck g cb), isShooting := True, canShoot := False,
           cue := (cue g)\<lparr>isAiming := False, pullBack := 0\<rparr>\<rparr>)"
proof -
  have c: "cueBall (startRecording g) = Some cb" using assms(3) by (simp add: startRecording_def)
  have "cue (startRecording g) = cue g" by (simp add: startRecording_def)
  then show ?thesis
    using assms shootCueBall_Some [OF c]
    by (simp add: mouseReleased_def releaseFires_def struck_startRecording)
qed

lemma mouseReleased_idle:
  assumes "\<not> isDragging (spinControl g)" and "\<not> releaseFires g"
  shows "mouseReleased g = Inr (g\<lparr>cue := (cue g)\<lparr>isAiming := False, pullBack := 0\<rparr>\<rparr>)"
  using assms by (auto simp: mouseReleased_def releaseFires_def)


subsection \<open>What each handler leaves unchanged\<close>
























subsection \<open>Example runs from the opening rack\<close>

lemma isInsideSpinControl_sq:
  "isInsideSpinControl mx my \<longleftrightarrow> (mx - 1040)\<^sup>2 + (my - 640)\<^sup>2 \<le> 1225"
  using sqrt_le_iff [of uiRadius "(mx - uiX)\<^sup>2 + (my - uiY)\<^sup>2"]
  by (simp add: isInsideSpinControl_def uiX_def uiY_def uiRadius_def table_defs)

lemma setupGame_controls:
  "cue setupGame = \<lparr>angle = 0, pullBack = 0, isAiming = False, dragStartX = 0, dragStartY = 0\<rparr>"
  "spinControl setupGame = \<lparr>spin_x = 0, spin_y = 0, isDragging = False\<rparr>"
  "replaySystem setupGame = \<lparr>recording = False, frames = [], playbackIndex = 0, showReplay = False\<rparr>"
  "trajectoryPreview setupGame = \<lparr>enabled = True, points = [], ghostBall = None, collisionBalls = []\<rparr>"
  by (simp_all add: setup_eval redTrianglePositions_value)

lemma placedGame_fields:
  "cueBall placedGame = Some (Bodies_circle 22 550 500 ballRadius ''cueBall'')"
  "cueBallPlaced placedGame" "canShoot placedGame" "\<not> isShooting placedGame"
  "cue placedGame = \<lparr>angle = 0, pullBack = 0, isAiming = False, dragStartX = 0, dragStartY = 0\<rparr>"
  "spinControl placedGame = \<lparr>spin_x = 0, spin_y = 0, isDragging = False\<rparr>"
  "redBalls placedGame = redBalls setupGame"
  "colouredBalls placedGame = colouredBalls setupGame"
  "replaySystem placedGame = replaySystem setupGame"
  by (simp_all add: placedGame_def createCueBall_def setupGame_flags setupGame_controls)

lemma press_places: "mousePressed 550 500 setupGame = Inr placedGame"
proof -
  have d: "isInDZone 550 500"
    unfolding isInDZone_iff by (simp add: dRadius_euclid) (simp add: dzone_values power2_eq_square)
  have ns: "\<not> isInsideSpinControl 550 500"
    by (simp add: isInsideSpinControl_sq power2_eq_square)
  have "list_all (\<lambda>p. \<not> euclid (550, 500) p < ballDiameter) (map position (otherBalls setupGame))"
    unfolding setupGame_otherBalls redTrianglePositions_value
    by (simp add: ballDiameter_euclid power2_eq_square)
  then have "\<not> (\<exists>b \<in> set (otherBalls setupGame). euclid (550, 500) (position b) < ballDiameter)"
    by (simp add: list.pred_map comp_def list_all_iff)
  then show ?thesis
    using d ns
    by (simp add: mousePressed_placement [OF setupGame_flags(2) setupGame_flags(6)] placedGame_def)
qed


lemma release_idle_placed: "mouseReleased placedGame = Inr placedGame"
proof -
  have "\<not> isDragging (spinControl placedGame)" "\<not> releaseFires placedGame"
    by (simp_all add: placedGame_fields releaseFires_def)
  from mouseReleased_idle [OF this] show ?thesis
    by (simp add: placedGame_fields(5) [symmetric]) (simp add: placedGame_fields(5))
qed

lemma press_aims:
  "mousePressed 700 300 placedGame =
     Inr (placedGame\<lparr>cue := \<lparr>angle = atan2 (- 200) 150, pullBack = 0, isAiming = True,
                             dragStartX = 700, dragStartY = 300\<rparr>\<rparr>)"
  by (simp add: mousePressed_def isInsideSpinControl_sq placedGame_fields Bodies_circle_def
      power2_eq_square)

lemma drag_pulls:
  "mouseDragged 700 400 False
     (placedGame\<lparr>cue := \<lparr>angle = atan2 (- 200) 150, pullBack = 0, isAiming = True,
                          dragStartX = 700, dragStartY = 300\<rparr>\<rparr>) = aimingGame"
proof -
  have "sqrt (100 * 100) = (100::real)" by simp
  then have s: "sqrt 10000 = (100::real)" by simp
  show ?thesis
    by (simp add: mouseDragged_def placedGame_fields Let_def s maxPullBack_def aimingGame_def)
qed


lemma aimingGame_fields:
  "cueBall aimingGame = Some (Bodies_circle 22 550 500 ballRadius ''cueBall'')"
  "isAiming (cue aimingGame)" "pullBack (cue aimingGame) = 80"
  "\<not> isDragging (spinControl aimingGame)" "\<not> isShooting aimingGame"
  "spinControl aimingGame = \<lparr>spin_x = 0, spin_y = 0, isDragging = False\<rparr>"
  "releaseFires aimingGame"
  by (simp_all add: aimingGame_def placedGame_fields releaseFires_def)




text \<open>
  Claim C8, as the code has it. A release that ends a drag on the spin control only
  clears \<open>spinControl.isDragging\<close>. Every other release returns with aiming off and
  the pull-back at 0 and leaves the reds and the coloured balls as they were; it fires
  the shot (a non-zero force is added to the cue ball's force, with position and velocity
  untouched, and the session is in flight: \<open>isShooting\<close> set, \<open>canShoot\<close> cleared)
  if the player is aiming, a cue ball exists and the pull-back exceeds 5, and otherwise
  it changes neither the cue ball nor the two flags.
\<close>

theorem mouseReleased_fires_iff:
  "(isDragging (spinControl g) \<longrightarrow>
      mouseReleased g = Inr (g\<lparr>spinControl := (spinControl g)\<lparr>isDragging := False\<rparr>\<rparr>)) \<and>
   (\<not> isDragging (spinControl g) \<longrightarrow>
      (\<exists>g'. mouseReleased g = Inr g' \<and>
         \<not> isAiming (cue g') \<and> pullBack (cue g') = 0 \<and>
         redBalls g' = redBalls g \<and> colouredBalls g' = colouredBalls g \<and>
         (releaseFires g \<longrightarrow>
            isShooting g' \<and> \<not> canShoot g' \<and> shotForce g \<noteq> (0, 0) \<and>
            (\<exists>cb. cueBall g = Some cb \<and> cueBall g' = Some (struck g cb))) \<and>
         (\<not> releaseFires g \<longrightarrow>
            cueBall g' = cueBall g \<and> isShooting g' = isShooting g \<and>
            canShoot g' = canShoot g))) \<and>
   (releaseFires g \<longleftrightarrow> isAiming (cue g) \<and> cueBall g \<noteq> None \<and> pullBack (cue g) > 5) \<and>
   (\<forall>cb. force (struck g cb) =
            (fst (force cb) + fst (shotForce g), snd (force cb) + snd (shotForce g)) \<and>
         position (struck g cb) = position cb \<and> velocity (struck g cb) = velocity cb)"
proof (intro conjI impI allI)
  assume "isDragging (spinControl g)"
  then show "mouseReleased g = Inr (g\<lparr>spinControl := (spinControl g)\<lparr>isDragging := False\<rparr>\<rparr>)"
    by (rule mouseReleased_dragging)
next
  assume nd: "\<not> isDragging (spinControl g)"
  show "\<exists>g'. mouseReleased g = Inr g' \<and>
         \<not> isAiming (cue g') \<and> pullBack (cue g') = 0 \<and>
         redBalls g' = redBalls g \<and> colouredBalls g' = colouredBalls g \<and>
         (releaseFires g \<longrightarrow>
            isShooting g' \<and> \<not> canShoot g' \<and> shotForce g \<noteq> (0, 0) \<and>
            (\<exists>cb. cueBall g = Some cb \<and> cueBall g' = Some (struck g cb))) \<and>
         (\<not> releaseFires g \<longrightarrow>
            cueBall g' = cueBall g \<and> isShooting g' = isShooting g \<and>
            canShoot g' = canShoot g)"
  proof (cases "releaseFires g")
    case True
    then obtain cb where cb: "cueBall g = Some cb" by (auto simp: releaseFires_def)
    have nz: "shotForce g \<noteq> (0, 0)"
      using True by (intro shotForce_nonzero) (simp add: releaseFires_def)
    from mouseReleased_fires [OF nd True cb] True cb nz show ?thesis
      by (simp add: startRecording_def)
  next
    case False
    from mouseReleased_idle [OF nd False] False show ?thesis by simp
  qed
next
  show "releaseFires g \<longleftrightarrow> isAiming (cue g) \<and> cueBall g \<noteq> None \<and> pullBack (cue g) > 5"
    by (simp add: releaseFires_def)
next
  fix cb
  show "force (struck g cb) =
            (fst (force cb) + fst (shotForce g), snd (force cb) + snd (shotForce g))"
    "position (struck g cb) = position cb" "velocity (struck g cb) = velocity cb"
    by (simp_all add: struck_def)
qed

theorem mouseReleased_fires_iff_witness:
  "releaseFires aimingGame \<and> \<not> isDragging (spinControl aimingGame) \<and>
   (\<exists>g'. mouseReleased aimingGame = Inr g' \<and> isShooting g' \<and> \<not> canShoot g' \<and>
      \<not> isAiming (cue g') \<and> pullBack (cue g') = 0 \<and>
      cueBall g' = Some (struck aimingGame (Bodies_circle 22 550 500 ballRadius ''cueBall''))) \<and>
   shotForce aimingGame \<noteq> (0, 0) \<and>
   \<not> releaseFires placedGame \<and> \<not> isDragging (spinControl placedGame) \<and>
   (\<exists>g'. mouseReleased placedGame = Inr g' \<and> cueBall g' = cueBall placedGame \<and>
      \<not> isShooting g' \<and> \<not> isAiming (cue g') \<and> pullBack (cue g') = 0) \<and>
   isDragging (spinControl (aimingGame\<lparr>spinControl := \<lparr>spin_x = 0, spin_y = 0, isDragging = True\<rparr>\<rparr>)) \<and>
   mouseReleased (aimingGame\<lparr>spinControl := \<lparr>spin_x = 0, spin_y = 0, isDragging = True\<rparr>\<rparr>)
     = Inr aimingGame"
proof -
  have a: "\<exists>g'. mouseReleased aimingGame = Inr g' \<and> isShooting g' \<and> \<not> canShoot g' \<and>
      \<not> isAiming (cue g') \<and> pullBack (cue g') = 0 \<and>
      cueBall g' = Some (struck aimingGame (Bodies_circle 22 550 500 ballRadius ''cueBall''))"
    and nz: "shotForce aimingGame \<noteq> (0, 0)"
    using mouseReleased_fires_iff [of aimingGame] aimingGame_fields by auto
  have np: "\<not> releaseFires placedGame" "\<not> isDragging (spinControl placedGame)"
    by (simp_all add: releaseFires_def placedGame_fields)
  then have b: "\<exists>g'. mouseReleased placedGame = Inr g' \<and> cueBall g' = cueBall placedGame \<and>
      \<not> isShooting g' \<and> \<not> isAiming (cue g') \<and> pullBack (cue g') = 0"
    using mouseReleased_fires_iff [of placedGame] placedGame_fields(4) by auto
  have c: "mouseReleased (aimingGame\<lparr>spinControl := \<lparr>spin_x = 0, spin_y = 0, isDragging = True\<rparr>\<rparr>)
     = Inr aimingGame"
    using mouseReleased_fires_iff
      [of "aimingGame\<lparr>spinControl := \<lparr>spin_x = 0, spin_y = 0, isDragging = True\<rparr>\<rparr>"]
    by (simp add: aimingGame_fields(6) [symmetric])
  show ?thesis using a nz np b c aimingGame_fields by simp
qed


text \<open>
  The claim speaks of every release. With the aim locked and the cue pulled back by 80,
  a press on the spin control (a second button, or a second touch) followed by a release
  ends in the first branch of \<open>mouseReleased\<close>: the player is aiming, a cue ball
  exists and the pull-back exceeds the threshold, yet no shot is fired and aiming and
  pull-back are not reset.
\<close>

theorem mouseReleased_counterexample:
  "run [MousePressed 550 500, MouseReleased, MousePressed 700 300, MouseDragged 700 400 False,
        MousePressed 1040 640] setupGame
     = Inr (aimingGame\<lparr>spinControl := \<lparr>spin_x = 0, spin_y = 0, isDragging = True\<rparr>\<rparr>) \<and>
   releaseFires (aimingGame\<lparr>spinControl := \<lparr>spin_x = 0, spin_y = 0, isDragging = True\<rparr>\<rparr>) \<and>
   mouseReleased (aimingGame\<lparr>spinControl := \<lparr>spin_x = 0, spin_y = 0, isDragging = True\<rparr>\<rparr>)
     = Inr aimingGame \<and>
   isAiming (cue aimingGame) \<and> pullBack (cue aimingGame) = 80 \<and> \<not> isShooting aimingGame \<and>
   map_option force (cueBall aimingGame) = Some (0, 0)"
proof -
  let ?g = "aimingGame\<lparr>spinControl := \<lparr>spin_x = 0, spin_y = 0, isDragging = True\<rparr>\<rparr>"
  have p: "mousePressed 1040 640 aimingGame = Inr ?g"
    by (simp add: mousePressed_def isInsideSpinControl_sq updateSpinFromMouse_def Let_def
        constrain_def uiX_def uiY_def table_defs aimingGame_fields(6))
  have r: "run [MousePressed 550 500, MouseReleased, MousePressed 700 300,
        MouseDragged 700 400 False, MousePressed 1040 640] setupGame = Inr ?g"
    by (simp add: press_places release_idle_placed press_aims drag_pulls p)
  have f: "releaseFires ?g" using aimingGame_fields(7) by (simp add: releaseFires_def)
  have m: "mouseReleased ?g = Inr aimingGame"
    by (simp add: mouseReleased_dragging aimingGame_fields(6) [symmetric])
  show ?thesis
    using r f m aimingGame_fields by (simp add: Bodies_circle_def)
qed


section \<open>The spin after a shot\<close>







section \<open>Settling\<close>











section \<open>The marching loop\<close>

lemma marchForward_straight:
  assumes "curveAmount m = 0"
  shows "marchForward m =
    m\<lparr>currentX :=
         (if currentX m + currentDirX m * stepSize < innerLeft then innerLeft
          else if currentX m + currentDirX m * stepSize > innerRight then innerRight
          else currentX m + currentDirX m * stepSize),
       currentY :=
         (if currentY m + currentDirY m * stepSize < innerTop then innerTop
          else if currentY m + currentDirY m * stepSize > innerBottom then innerBottom
          else currentY m + currentDirY m * stepSize),
       currentDirX := (if crossesX m then - currentDirX m else currentDirX m),
       currentDirY := (if crossesY m then - currentDirY m else currentDirY m),
       bounces := bounces m + (if crossesX m then 1 else 0) + (if crossesY m then 1 else 0)\<rparr>"
  using assms
  by (cases m) (simp add: marchForward_def Let_def crossesX_def crossesY_def)

lemma marchForward_unit: "unitDirection m \<Longrightarrow> unitDirection (marchForward m)"
  by (simp add: marchForward_def Let_def unitDirection_def)

lemma marchForward_curve0: "curveAmount m = 0 \<Longrightarrow> curveAmount (marchForward m) = 0"
  by (simp add: marchForward_def Let_def)

lemma unitDirection_dirLen:
  "unitDirection m \<Longrightarrow> sqrt (currentDirX m * currentDirX m + currentDirY m * currentDirY m) = 1"
  by (simp add: unitDirection_def power2_eq_square)

lemma traceStep_continue:
  assumes "traceStep m g = (Some m', g')" and "unitDirection m"
  shows "m' = (marchForward m)\<lparr>totalDist := totalDist m + stepSize\<rparr>"
proof -
  have u: "sqrt (currentDirX (marchForward m) * currentDirX (marchForward m)
      + currentDirY (marchForward m) * currentDirY (marchForward m)) = 1"
    using marchForward_unit [OF assms(2)] by (rule unitDirection_dirLen)
  from assms(1) show ?thesis
    unfolding traceStep_def Let_def u
    by (auto split: option.splits)
qed

lemma traceStep_unit:
  assumes "traceStep m g = (Some m', g')" and "unitDirection m"
  shows "unitDirection m'"
  using traceStep_continue [OF assms] marchForward_unit [OF assms(2)]
  by (simp add: unitDirection_def)

lemma traceStep_curve0:
  assumes "traceStep m g = (Some m', g')" and "unitDirection m" and "curveAmount m = 0"
  shows "curveAmount m' = 0"
  using traceStep_continue [OF assms(1,2)] marchForward_curve0 [OF assms(3)] by simp

lemma marchAfter_invariant:
  "unitDirection m \<Longrightarrow> curveAmount m = 0 \<Longrightarrow> marchAfter n m g = Some (m', g') \<Longrightarrow>
   unitDirection m' \<and> curveAmount m' = 0"
proof (induction n arbitrary: m g)
  case 0
  then show ?case by simp
next
  case (Suc n)
  from Suc.prems(3) obtain m1 g1 where s: "traceStep m g = (Some m1, g1)"
    and r: "marchAfter n m1 g1 = Some (m', g')"
    by (auto split: if_splits option.splits prod.splits)
  from Suc.IH [OF traceStep_unit [OF s Suc.prems(1)] traceStep_curve0 [OF s Suc.prems(1,2)] r]
  show ?case .
qed

lemma marchAfter_unit:
  "unitDirection m \<Longrightarrow> marchAfter n m g = Some (m', g') \<Longrightarrow> unitDirection m'"
proof (induction n arbitrary: m g)
  case 0
  then show ?case by simp
next
  case (Suc n)
  from Suc.prems(2) obtain m1 g1 where s: "traceStep m g = (Some m1, g1)"
    and r: "marchAfter n m1 g1 = Some (m', g')"
    by (auto split: if_splits option.splits prod.splits)
  from Suc.IH [OF traceStep_unit [OF s Suc.prems(1)] r] show ?case .
qed

lemma initialMarch_unit: "unitDirection (initialMarch cb g)"
  by (simp add: initialMarch_def unitDirection_def)

lemma traceStep_points:
  "traceStep m g = (r, g') \<Longrightarrow>
   points (trajectoryPreview g') =
     points (trajectoryPreview g) @ [\<lparr>pt_x = currentX m, pt_y = currentY m, bounce = bounces m\<rparr>]"
  unfolding traceStep_def Let_def
  by (auto simp: calculateDeflectionPaths_def Let_def split: option.splits)

lemma traceLoop_bounded:
  "forecastBounded (totalDist m) g \<Longrightarrow>
   length (points (trajectoryPreview (traceLoop m g))) \<le> 160 \<and>
   list_all (\<lambda>p. bounce p \<le> maxBounces) (points (trajectoryPreview (traceLoop m g)))"
proof (induction m g rule: traceLoop.induct)
  case (1 m g)
  show ?case
  proof (cases "bounces m \<le> maxBounces \<and> totalDist m < maxDistance")
    case False
    then show ?thesis using "1.prems" by (simp add: traceLoop_stop forecastBounded_def)
  next
    case True
    obtain r g' where s: "traceStep m g = (r, g')" by (cases "traceStep m g")
    note pts = traceStep_points [OF s]
    have len: "length (points (trajectoryPreview g)) < 160"
      using True "1.prems" by (simp add: forecastBounded_def stepSize_def maxDistance_def)
    show ?thesis
    proof (cases r)
      case None
      with s True have "traceLoop m g = g'" by (simp add: traceLoop_break)
      then show ?thesis using pts len True "1.prems" by (simp add: forecastBounded_def)
    next
      case (Some m')
      with s have s': "traceStep m g = (Some m', g')" by simp
      have td: "totalDist m' = totalDist m + stepSize" using s' by (rule traceStep_totalDist)
      have "forecastBounded (totalDist m') g'"
        using pts len True "1.prems" td by (simp add: forecastBounded_def algebra_simps)
      with "1.IH" [OF True s' [symmetric] refl] s' True show ?thesis
        by (simp add: traceLoop_continue)
    qed
  qed
qed


lemma traceLoop_points_grow:
  "\<exists>ps. points (trajectoryPreview (traceLoop m g)) = points (trajectoryPreview g) @ ps"
proof (induction m g rule: traceLoop.induct)
  case (1 m g)
  show ?case
  proof (cases "bounces m \<le> maxBounces \<and> totalDist m < maxDistance")
    case False
    then show ?thesis by (simp add: traceLoop_stop)
  next
    case True
    obtain r g' where s: "traceStep m g = (r, g')" by (cases "traceStep m g")
    note pts = traceStep_points [OF s]
    show ?thesis
    proof (cases r)
      case None
      with s True have "traceLoop m g = g'" by (simp add: traceLoop_break)
      then show ?thesis using pts by simp
    next
      case (Some m')
      with s have s': "traceStep m g = (Some m', g')" by simp
      from "1.IH" [OF True s' [symmetric] refl] obtain ps where
        "points (trajectoryPreview (traceLoop m' g')) = points (trajectoryPreview g') @ ps" by blast
      then show ?thesis using s' True pts by (simp add: traceLoop_continue)
    qed
  qed
qed

lemma traceLoop_first_point:
  assumes "bounces m \<le> maxBounces \<and> totalDist m < maxDistance"
  shows "\<exists>ps. points (trajectoryPreview (traceLoop m g)) =
    points (trajectoryPreview g) @ \<lparr>pt_x = currentX m, pt_y = currentY m, bounce = bounces m\<rparr> # ps"
proof -
  obtain r g' where s: "traceStep m g = (r, g')" by (cases "traceStep m g")
  note pts = traceStep_points [OF s]
  show ?thesis
  proof (cases r)
    case None
    with s assms have "traceLoop m g = g'" by (simp add: traceLoop_break)
    then show ?thesis using pts by simp
  next
    case (Some m')
    with s have s': "traceStep m g = (Some m', g')" by simp
    from traceLoop_points_grow [of m' g'] obtain ps where
      "points (trajectoryPreview (traceLoop m' g')) = points (trajectoryPreview g') @ ps" by blast
    then show ?thesis using s' assms pts by (simp add: traceLoop_continue)
  qed
qed

lemma forecast_starts_at_cue_ball:
  assumes "cueBall g = Some cb"
  shows "\<exists>ps. points (trajectoryPreview (calculateTrajectoryPreview g)) =
    \<lparr>pt_x = fst (position cb), pt_y = snd (position cb), bounce = 0\<rparr> # ps"
proof -
  let ?g0 = "clearPreview g"
  have c: "cueBall ?g0 = Some cb" "points (trajectoryPreview ?g0) = []"
    using assms by (simp_all add: clearPreview_def)
  have "bounces (initialMarch cb ?g0) \<le> maxBounces \<and> totalDist (initialMarch cb ?g0) < maxDistance"
    by (simp add: initialMarch_def maxDistance_def)
  from traceLoop_first_point [OF this, of ?g0] c
  show ?thesis
    by (simp add: calculateTrajectoryPreview_def Let_def initialMarch_def)
qed

lemma forecast_bounded:
  "length (points (trajectoryPreview (calculateTrajectoryPreview g))) \<le> 160 \<and>
   list_all (\<lambda>p. bounce p \<le> maxBounces) (points (trajectoryPreview (calculateTrajectoryPreview g)))"
proof (cases "cueBall g")
  case None
  then show ?thesis by (simp add: calculateTrajectoryPreview_def Let_def clearPreview_def)
next
  case (Some cb)
  let ?g0 = "clearPreview g"
  have "forecastBounded (totalDist (initialMarch cb ?g0)) ?g0"
    by (simp add: forecastBounded_def initialMarch_def clearPreview_def)
  from traceLoop_bounded [OF this] Some show ?thesis
    by (simp add: calculateTrajectoryPreview_def Let_def clearPreview_def)
qed


lemma nearCushionGame_fields:
  "cueBall nearCushionGame = Some (Bodies_circle 22 966 300 ballRadius ''cueBall'')"
  "spin_x (spinControl nearCushionGame) = 0"
  "angle (cue nearCushionGame) = 0"
  by (simp_all add: nearCushionGame_def setupGame_controls)

lemma inner_values:
  "innerLeft = 525 / 4" "innerRight = 3875 / 4" "innerTop = 625 / 4" "innerBottom = 2175 / 4"
  by (simp_all add: innerLeft_def innerRight_def innerTop_def innerBottom_def table_defs)

lemma nearCushion_march:
  "initialMarch (Bodies_circle 22 966 300 ballRadius ''cueBall'') (clearPreview nearCushionGame) =
     \<lparr>currentX = 966, currentY = 300, currentDirX = 1, currentDirY = 0, bounces = 0,
      totalDist = 0, curveAmount = 0\<rparr>"
  by (simp add: initialMarch_def clearPreview_def nearCushionGame_fields Bodies_circle_def)

lemma marchAfter_traceLoop:
  "marchAfter n m g = Some (m', g') \<Longrightarrow> traceLoop m g = traceLoop m' g'"
proof (induction n arbitrary: m g)
  case 0
  then show ?case by simp
next
  case (Suc n)
  from Suc.prems obtain m1 g1 where c: "bounces m \<le> maxBounces \<and> totalDist m < maxDistance"
    and s: "traceStep m g = (Some m1, g1)"
    and r: "marchAfter n m1 g1 = Some (m', g')"
    by (auto split: if_splits option.splits prod.splits)
  have "traceLoop m g = traceLoop m1 g1" using c s by (simp add: traceLoop_continue)
  with Suc.IH [OF r] show ?case by simp
qed

lemma marchAfter_length:
  "marchAfter n m g = Some (m', g') \<Longrightarrow>
   length (points (trajectoryPreview g')) = length (points (trajectoryPreview g)) + n"
proof (induction n arbitrary: m g)
  case 0
  then show ?case by simp
next
  case (Suc n)
  from Suc.prems obtain m1 g1 where s: "traceStep m g = (Some m1, g1)"
    and r: "marchAfter n m1 g1 = Some (m', g')"
    by (auto split: if_splits option.splits prod.splits)
  from Suc.IH [OF r] traceStep_points [OF s] show ?case by simp
qed



lemma forecast_point:
  assumes "marchAfter n m0 g0 = Some (m, g1)"
    and "bounces m \<le> maxBounces \<and> totalDist m < maxDistance"
    and "points (trajectoryPreview g0) = []"
  shows "n < length (points (trajectoryPreview (traceLoop m0 g0))) \<and>
         points (trajectoryPreview (traceLoop m0 g0)) ! n = pointOf m"
proof -
  have l: "length (points (trajectoryPreview g1)) = n"
    using marchAfter_length [OF assms(1)] assms(3) by simp
  from traceLoop_first_point [OF assms(2), of g1] obtain ps where
    "points (trajectoryPreview (traceLoop m g1)) = points (trajectoryPreview g1) @ pointOf m # ps"
    unfolding pointOf_def by blast
  then have "points (trajectoryPreview (traceLoop m0 g0)) = points (trajectoryPreview g1) @ pointOf m # ps"
    using marchAfter_traceLoop [OF assms(1)] by simp
  then show ?thesis using l by (simp add: nth_append)
qed


lemma marchForward_inside:
  "insideInterior (currentX (marchForward m)) (currentY (marchForward m))"
  by (simp add: marchForward_def Let_def insideInterior_def inner_values)

lemma euclid_eq_iff:
  "0 \<le> c \<Longrightarrow> euclid p q = c \<longleftrightarrow> (fst p - fst q)\<^sup>2 + (snd p - snd q)\<^sup>2 = c * c"
  using euclid_le_iff [of c p q] le_euclid_iff [of c p q] by auto

lemma clamp_le:
  fixes x d lo hi :: real
  assumes "lo \<le> x" "x \<le> hi"
  shows "(x - (if x + d < lo then lo else if x + d > hi then hi else x + d))\<^sup>2 \<le> d\<^sup>2"
proof -
  let ?c = "if x + d < lo then lo else if x + d > hi then hi else x + d"
  have "\<bar>x - ?c\<bar> \<le> \<bar>d\<bar>" using assms by auto
  then show ?thesis by (simp add: abs_le_square_iff)
qed

lemma unit_scaled:
  fixes a b s :: real
  assumes "a\<^sup>2 + b\<^sup>2 = 1"
  shows "(a * s)\<^sup>2 + (b * s)\<^sup>2 = s * s"
proof -
  have "(a * s)\<^sup>2 + (b * s)\<^sup>2 = (a\<^sup>2 + b\<^sup>2) * (s * s)"
    by (simp add: power2_eq_square algebra_simps)
  then show ?thesis using assms by simp
qed

lemma marchForward_step:
  assumes c: "curveAmount m = 0" and u: "unitDirection m"
    and i: "insideInterior (currentX m) (currentY m)"
  shows "if bounces (marchForward m) = bounces m
         then euclid (currentX m, currentY m)
                (currentX (marchForward m), currentY (marchForward m)) = stepSize
         else euclid (currentX m, currentY m)
                (currentX (marchForward m), currentY (marchForward m)) \<le> stepSize"
proof -
  note mf = marchForward_straight [OF c]
  have x: "currentX (marchForward m) =
       (if currentX m + currentDirX m * stepSize < innerLeft then innerLeft
        else if currentX m + currentDirX m * stepSize > innerRight then innerRight
        else currentX m + currentDirX m * stepSize)"
    and y: "currentY (marchForward m) =
       (if currentY m + currentDirY m * stepSize < innerTop then innerTop
        else if currentY m + currentDirY m * stepSize > innerBottom then innerBottom
        else currentY m + currentDirY m * stepSize)"
    and b: "bounces (marchForward m) =
       bounces m + (if crossesX m then 1 else 0) + (if crossesY m then 1 else 0)"
    by (subst mf, simp)+
  have s0: "0 \<le> stepSize" by (simp add: stepSize_def)
  have un: "(currentDirX m * stepSize)\<^sup>2 + (currentDirY m * stepSize)\<^sup>2 = stepSize * stepSize"
    using u unfolding unitDirection_def by (rule unit_scaled)
  have le: "euclid (currentX m, currentY m)
                (currentX (marchForward m), currentY (marchForward m)) \<le> stepSize"
  proof -
    have "(currentX m - currentX (marchForward m))\<^sup>2 \<le> (currentDirX m * stepSize)\<^sup>2"
      unfolding x using i by (intro clamp_le) (simp_all add: insideInterior_def)
    moreover have "(currentY m - currentY (marchForward m))\<^sup>2 \<le> (currentDirY m * stepSize)\<^sup>2"
      unfolding y using i by (intro clamp_le) (simp_all add: insideInterior_def)
    ultimately show ?thesis using un by (simp add: euclid_le_iff [OF s0])
  qed
  show ?thesis
  proof (cases "bounces (marchForward m) = bounces m")
    case False
    then show ?thesis using le by simp
  next
    case True
    then have n: "\<not> crossesX m" "\<not> crossesY m" using b by (auto split: if_splits)
    have "currentX (marchForward m) = currentX m + currentDirX m * stepSize"
      "currentY (marchForward m) = currentY m + currentDirY m * stepSize"
      using n x y by (auto simp: crossesX_def crossesY_def)
    then have "euclid (currentX m, currentY m)
                (currentX (marchForward m), currentY (marchForward m)) = stepSize"
      using un by (simp add: euclid_eq_iff [OF s0])
    with True show ?thesis by simp
  qed
qed

lemma marchForward_unbounced:
  assumes b: "bounces (marchForward m) = bounces m"
  shows "currentX (marchForward m) =
           currentX m + currentDirX m * stepSize - currentDirY m * sidestep m \<and>
         currentY (marchForward m) =
           currentY m + currentDirY m * stepSize + currentDirX m * sidestep m"
proof (cases "\<bar>curveAmount m\<bar> > 0.01")
  case True
  then have s: "sidestep m = curveAmount m * 0.3" by (simp add: sidestep_def)
  from b True show ?thesis
    unfolding s marchForward_def Let_def by (simp split: if_splits)
next
  case False
  then have s: "sidestep m = 0" by (simp add: sidestep_def)
  from b False show ?thesis
    unfolding s marchForward_def Let_def by (simp split: if_splits)
qed

lemma marchForward_step_curved:
  assumes u: "unitDirection m" and b: "bounces (marchForward m) = bounces m"
  shows "euclid (currentX m, currentY m) (currentX (marchForward m), currentY (marchForward m))
         = sqrt (stepSize\<^sup>2 + (sidestep m)\<^sup>2)"
proof -
  define s where "s = sidestep m"
  have p: "currentX (marchForward m) = currentX m + currentDirX m * stepSize - currentDirY m * s"
    "currentY (marchForward m) = currentY m + currentDirY m * stepSize + currentDirX m * s"
    using marchForward_unbounced [OF b] unfolding s_def by simp_all
  have "(currentDirX m * stepSize - currentDirY m * s)\<^sup>2 + (currentDirY m * stepSize + currentDirX m * s)\<^sup>2
      = ((currentDirX m)\<^sup>2 + (currentDirY m)\<^sup>2) * (stepSize\<^sup>2 + s\<^sup>2)"
    by (simp add: power2_eq_square algebra_simps)
  also have "\<dots> = stepSize\<^sup>2 + s\<^sup>2" using u by (simp add: unitDirection_def)
  finally have "(currentX m - currentX (marchForward m))\<^sup>2 + (currentY m - currentY (marchForward m))\<^sup>2
      = stepSize\<^sup>2 + s\<^sup>2"
    unfolding p by (simp add: power2_eq_square algebra_simps)
  then show ?thesis unfolding euclid_def s_def by simp
qed

lemma fixedSteps_prefix: "fixedSteps (ps @ qs) \<Longrightarrow> fixedSteps ps"
  by (induction ps rule: fixedSteps.induct) simp_all

lemma fixedSteps_snoc:
  "fixedSteps (ps @ [p]) \<Longrightarrow>
   (if bounce q = bounce p then euclid (pt_x p, pt_y p) (pt_x q, pt_y q) = stepSize
    else euclid (pt_x p, pt_y p) (pt_x q, pt_y q) \<le> stepSize) \<Longrightarrow>
   fixedSteps (ps @ [p, q])"
  by (induction ps rule: fixedSteps.induct) simp_all

lemma pathLength_bound:
  "fixedSteps ps \<Longrightarrow> pathLength ps + stepSize \<le> stepSize * real (length ps) \<or> ps = []"
proof (induction ps rule: pathLength.induct)
  case 1
  then show ?case by simp
next
  case (2 p)
  then show ?case by (simp add: stepSize_def)
next
  case (3 p q ps)
  then have "euclid (pt_x p, pt_y p) (pt_x q, pt_y q) \<le> stepSize" by (simp split: if_splits)
  moreover from 3 have "pathLength (q # ps) + stepSize \<le> stepSize * real (length (q # ps))"
    by simp
  ultimately show ?case by (simp add: algebra_simps)
qed

lemma traceLoop_fixedSteps:
  "unitDirection m \<Longrightarrow> curveAmount m = 0 \<Longrightarrow> insideInterior (currentX m) (currentY m) \<Longrightarrow>
   fixedSteps (points (trajectoryPreview g) @ [pointOf m]) \<Longrightarrow>
   fixedSteps (points (trajectoryPreview (traceLoop m g)))"
proof (induction m g rule: traceLoop.induct)
  case (1 m g)
  show ?case
  proof (cases "bounces m \<le> maxBounces \<and> totalDist m < maxDistance")
    case False
    then show ?thesis using fixedSteps_prefix [OF "1.prems"(4)] by (simp add: traceLoop_stop)
  next
    case True
    obtain r g' where s: "traceStep m g = (r, g')" by (cases "traceStep m g")
    have pts: "points (trajectoryPreview g') = points (trajectoryPreview g) @ [pointOf m]"
      using traceStep_points [OF s] by (simp add: pointOf_def)
    show ?thesis
    proof (cases r)
      case None
      with s True have "traceLoop m g = g'" by (simp add: traceLoop_break)
      then show ?thesis using pts "1.prems"(4) by simp
    next
      case (Some m')
      with s have s': "traceStep m g = (Some m', g')" by simp
      have m': "m' = (marchForward m)\<lparr>totalDist := totalDist m + stepSize\<rparr>"
        using traceStep_continue [OF s' "1.prems"(1)] .
      have u': "unitDirection m'" using traceStep_unit [OF s' "1.prems"(1)] .
      have c': "curveAmount m' = 0" using traceStep_curve0 [OF s' "1.prems"(1,2)] .
      have i': "insideInterior (currentX m') (currentY m')"
        unfolding m' using marchForward_inside [of m] by simp
      have st: "if bounce (pointOf m') = bounce (pointOf m)
          then euclid (pt_x (pointOf m), pt_y (pointOf m)) (pt_x (pointOf m'), pt_y (pointOf m')) = stepSize
          else euclid (pt_x (pointOf m), pt_y (pointOf m)) (pt_x (pointOf m'), pt_y (pointOf m')) \<le> stepSize"
        using marchForward_step [OF "1.prems"(2,1,3)] unfolding m' pointOf_def by simp
      have "fixedSteps (points (trajectoryPreview g') @ [pointOf m'])"
        unfolding pts using fixedSteps_snoc [OF "1.prems"(4) st] by simp
      from "1.IH" [OF True s' [symmetric] refl u' c' i' this] s' True show ?thesis
        by (simp add: traceLoop_continue)
    qed
  qed
qed

lemma forecast_fixedSteps:
  assumes "spin_x (spinControl g) = 0" and "cueBall g = Some cb"
    and "insideInterior (fst (position cb)) (snd (position cb))"
  shows "fixedSteps (points (trajectoryPreview (calculateTrajectoryPreview g)))"
proof -
  let ?g0 = "clearPreview g"
  let ?m = "initialMarch cb ?g0"
  have c: "cueBall ?g0 = Some cb" "points (trajectoryPreview ?g0) = []"
    using assms(2) by (simp_all add: clearPreview_def)
  have c0: "curveAmount ?m = 0" using assms(1) by (simp add: initialMarch_def clearPreview_def)
  have i: "insideInterior (currentX ?m) (currentY ?m)" using assms(3) by (simp add: initialMarch_def)
  have f: "fixedSteps (points (trajectoryPreview ?g0) @ [pointOf ?m])" using c(2) by simp
  from traceLoop_fixedSteps [OF initialMarch_unit c0 i f] c(1)
  show ?thesis by (simp add: calculateTrajectoryPreview_def Let_def)
qed


lemma marchAfter_totalDist:
  "marchAfter n m g = Some (m', g') \<Longrightarrow> totalDist m' = totalDist m + stepSize * real n"
proof (induction n arbitrary: m g)
  case 0
  then show ?case by simp
next
  case (Suc n)
  from Suc.prems obtain m1 g1 where s: "traceStep m g = (Some m1, g1)"
    and r: "marchAfter n m1 g1 = Some (m', g')"
    by (auto split: if_splits option.splits prod.splits)
  from Suc.IH [OF r] traceStep_totalDist [OF s] show ?case by (simp add: algebra_simps)
qed




lemma traceStep_point:
  "traceStep m g = (Some m', g') \<Longrightarrow>
   currentX m' = currentX (marchForward m) \<and> currentY m' = currentY (marchForward m)"
  by (auto simp: traceStep_def Let_def split: option.splits)

lemma marchAfter_inside_aux:
  "insideInterior (currentX m) (currentY m) \<Longrightarrow> marchAfter n m g = Some (m', g') \<Longrightarrow>
   insideInterior (currentX m') (currentY m')"
proof (induction n arbitrary: m g)
  case 0
  then show ?case by simp
next
  case (Suc n)
  from Suc.prems(2) obtain m1 g1 where s: "traceStep m g = (Some m1, g1)"
    and r: "marchAfter n m1 g1 = Some (m', g')"
    by (auto split: if_splits option.splits prod.splits)
  have "insideInterior (currentX m1) (currentY m1)"
    using traceStep_point [OF s] marchForward_inside [of m] by simp
  from Suc.IH [OF this r] show ?case .
qed

lemma marchAfter_inside:
  assumes "marchAfter n m g = Some (m', g')"
    and "0 < n \<or> insideInterior (currentX m) (currentY m)"
  shows "insideInterior (currentX m') (currentY m')"
proof (cases n)
  case 0
  with assms show ?thesis by simp
next
  case (Suc k)
  from assms(1) Suc obtain m1 g1 where s: "traceStep m g = (Some m1, g1)"
    and r: "marchAfter k m1 g1 = Some (m', g')"
    by (auto split: if_splits option.splits prod.splits)
  have "insideInterior (currentX m1) (currentY m1)"
    using traceStep_point [OF s] marchForward_inside [of m] by simp
  from marchAfter_inside_aux [OF this r] show ?thesis .
qed

text \<open>
  Claim C10, as the code has it. The step is the constant \<open>stepSize = 5\<close>, which is
  0.4 of the ball diameter and 0.8 of the ball radius. Every pass that continues adds
  exactly \<open>stepSize\<close> to the distance counter, so the counter is \<open>stepSize * n\<close>
  after \<open>n\<close> passes. The direction is a unit vector on every pass, and a pass that does
  not bounce moves the marched point by \<open>stepSize\<close> along the direction and by
  \<open>sidestep\<close> across it, a move of length \<open>sqrt (stepSize\<^sup>2 + sidestep\<^sup>2)\<close>;
  with no curve and the point inside the interior, that is a move of exactly
  \<open>stepSize\<close>, and a pass that bounces moves it by at most \<open>stepSize\<close> (the
  point is clamped to the boundary). Every pass pushes its point onto the forecast; on
  every pass of a prediction with zero side spin the curve is zero; and the marched point
  is inside the interior on every pass after the first, and on the first if the cue ball
  is. So for a prediction with zero side spin and the cue ball inside the
  interior, consecutive points of the forecast are exactly \<open>stepSize\<close> apart where the
  bounce count does not change and at most \<open>stepSize\<close> apart where it does, and the
  length of the forecast path is at most \<open>maxDistance = 800\<close>. In every case the
  forecast has at most 160 points, the distance counter stays within \<open>maxDistance\<close>,
  and every point has a bounce count of at most \<open>maxBounces = 3\<close>.
\<close>

theorem marching_step_and_bounds:
  "stepSize = 5 \<and> stepSize = 0.4 * ballDiameter \<and> stepSize = 0.8 * ballRadius \<and>
   maxBounces = 3 \<and> maxDistance = 800 \<and>
   (\<forall>m m' g'. traceStep m g = (Some m', g') \<longrightarrow> totalDist m' = totalDist m + stepSize) \<and>
   (\<forall>m. unitDirection m \<and> bounces (marchForward m) = bounces m \<longrightarrow>
      currentX (marchForward m) =
        currentX m + currentDirX m * stepSize - currentDirY m * sidestep m \<and>
      currentY (marchForward m) =
        currentY m + currentDirY m * stepSize + currentDirX m * sidestep m \<and>
      euclid (currentX m, currentY m) (currentX (marchForward m), currentY (marchForward m))
        = sqrt (stepSize\<^sup>2 + (sidestep m)\<^sup>2)) \<and>
   (\<forall>m. unitDirection m \<and> curveAmount m = 0 \<and> insideInterior (currentX m) (currentY m) \<longrightarrow>
      (if bounces (marchForward m) = bounces m
       then euclid (currentX m, currentY m)
              (currentX (marchForward m), currentY (marchForward m)) = stepSize
       else euclid (currentX m, currentY m)
              (currentX (marchForward m), currentY (marchForward m)) \<le> stepSize)) \<and>
   (\<forall>cb n m g1.
      cueBall g = Some cb \<and>
      marchAfter n (initialMarch cb (clearPreview g)) (clearPreview g) = Some (m, g1) \<longrightarrow>
        calculateTrajectoryPreview g = traceLoop m g1 \<and>
        unitDirection m \<and>
        totalDist m = stepSize * real n \<and>
        (bounces m \<le> maxBounces \<and> totalDist m < maxDistance \<longrightarrow>
           n < length (points (trajectoryPreview (calculateTrajectoryPreview g))) \<and>
           points (trajectoryPreview (calculateTrajectoryPreview g)) ! n =
             \<lparr>pt_x = currentX m, pt_y = currentY m, bounce = bounces m\<rparr>) \<and>
        (spin_x (spinControl g) = 0 \<longrightarrow> curveAmount m = 0) \<and>
        (0 < n \<or> insideInterior (fst (position cb)) (snd (position cb)) \<longrightarrow>
           insideInterior (currentX m) (currentY m))) \<and>
   (\<forall>cb. spin_x (spinControl g) = 0 \<and> cueBall g = Some cb \<and>
      insideInterior (fst (position cb)) (snd (position cb)) \<longrightarrow>
        fixedSteps (points (trajectoryPreview (calculateTrajectoryPreview g))) \<and>
        pathLength (points (trajectoryPreview (calculateTrajectoryPreview g))) \<le> maxDistance) \<and>
   length (points (trajectoryPreview (calculateTrajectoryPreview g))) \<le> 160 \<and>
   stepSize * real (length (points (trajectoryPreview (calculateTrajectoryPreview g))))
     \<le> maxDistance \<and>
   list_all (\<lambda>p. bounce p \<le> maxBounces)
     (points (trajectoryPreview (calculateTrajectoryPreview g)))"
proof -
  let ?pts = "points (trajectoryPreview (calculateTrajectoryPreview g))"
  have c: "stepSize = 5" "stepSize = 0.4 * ballDiameter" "stepSize = 0.8 * ballRadius"
    "maxBounces = 3" "maxDistance = 800"
    by (simp_all add: stepSize_def maxBounces_def maxDistance_def table_defs)
  have t: "\<forall>m m' g'. traceStep m g = (Some m', g') \<longrightarrow> totalDist m' = totalDist m + stepSize"
    using traceStep_totalDist by blast
  have curved: "\<forall>m. unitDirection m \<and> bounces (marchForward m) = bounces m \<longrightarrow>
      currentX (marchForward m) =
        currentX m + currentDirX m * stepSize - currentDirY m * sidestep m \<and>
      currentY (marchForward m) =
        currentY m + currentDirY m * stepSize + currentDirX m * sidestep m \<and>
      euclid (currentX m, currentY m) (currentX (marchForward m), currentY (marchForward m))
        = sqrt (stepSize\<^sup>2 + (sidestep m)\<^sup>2)"
    using marchForward_step_curved marchForward_unbounced by simp
  have straight: "\<forall>m. unitDirection m \<and> curveAmount m = 0 \<and>
        insideInterior (currentX m) (currentY m) \<longrightarrow>
      (if bounces (marchForward m) = bounces m
       then euclid (currentX m, currentY m)
              (currentX (marchForward m), currentY (marchForward m)) = stepSize
       else euclid (currentX m, currentY m)
              (currentX (marchForward m), currentY (marchForward m)) \<le> stepSize)"
    using marchForward_step by blast
  have pass: "\<forall>cb n m g1.
      cueBall g = Some cb \<and>
      marchAfter n (initialMarch cb (clearPreview g)) (clearPreview g) = Some (m, g1) \<longrightarrow>
        calculateTrajectoryPreview g = traceLoop m g1 \<and>
        unitDirection m \<and>
        totalDist m = stepSize * real n \<and>
        (bounces m \<le> maxBounces \<and> totalDist m < maxDistance \<longrightarrow>
           n < length ?pts \<and>
           ?pts ! n = \<lparr>pt_x = currentX m, pt_y = currentY m, bounce = bounces m\<rparr>) \<and>
        (spin_x (spinControl g) = 0 \<longrightarrow> curveAmount m = 0) \<and>
        (0 < n \<or> insideInterior (fst (position cb)) (snd (position cb)) \<longrightarrow>
           insideInterior (currentX m) (currentY m))"
  proof (intro allI impI, elim conjE)
    fix cb n m g1
    let ?g0 = "clearPreview g"
    let ?ini = "initialMarch cb ?g0"
    assume cue: "cueBall g = Some cb" and r: "marchAfter n ?ini ?g0 = Some (m, g1)"
    have g0: "cueBall ?g0 = Some cb" "points (trajectoryPreview ?g0) = []"
      using cue by (simp_all add: clearPreview_def)
    have run: "calculateTrajectoryPreview g = traceLoop ?ini ?g0"
      using g0(1) by (simp add: calculateTrajectoryPreview_def Let_def)
    have link: "calculateTrajectoryPreview g = traceLoop m g1"
      using run marchAfter_traceLoop [OF r] by simp
    have u: "unitDirection m" using marchAfter_unit [OF initialMarch_unit r] .
    have td: "totalDist m = stepSize * real n"
      using marchAfter_totalDist [OF r] by (simp add: initialMarch_def)
    have here: "bounces m \<le> maxBounces \<and> totalDist m < maxDistance \<longrightarrow>
           n < length ?pts \<and>
           ?pts ! n = \<lparr>pt_x = currentX m, pt_y = currentY m, bounce = bounces m\<rparr>"
    proof
      assume cond: "bounces m \<le> maxBounces \<and> totalDist m < maxDistance"
      from forecast_point [OF r cond g0(2)]
      show "n < length ?pts \<and>
           ?pts ! n = \<lparr>pt_x = currentX m, pt_y = currentY m, bounce = bounces m\<rparr>"
        unfolding run pointOf_def by simp
    qed
    have cv: "spin_x (spinControl g) = 0 \<longrightarrow> curveAmount m = 0"
    proof
      assume "spin_x (spinControl g) = 0"
      then have "curveAmount ?ini = 0" by (simp add: initialMarch_def clearPreview_def)
      from marchAfter_invariant [OF initialMarch_unit this r] show "curveAmount m = 0" by simp
    qed
    have ins: "0 < n \<or> insideInterior (fst (position cb)) (snd (position cb)) \<longrightarrow>
           insideInterior (currentX m) (currentY m)"
    proof
      assume "0 < n \<or> insideInterior (fst (position cb)) (snd (position cb))"
      then have "0 < n \<or> insideInterior (currentX ?ini) (currentY ?ini)"
        by (simp add: initialMarch_def)
      from marchAfter_inside [OF r this] show "insideInterior (currentX m) (currentY m)" .
    qed
    show "calculateTrajectoryPreview g = traceLoop m g1 \<and>
        unitDirection m \<and>
        totalDist m = stepSize * real n \<and>
        (bounces m \<le> maxBounces \<and> totalDist m < maxDistance \<longrightarrow>
           n < length ?pts \<and>
           ?pts ! n = \<lparr>pt_x = currentX m, pt_y = currentY m, bounce = bounces m\<rparr>) \<and>
        (spin_x (spinControl g) = 0 \<longrightarrow> curveAmount m = 0) \<and>
        (0 < n \<or> insideInterior (fst (position cb)) (snd (position cb)) \<longrightarrow>
           insideInterior (currentX m) (currentY m))"
      by (intro conjI link u td here cv ins)
  qed
  note b = forecast_bounded [of g]
  then have d: "stepSize * real (length ?pts) \<le> maxDistance"
    by (simp add: stepSize_def maxDistance_def)
  have fixed: "\<forall>cb. spin_x (spinControl g) = 0 \<and> cueBall g = Some cb \<and>
      insideInterior (fst (position cb)) (snd (position cb)) \<longrightarrow>
        fixedSteps ?pts \<and> pathLength ?pts \<le> maxDistance"
  proof (intro allI impI, elim conjE)
    fix cb
    assume a: "spin_x (spinControl g) = 0" "cueBall g = Some cb"
      "insideInterior (fst (position cb)) (snd (position cb))"
    have f: "fixedSteps ?pts" using forecast_fixedSteps [OF a] .
    from pathLength_bound [OF f] have "pathLength ?pts \<le> stepSize * real (length ?pts)"
      by (auto simp: stepSize_def)
    with d show "fixedSteps ?pts \<and> pathLength ?pts \<le> maxDistance" using f by simp
  qed
  show ?thesis
    by (intro conjI c t curved straight pass fixed d b [THEN conjunct1] b [THEN conjunct2])
qed

theorem marching_step_and_bounds_witness:
  "traceStep \<lparr>currentX = 966, currentY = 300, currentDirX = 1, currentDirY = 0, bounces = 0,
              totalDist = 0, curveAmount = 0\<rparr> (clearPreview nearCushionGame)
     = (Some \<lparr>currentX = 3875 / 4, currentY = 300, currentDirX = - 1, currentDirY = 0,
              bounces = 1, totalDist = 5, curveAmount = 0\<rparr>,
        snd (traceStep \<lparr>currentX = 966, currentY = 300, currentDirX = 1, currentDirY = 0,
                         bounces = 0, totalDist = 0, curveAmount = 0\<rparr>
               (clearPreview nearCushionGame))) \<and>
   totalDist \<lparr>currentX = 3875 / 4, currentY = 300, currentDirX = - 1, currentDirY = 0,
              bounces = 1, totalDist = 5, curveAmount = 0\<rparr> = 0 + stepSize \<and>
   marchForward \<lparr>currentX = 966, currentY = 300, currentDirX = 1, currentDirY = 0, bounces = 0,
                 totalDist = 0, curveAmount = 0\<rparr>
     = \<lparr>currentX = 3875 / 4, currentY = 300, currentDirX = - 1, currentDirY = 0, bounces = 1,
        totalDist = 0, curveAmount = 0\<rparr> \<and>
   euclid (966, 300) (3875 / 4, 300) \<le> stepSize \<and>
   marchForward \<lparr>currentX = 3875 / 4, currentY = 300, currentDirX = - 1, currentDirY = 0,
                 bounces = 1, totalDist = 5, curveAmount = 0\<rparr>
     = \<lparr>currentX = 3855 / 4, currentY = 300, currentDirX = - 1, currentDirY = 0, bounces = 1,
        totalDist = 5, curveAmount = 0\<rparr> \<and>
   euclid (3875 / 4, 300) (3855 / 4, 300) = stepSize \<and>
   marchForward \<lparr>currentX = 500, currentY = 300, currentDirX = 1, currentDirY = 0, bounces = 0,
                 totalDist = 0, curveAmount = 3 / 20\<rparr>
     = \<lparr>currentX = 505, currentY = 300 + 9 / 200, currentDirX = 1, currentDirY = 0,
        bounces = 0, totalDist = 0, curveAmount = 597 / 4000\<rparr> \<and>
   euclid (500, 300) (505, 300 + 9 / 200) = sqrt (stepSize\<^sup>2 + (9 / 200)\<^sup>2) \<and>
   points (trajectoryPreview (calculateTrajectoryPreview nearCushionGame)) ! 0 =
     \<lparr>pt_x = 966, pt_y = 300, bounce = 0\<rparr> \<and>
   fixedSteps (points (trajectoryPreview (calculateTrajectoryPreview nearCushionGame))) \<and>
   pathLength (points (trajectoryPreview (calculateTrajectoryPreview nearCushionGame)))
     \<le> maxDistance \<and>
   length (points (trajectoryPreview (calculateTrajectoryPreview nearCushionGame))) \<le> 160 \<and>
   list_all (\<lambda>p. bounce p \<le> maxBounces)
     (points (trajectoryPreview (calculateTrajectoryPreview nearCushionGame)))"
proof -
  let ?m = "\<lparr>currentX = 966, currentY = 300, currentDirX = 1, currentDirY = 0, bounces = 0,
             totalDist = 0, curveAmount = 0\<rparr> :: march"
  let ?a = "\<lparr>currentX = 3875 / 4, currentY = 300, currentDirX = - 1, currentDirY = 0,
             bounces = 1, totalDist = 5, curveAmount = 0\<rparr> :: march"
  let ?c = "\<lparr>currentX = 500, currentY = 300, currentDirX = 1, currentDirY = 0, bounces = 0,
             totalDist = 0, curveAmount = 3 / 20\<rparr> :: march"
  let ?cb = "Bodies_circle 22 966 300 ballRadius ''cueBall''"
  let ?g0 = "clearPreview nearCushionGame"
  let ?pts = "points (trajectoryPreview (calculateTrajectoryPreview nearCushionGame))"
  have mf: "marchForward ?m =
      \<lparr>currentX = 3875 / 4, currentY = 300, currentDirX = - 1, currentDirY = 0, bounces = 1,
        totalDist = 0, curveAmount = 0\<rparr>"
    by (simp add: marchForward_def Let_def stepSize_def inner_values)
  have mfa: "marchForward ?a =
      \<lparr>currentX = 3855 / 4, currentY = 300, currentDirX = - 1, currentDirY = 0, bounces = 1,
        totalDist = 5, curveAmount = 0\<rparr>"
    by (simp add: marchForward_def Let_def stepSize_def inner_values)
  have mfc: "marchForward ?c =
      \<lparr>currentX = 505, currentY = 300 + 9 / 200, currentDirX = 1, currentDirY = 0,
        bounces = 0, totalDist = 0, curveAmount = 597 / 4000\<rparr>"
    by (simp add: marchForward_def Let_def stepSize_def inner_values)
  have "fst (traceStep ?m ?g0) = Some ((marchForward ?m)\<lparr>totalDist := 0 + stepSize\<rparr>)"
    using mf by (simp add: traceStep_def Let_def)
  then have ts: "traceStep ?m ?g0 = (Some ?a, snd (traceStep ?m ?g0))"
    using mf by (simp add: prod_eq_iff stepSize_def)
  note t = marching_step_and_bounds [of ?g0]
  have a: "totalDist ?a = 0 + stepSize"
    using t [THEN conjunct2, THEN conjunct2, THEN conjunct2, THEN conjunct2, THEN conjunct2, THEN conjunct1, rule_format, OF ts] by simp
  note T = marching_step_and_bounds [of nearCushionGame]
  have pm: "unitDirection ?m \<and> curveAmount ?m = 0 \<and> insideInterior (currentX ?m) (currentY ?m)"
    by (simp add: unitDirection_def insideInterior_def inner_values)
  have pa: "unitDirection ?a \<and> curveAmount ?a = 0 \<and> insideInterior (currentX ?a) (currentY ?a)"
    by (simp add: unitDirection_def insideInterior_def inner_values)
  have pc: "unitDirection ?c \<and> bounces (marchForward ?c) = bounces ?c"
    unfolding mfc by (simp add: unitDirection_def)
  have "if bounces (marchForward ?m) = bounces ?m
       then euclid (currentX ?m, currentY ?m)
              (currentX (marchForward ?m), currentY (marchForward ?m)) = stepSize
       else euclid (currentX ?m, currentY ?m)
              (currentX (marchForward ?m), currentY (marchForward ?m)) \<le> stepSize"
    by (rule T [THEN conjunct2, THEN conjunct2, THEN conjunct2, THEN conjunct2, THEN conjunct2, THEN conjunct2, THEN conjunct2, THEN conjunct1, rule_format, OF pm])
  then have s1: "euclid (966, 300) (3875 / 4, 300) \<le> stepSize"
    unfolding mf by simp
  have "if bounces (marchForward ?a) = bounces ?a
       then euclid (currentX ?a, currentY ?a)
              (currentX (marchForward ?a), currentY (marchForward ?a)) = stepSize
       else euclid (currentX ?a, currentY ?a)
              (currentX (marchForward ?a), currentY (marchForward ?a)) \<le> stepSize"
    by (rule T [THEN conjunct2, THEN conjunct2, THEN conjunct2, THEN conjunct2, THEN conjunct2, THEN conjunct2, THEN conjunct2, THEN conjunct1, rule_format, OF pa])
  then have s2: "euclid (3875 / 4, 300) (3855 / 4, 300) = stepSize"
    unfolding mfa by simp
  have "euclid (currentX ?c, currentY ?c) (currentX (marchForward ?c), currentY (marchForward ?c))
        = sqrt (stepSize\<^sup>2 + (sidestep ?c)\<^sup>2)"
    by (rule T [THEN conjunct2, THEN conjunct2, THEN conjunct2, THEN conjunct2, THEN conjunct2, THEN conjunct2, THEN conjunct1, rule_format, OF pc, THEN conjunct2, THEN conjunct2])
  then have s3: "euclid (500, 300) (505, 300 + 9 / 200) = sqrt (stepSize\<^sup>2 + (9 / 200)\<^sup>2)"
    unfolding mfc by (simp add: sidestep_def)
  have r: "marchAfter 0 (initialMarch ?cb ?g0) ?g0 = Some (?m, ?g0)"
    by (simp add: nearCushion_march)
  have cond: "bounces ?m \<le> maxBounces \<and> totalDist ?m < maxDistance"
    by (simp add: maxDistance_def)
  have pre: "cueBall nearCushionGame = Some ?cb \<and>
      marchAfter 0 (initialMarch ?cb ?g0) ?g0 = Some (?m, ?g0)"
    using nearCushionGame_fields(1) r by (simp only: simp_thms)
  note pass = T [THEN conjunct2, THEN conjunct2, THEN conjunct2, THEN conjunct2, THEN conjunct2, THEN conjunct2, THEN conjunct2, THEN conjunct2, THEN conjunct1, rule_format, OF pre]
  note here = pass [THEN conjunct2, THEN conjunct2, THEN conjunct2, THEN conjunct1,
      rule_format, OF cond]
  from here have p0: "?pts ! 0 = \<lparr>pt_x = 966, pt_y = 300, bounce = 0\<rparr>" by simp
  have inside: "spin_x (spinControl nearCushionGame) = 0 \<and> cueBall nearCushionGame = Some ?cb \<and>
      insideInterior (fst (position ?cb)) (snd (position ?cb))"
    using nearCushionGame_fields(1,2)
    by (simp add: insideInterior_def inner_values Bodies_circle_def)
  note fx = T [THEN conjunct2, THEN conjunct2, THEN conjunct2, THEN conjunct2, THEN conjunct2, THEN conjunct2, THEN conjunct2, THEN conjunct2, THEN conjunct2, THEN conjunct1, rule_format, OF inside]
  note ln = T [THEN conjunct2, THEN conjunct2, THEN conjunct2, THEN conjunct2, THEN conjunct2, THEN conjunct2, THEN conjunct2, THEN conjunct2, THEN conjunct2, THEN conjunct2, THEN conjunct1]
  note la = T [THEN conjunct2, THEN conjunct2, THEN conjunct2, THEN conjunct2, THEN conjunct2, THEN conjunct2, THEN conjunct2, THEN conjunct2, THEN conjunct2, THEN conjunct2, THEN conjunct2, THEN conjunct2]
  show ?thesis
    by (intro conjI ts a mf s1 mfa s2 mfc s3 p0 fx [THEN conjunct1] fx [THEN conjunct2] ln la)
qed


text \<open>
  The claim puts the step at 1 to 2 percent of the ball diameter, much smaller than a
  ball radius. The step is 5, the diameter 12.5 and the radius 6.25.
\<close>

theorem marching_step_counterexample:
  "stepSize = 5 \<and> ballDiameter = 25 / 2 \<and> ballRadius = 25 / 4 \<and>
   0.02 * ballDiameter < stepSize \<and> ballRadius / 2 < stepSize"
  by (simp add: stepSize_def table_defs)

section \<open>Deflection after the first contact\<close>

lemma sqrt_inverse_square:
  fixes u v :: real
  assumes "u\<^sup>2 + v\<^sup>2 = 1" and "u \<noteq> 0"
  shows "sqrt (1 + (v / u)\<^sup>2) = 1 / \<bar>u\<bar>"
proof -
  have "1 + (v / u)\<^sup>2 = (u\<^sup>2 + v\<^sup>2) / u\<^sup>2"
    using assms(2) by (simp add: power_divide field_simps)
  also have "\<dots> = (1 / \<bar>u\<bar>)\<^sup>2" using assms(1) by (simp add: power_divide)
  finally show ?thesis by (simp add: real_sqrt_unique)
qed

lemma atan2_polar:
  fixes u v :: real
  assumes unit: "u\<^sup>2 + v\<^sup>2 = 1"
  shows "cos (atan2 v u) = u \<and> sin (atan2 v u) = v"
proof -
  consider (pos) "u > 0" | (neg) "u < 0" | (zero) "u = 0" by linarith
  then show ?thesis
  proof cases
    case pos
    then have s: "sqrt (1 + (v / u)\<^sup>2) = 1 / u"
      using sqrt_inverse_square [OF unit] by simp
    show ?thesis using pos by (simp add: atan2_def cos_arctan sin_arctan s)
  next
    case neg
    then have s: "sqrt (1 + (v / u)\<^sup>2) = - (1 / u)"
      using sqrt_inverse_square [OF unit] by simp
    show ?thesis using neg by (simp add: atan2_def cos_arctan sin_arctan s)
  next
    case zero
    with unit have "v\<^sup>2 = 1" by simp
    then have "v = 1 \<or> v = - 1" by (simp add: power2_eq_1_iff)
    then show ?thesis using zero by (auto simp: atan2_def)
  qed
qed

lemma ballDiameter_pos: "0 < ballDiameter"
  by (simp add: table_defs)

lemma toTarget_unit:
  assumes "contactOK h"
  shows "toTarget h =
      ((fst (position (hit_ball h)) - hitX h) / ballDiameter,
       (snd (position (hit_ball h)) - hitY h) / ballDiameter)"
    and "(fst (toTarget h))\<^sup>2 + (snd (toTarget h))\<^sup>2 = 1"
proof -
  let ?dx = "fst (position (hit_ball h)) - hitX h"
  let ?dy = "snd (position (hit_ball h)) - hitY h"
  have "sqrt ((hitX h - fst (position (hit_ball h)))\<^sup>2 + (hitY h - snd (position (hit_ball h)))\<^sup>2)
      = ballDiameter"
    using assms by (simp add: contactOK_def euclid_def)
  moreover have "(hitX h - fst (position (hit_ball h)))\<^sup>2 + (hitY h - snd (position (hit_ball h)))\<^sup>2
      = ?dx * ?dx + ?dy * ?dy"
    by (simp add: power2_eq_square algebra_simps)
  ultimately have len: "sqrt (?dx * ?dx + ?dy * ?dy) = ballDiameter" by simp
  then show t: "toTarget h = (?dx / ballDiameter, ?dy / ballDiameter)"
    by (simp add: toTarget_def Let_def)
  have "?dx * ?dx + ?dy * ?dy = ballDiameter\<^sup>2"
  proof -
    have "0 \<le> ?dx * ?dx + ?dy * ?dy" by simp
    then have "(sqrt (?dx * ?dx + ?dy * ?dy))\<^sup>2 = ?dx * ?dx + ?dy * ?dy" by simp
    with len show ?thesis by simp
  qed
  then show "(fst (toTarget h))\<^sup>2 + (snd (toTarget h))\<^sup>2 = 1"
    using ballDiameter_pos
    by (simp add: t power_divide power2_eq_square add_divide_distrib [symmetric])
qed


lemma calculateDeflectionPaths_rays:
  "collisionBalls (trajectoryPreview (calculateDeflectionPaths h g)) =
     collisionBalls (trajectoryPreview g) @ [targetRay h, cueRay h g]"
  "ghostBall (trajectoryPreview (calculateDeflectionPaths h g)) = ghostBall (trajectoryPreview g)"
  by (simp_all add: calculateDeflectionPaths_def Let_def targetRay_def cueRay_def)

lemma closestLoop_contact:
  "closestLoop x1 y1 x2 y2 bs closest = Some h \<Longrightarrow>
   closest = Some h \<or> (contactOK h \<and> (hit_ball h, hit_color h) \<in> set bs)"
proof (induction bs arbitrary: closest)
  case Nil
  then show ?case by simp
next
  case (Cons bc bs)
  let ?c = "lineCircleCollision x1 y1 x2 y2 (fst (position (fst bc))) (snd (position (fst bc)))
      ballDiameter"
  let ?new = "\<lambda>collision. Some \<lparr>hit_ball = fst bc, hit_color = snd bc,
      hitX = hit_x collision, hitY = hit_y collision, hitDist = hit_dist collision\<rparr>"
  let ?closest' = "(case ?c of None \<Rightarrow> closest
      | Some collision \<Rightarrow>
          if closest = None \<or> hit_dist collision < hitDist (the closest)
          then ?new collision else closest)"
  from Cons.prems have r: "closestLoop x1 y1 x2 y2 bs ?closest' = Some h"
    by (simp add: Let_def)
  from Cons.IH [OF r] consider (old) "?closest' = Some h"
    | (later) "contactOK h" "(hit_ball h, hit_color h) \<in> set bs" by blast
  then show ?case
  proof cases
    case later
    then show ?thesis by simp
  next
    case old
    show ?thesis
    proof (cases ?c)
      case None
      with old show ?thesis by simp
    next
      case (Some collision)
      show ?thesis
      proof (cases "closest = None \<or> hit_dist collision < hitDist (the closest)")
        case False
        with old Some show ?thesis by simp
      next
        case True
        with old Some have h: "h = \<lparr>hit_ball = fst bc, hit_color = snd bc,
            hitX = hit_x collision, hitY = hit_y collision, hitDist = hit_dist collision\<rparr>"
          by simp
        have "0 \<le> ballDiameter" using ballDiameter_pos by simp
        from lineCircleCollision_first_intersection [OF this Some]
        have "euclid (hit_x collision, hit_y collision) (position (fst bc)) = ballDiameter"
          by auto
        then show ?thesis by (simp add: h contactOK_def)
      qed
    qed
  qed
qed

lemma checkTrajectoryBallCollision_contact:
  assumes "checkTrajectoryBallCollision x1 y1 x2 y2 g = Some h"
  shows "contactOK h" and "hit_ball h \<in> set (otherBalls g)"
proof -
  from closestLoop_contact [OF assms [unfolded checkTrajectoryBallCollision_def]]
  have c: "contactOK h \<and> (hit_ball h, hit_color h) \<in> set (getAllBallsExceptCue g)" by simp
  then show "contactOK h" by simp
  from c have "fst (hit_ball h, hit_color h) \<in> fst ` set (getAllBallsExceptCue g)"
    by (intro imageI) simp
  then show "hit_ball h \<in> set (otherBalls g)" by (simp add: otherBalls_def)
qed

lemma forecastOnly_derived:
  assumes "forecastOnly g g'"
  shows "otherBalls g' = otherBalls g" and "cueRay h g' = cueRay h g"
    and "deflectAngle h g' = deflectAngle h g"
proof -
  from assms obtain tp where g': "g' = g\<lparr>trajectoryPreview := tp\<rparr>"
    unfolding forecastOnly_iff by blast
  show "otherBalls g' = otherBalls g"
    by (simp add: g' otherBalls_def getAllBallsExceptCue_def)
  show d: "deflectAngle h g' = deflectAngle h g" by (simp add: g' deflectAngle_def)
  show "cueRay h g' = cueRay h g" by (simp add: cueRay_def d)
qed

lemma traceStep_contact:
  assumes "ghostBall (trajectoryPreview g) = None" and "collisionBalls (trajectoryPreview g) = []"
    and "traceStep m g = (r, g')"
  shows "(r \<noteq> None \<and> ghostBall (trajectoryPreview g') = None \<and>
            collisionBalls (trajectoryPreview g') = []) \<or>
         (r = None \<and> (\<exists>h. contactOK h \<and> hit_ball h \<in> set (otherBalls g) \<and>
            ghostBall (trajectoryPreview g') = Some (ghostOf h) \<and>
            collisionBalls (trajectoryPreview g') = [targetRay h, cueRay h g]))"
proof -
  define g1 where "g1 = g\<lparr>trajectoryPreview := (trajectoryPreview g)
                 \<lparr>points := points (trajectoryPreview g) @
                    [\<lparr>pt_x = currentX m, pt_y = currentY m, bounce = bounces m\<rparr>]\<rparr>\<rparr>"
  define hb where "hb = (if bounces (marchForward m) = 0 \<and> ghostBall (trajectoryPreview g1) = None
      then checkTrajectoryBallCollision (currentX m) (currentY m)
             (currentX (marchForward m)) (currentY (marchForward m)) g1
      else None)"
  have f1: "forecastOnly g g1" by (simp add: g1_def forecastOnly_def)
  have gc: "ghostBall (trajectoryPreview g1) = None" "collisionBalls (trajectoryPreview g1) = []"
    using assms(1,2) by (simp_all add: g1_def)
  show ?thesis
  proof (cases hb)
    case None
    then have "traceStep m g = (Some ((marchForward m)
        \<lparr>totalDist := totalDist m + stepSize,
         currentDirX := currentDirX (marchForward m) /
           sqrt (currentDirX (marchForward m) * currentDirX (marchForward m) +
                 currentDirY (marchForward m) * currentDirY (marchForward m)),
         currentDirY := currentDirY (marchForward m) /
           sqrt (currentDirX (marchForward m) * currentDirX (marchForward m) +
                 currentDirY (marchForward m) * currentDirY (marchForward m))\<rparr>), g1)"
      unfolding traceStep_def Let_def hb_def g1_def by simp
    with assms(3) gc show ?thesis by auto
  next
    case (Some h)
    then have ch: "checkTrajectoryBallCollision (currentX m) (currentY m)
             (currentX (marchForward m)) (currentY (marchForward m)) g1 = Some h"
      by (simp add: hb_def split: if_splits)
    let ?g2 = "g1\<lparr>trajectoryPreview := (trajectoryPreview g1)\<lparr>ghostBall := Some (ghostOf h)\<rparr>\<rparr>"
    from Some have ts: "traceStep m g = (None, calculateDeflectionPaths h ?g2)"
      unfolding traceStep_def Let_def hb_def g1_def ghostOf_def by simp
    have f2: "forecastOnly g ?g2" by (simp add: g1_def forecastOnly_def)
    have "collisionBalls (trajectoryPreview (calculateDeflectionPaths h ?g2)) =
        [targetRay h, cueRay h g]"
      using gc forecastOnly_derived(2) [OF f2] by (simp add: calculateDeflectionPaths_rays)
    moreover have "ghostBall (trajectoryPreview (calculateDeflectionPaths h ?g2)) = Some (ghostOf h)"
      by (simp add: calculateDeflectionPaths_rays)
    moreover have "contactOK h" "hit_ball h \<in> set (otherBalls g)"
      using checkTrajectoryBallCollision_contact [OF ch] forecastOnly_derived(1) [OF f1] by simp_all
    ultimately show ?thesis using assms(3) ts by auto
  qed
qed

lemma traceLoop_contact:
  "ghostBall (trajectoryPreview g) = None \<Longrightarrow> collisionBalls (trajectoryPreview g) = [] \<Longrightarrow>
   (ghostBall (trajectoryPreview (traceLoop m g)) = None \<and>
      collisionBalls (trajectoryPreview (traceLoop m g)) = []) \<or>
   (\<exists>h. contactOK h \<and> hit_ball h \<in> set (otherBalls g) \<and>
      ghostBall (trajectoryPreview (traceLoop m g)) = Some (ghostOf h) \<and>
      collisionBalls (trajectoryPreview (traceLoop m g)) = [targetRay h, cueRay h g])"
proof (induction m g rule: traceLoop.induct)
  case (1 m g)
  show ?case
  proof (cases "bounces m \<le> maxBounces \<and> totalDist m < maxDistance")
    case False
    then show ?thesis using "1.prems" by (simp add: traceLoop_stop)
  next
    case True
    obtain r g' where s: "traceStep m g = (r, g')" by (cases "traceStep m g")
    from traceStep_contact [OF "1.prems" s] show ?thesis
    proof (elim disjE conjE)
      assume brk: "r = None" "\<exists>h. contactOK h \<and> hit_ball h \<in> set (otherBalls g) \<and>
            ghostBall (trajectoryPreview g') = Some (ghostOf h) \<and>
            collisionBalls (trajectoryPreview g') = [targetRay h, cueRay h g]"
      with s True have "traceLoop m g = g'" by (simp add: traceLoop_break)
      with brk(2) show ?thesis by simp
    next
      assume cont: "r \<noteq> None" "ghostBall (trajectoryPreview g') = None"
        "collisionBalls (trajectoryPreview g') = []"
      then obtain m' where r: "r = Some m'" by auto
      with s have s': "traceStep m g = (Some m', g')" by simp
      have fo: "forecastOnly g g'" using traceStep_frame [OF s] .
      from "1.IH" [OF True s' [symmetric] refl cont(2,3)]
      have "(ghostBall (trajectoryPreview (traceLoop m' g')) = None \<and>
          collisionBalls (trajectoryPreview (traceLoop m' g')) = []) \<or>
        (\<exists>h. contactOK h \<and> hit_ball h \<in> set (otherBalls g) \<and>
          ghostBall (trajectoryPreview (traceLoop m' g')) = Some (ghostOf h) \<and>
          collisionBalls (trajectoryPreview (traceLoop m' g')) = [targetRay h, cueRay h g])"
        by (simp add: forecastOnly_derived [OF fo])
      then show ?thesis using s' True by (simp add: traceLoop_continue)
    qed
  qed
qed

lemma forecast_contact:
  "(ghostBall (trajectoryPreview (calculateTrajectoryPreview g)) = None \<and>
      collisionBalls (trajectoryPreview (calculateTrajectoryPreview g)) = []) \<or>
   (\<exists>h. contactOK h \<and> hit_ball h \<in> set (otherBalls g) \<and>
      ghostBall (trajectoryPreview (calculateTrajectoryPreview g)) = Some (ghostOf h) \<and>
      collisionBalls (trajectoryPreview (calculateTrajectoryPreview g)) = [targetRay h, cueRay h g])"
proof (cases "cueBall g")
  case None
  then show ?thesis by (simp add: calculateTrajectoryPreview_def Let_def clearPreview_def)
next
  case (Some cb)
  let ?g0 = "clearPreview g"
  have fo: "forecastOnly g ?g0" by (simp add: clearPreview_def forecastOnly_def)
  have c: "ghostBall (trajectoryPreview ?g0) = None" "collisionBalls (trajectoryPreview ?g0) = []"
    by (simp_all add: clearPreview_def)
  from traceLoop_contact [OF c, of "initialMarch cb ?g0"] Some
  show ?thesis
    by (simp add: calculateTrajectoryPreview_def Let_def forecastOnly_derived [OF fo])
      (simp add: clearPreview_def)
qed


lemma setupGame_allBalls:
  "getAllBallsExceptCue setupGame =
     map (\<lambda>(i, p). (Bodies_circle i (fst p) (snd p) ballRadius ''red'', BALL_COLORS_red))
       (zip [7 ..< 22] redTrianglePositions) @
     [(Bodies_circle 1 446 470 ballRadius ''yellow'', ''#FDD835''),
      (Bodies_circle 2 654 470 ballRadius ''green'', ''#388E3C''),
      (Bodies_circle 3 550 470 ballRadius ''brown'', ''#6D4C41''),
      (Bodies_circle 4 550 350 ballRadius ''blue'', ''#1976D2''),
      (Bodies_circle 5 550 250 ballRadius ''pink'', ''#F48FB1''),
      (Bodies_circle 6 550 182 ballRadius ''black'', ''#212121'')]"
  unfolding redTrianglePositions_value
  by (simp add: getAllBallsExceptCue_def setup_eval redTrianglePositions_value spotPositions_def
      table_defs upt_rec Bodies_circle_def)

lemma lineCircleCollision_miss:
  assumes "(2 * ((x1 - cx) * (x2 - x1) + (y1 - cy) * (y2 - y1))) *
           (2 * ((x1 - cx) * (x2 - x1) + (y1 - cy) * (y2 - y1)))
         - 4 * ((x2 - x1) * (x2 - x1) + (y2 - y1) * (y2 - y1)) *
           ((x1 - cx) * (x1 - cx) + (y1 - cy) * (y1 - cy) - radius * radius) < 0"
  shows "lineCircleCollision x1 y1 x2 y2 cx cy radius = None"
  using assms by (simp add: lineCircleCollision_def Let_def)

lemma sqrt_15625: "sqrt 15625 = 125"
  by (rule real_sqrt_unique) simp_all

lemma sqrt_25: "sqrt 25 = 5"
  by (rule real_sqrt_unique) simp_all

lemma hit_green:
  "checkTrajectoryBallCollision 637 470 642 470 setupGame = Some greenHit"
  unfolding checkTrajectoryBallCollision_def setupGame_allBalls redTrianglePositions_value
  by (simp add: upt_rec Bodies_circle_def lineCircleCollision_def Let_def ballDiameter_value
      sqrt_15625 sqrt_25 greenHit_def BALL_COLORS_red_def)


lemma perpendicularAngle_rotated:
  assumes "contactOK h"
  shows "cos (perpendicularAngle h) = - snd (toTarget h)"
    and "sin (perpendicularAngle h) = fst (toTarget h)"
proof -
  from atan2_polar [OF toTarget_unit(2) [OF assms]]
  have c: "cos (atan2 (snd (toTarget h)) (fst (toTarget h))) = fst (toTarget h)"
    and s: "sin (atan2 (snd (toTarget h)) (fst (toTarget h))) = snd (toTarget h)" by simp_all
  show "cos (perpendicularAngle h) = - snd (toTarget h)"
    unfolding perpendicularAngle_def HALF_PI_def cos_add using c s by simp
  show "sin (perpendicularAngle h) = fst (toTarget h)"
    unfolding perpendicularAngle_def HALF_PI_def sin_add using c s by simp
qed

lemma deflectAngle_perpendicular:
  "deflectAngle h g = perpendicularAngle h + 0.3 * spin_y (spinControl g)"
  by (simp add: deflectAngle_def perpendicularAngle_def Let_def)

lemma ghostOf_eq:
  assumes "ghostOf h = ghostOf h'"
  shows "targetRay h = targetRay h'" and "cueRay h g = cueRay h' g"
proof -
  from assms have e: "hitX h = hitX h'" "hitY h = hitY h'" "hit_ball h = hit_ball h'"
    "hit_color h = hit_color h'"
    by (simp_all add: ghostOf_def)
  then have t: "toTarget h = toTarget h'" by (simp add: toTarget_def)
  then show "targetRay h = targetRay h'" using e by (simp add: targetRay_def)
  from t have "deflectAngle h g = deflectAngle h' g" by (simp add: deflectAngle_def)
  then show "cueRay h g = cueRay h' g" using e by (simp add: cueRay_def)
qed

lemma hitGame_fields:
  "cueBall hitGame = Some (Bodies_circle 22 637 470 ballRadius ''cueBall'')"
  "angle (cue hitGame) = 0" "spin_x (spinControl hitGame) = 0" "spin_y (spinControl hitGame) = 0"
  "redBalls hitGame = redBalls setupGame" "colouredBalls hitGame = colouredBalls setupGame"
  by (simp_all add: hitGame_def setupGame_controls)

lemma hitGame_ghost:
  "ghostBall (trajectoryPreview (calculateTrajectoryPreview hitGame)) = Some (ghostOf greenHit)"
proof -
  let ?cb = "Bodies_circle 22 637 470 ballRadius ''cueBall''"
  let ?g0 = "clearPreview hitGame"
  let ?m0 = "\<lparr>currentX = 637, currentY = 470, currentDirX = 1, currentDirY = 0, bounces = 0,
              totalDist = 0, curveAmount = 0\<rparr> :: march"
  have m0: "initialMarch ?cb ?g0 = ?m0"
    by (simp add: initialMarch_def clearPreview_def hitGame_fields Bodies_circle_def)
  have mf: "marchForward ?m0 = ?m0\<lparr>currentX := 642\<rparr>"
    by (simp add: marchForward_def Let_def stepSize_def inner_values)
  have ch: "\<And>tp. checkTrajectoryBallCollision 637 470 642 470 (hitGame\<lparr>trajectoryPreview := tp\<rparr>)
      = Some greenHit"
    using hit_green
    by (simp add: checkTrajectoryBallCollision_def getAllBallsExceptCue_def hitGame_fields)
  have "fst (traceStep ?m0 ?g0) = None"
    by (simp add: traceStep_def Let_def mf clearPreview_def ch)
  moreover have "ghostBall (trajectoryPreview (snd (traceStep ?m0 ?g0))) = Some (ghostOf greenHit)"
    by (simp add: traceStep_def Let_def mf clearPreview_def ch calculateDeflectionPaths_rays
        ghostOf_def)
  ultimately obtain g' where ts: "traceStep ?m0 ?g0 = (None, g')"
    and gh: "ghostBall (trajectoryPreview g') = Some (ghostOf greenHit)"
    by (cases "traceStep ?m0 ?g0") simp
  have "traceLoop ?m0 ?g0 = g'"
    by (rule traceLoop_break [OF _ ts]) (simp add: maxDistance_def)
  then show ?thesis
    using gh by (simp add: calculateTrajectoryPreview_def Let_def m0)
      (simp add: clearPreview_def hitGame_fields m0 [unfolded clearPreview_def])
qed

text \<open>
  Claim C3. Whenever the forecast holds a ball contact (\<open>ghostBall\<close> is set), it is
  the contact \<open>h\<close> with one of the balls on the table, one ball diameter from that
  ball's centre, and \<open>collisionBalls\<close> holds exactly two rays:
  \<^item> the struck ball's ray starts at the centre of the struck ball and its direction is
    the vector from the contact point to that centre divided by its length, a unit
    vector;
  \<^item> the cue ball's ray starts at the contact point and its direction is
    \<open>(cos a, sin a)\<close> for the angle \<open>a = perpendicularAngle h + 0.3 * spin.y\<close>, where
    \<open>perpendicularAngle h\<close> is the direction of the struck ball's ray turned by a
    quarter turn: its cosine and sine are \<open>(- dirY, dirX)\<close> of that ray. With top spin
    the angle is smaller than \<open>perpendicularAngle h\<close>, with back spin larger, and with
    neither the cue ball's ray is exactly perpendicular to the line of centres.
\<close>

theorem deflection_rays:
  assumes "ghostBall (trajectoryPreview (calculateTrajectoryPreview g)) = Some gb"
  shows "\<exists>h. gb = ghostOf h \<and> hit_ball h \<in> set (otherBalls g) \<and> contactOK h \<and>
     collisionBalls (trajectoryPreview (calculateTrajectoryPreview g)) =
       [targetRay h, cueRay h g] \<and>
     (startX (targetRay h), startY (targetRay h)) = position (hit_ball h) \<and>
     (dirX (targetRay h), dirY (targetRay h)) =
       ((fst (position (hit_ball h)) - hitX h) / ballDiameter,
        (snd (position (hit_ball h)) - hitY h) / ballDiameter) \<and>
     (dirX (targetRay h))\<^sup>2 + (dirY (targetRay h))\<^sup>2 = 1 \<and>
     (startX (cueRay h g), startY (cueRay h g)) = (hitX h, hitY h) \<and>
     (dirX (cueRay h g), dirY (cueRay h g)) = (cos (deflectAngle h g), sin (deflectAngle h g)) \<and>
     deflectAngle h g = perpendicularAngle h + 0.3 * spin_y (spinControl g) \<and>
     (cos (perpendicularAngle h), sin (perpendicularAngle h)) =
       (- dirY (targetRay h), dirX (targetRay h)) \<and>
     (topSpin g \<longrightarrow> deflectAngle h g < perpendicularAngle h) \<and>
     (backSpin g \<longrightarrow> deflectAngle h g > perpendicularAngle h) \<and>
     (\<not> topSpin g \<and> \<not> backSpin g \<longrightarrow>
        (dirX (cueRay h g), dirY (cueRay h g)) = (- dirY (targetRay h), dirX (targetRay h)))"
proof -
  from forecast_contact [of g] assms obtain h where
    ok: "contactOK h" and mem: "hit_ball h \<in> set (otherBalls g)"
    and gb: "gb = ghostOf h"
    and rays: "collisionBalls (trajectoryPreview (calculateTrajectoryPreview g)) =
       [targetRay h, cueRay h g]"
    by auto
  note u = toTarget_unit [OF ok]
  note p = perpendicularAngle_rotated [OF ok]
  note d = deflectAngle_perpendicular [of h g]
  have t1: "(startX (targetRay h), startY (targetRay h)) = position (hit_ball h)"
    by (simp add: targetRay_def)
  have t2: "(dirX (targetRay h), dirY (targetRay h)) =
       ((fst (position (hit_ball h)) - hitX h) / ballDiameter,
        (snd (position (hit_ball h)) - hitY h) / ballDiameter)"
    using u(1) by (simp add: targetRay_def)
  have t3: "(dirX (targetRay h))\<^sup>2 + (dirY (targetRay h))\<^sup>2 = 1"
    using u(2) by (simp add: targetRay_def)
  have c1: "(startX (cueRay h g), startY (cueRay h g)) = (hitX h, hitY h)"
    by (simp add: cueRay_def)
  have c2: "(dirX (cueRay h g), dirY (cueRay h g)) = (cos (deflectAngle h g), sin (deflectAngle h g))"
    by (simp add: cueRay_def)
  have c3: "(cos (perpendicularAngle h), sin (perpendicularAngle h)) =
       (- dirY (targetRay h), dirX (targetRay h))"
    using p by (simp add: targetRay_def)
  have s1: "topSpin g \<longrightarrow> deflectAngle h g < perpendicularAngle h"
    by (simp add: d topSpin_def)
  have s2: "backSpin g \<longrightarrow> deflectAngle h g > perpendicularAngle h"
    by (simp add: d backSpin_def)
  have s3: "\<not> topSpin g \<and> \<not> backSpin g \<longrightarrow>
        (dirX (cueRay h g), dirY (cueRay h g)) = (- dirY (targetRay h), dirX (targetRay h))"
  proof
    assume "\<not> topSpin g \<and> \<not> backSpin g"
    then have "spin_y (spinControl g) = 0" by (simp add: topSpin_def backSpin_def)
    then have "deflectAngle h g = perpendicularAngle h" by (simp add: d)
    with c2 c3 show "(dirX (cueRay h g), dirY (cueRay h g)) =
        (- dirY (targetRay h), dirX (targetRay h))" by simp
  qed
  show ?thesis
    using gb mem ok rays t1 t2 t3 c1 c2 d c3 s1 s2 s3 by blast
qed


theorem deflection_rays_witness:
  "ghostBall (trajectoryPreview (calculateTrajectoryPreview hitGame)) = Some (ghostOf greenHit) \<and>
   collisionBalls (trajectoryPreview (calculateTrajectoryPreview hitGame)) =
     [targetRay greenHit, cueRay greenHit hitGame] \<and>
   (startX (targetRay greenHit), startY (targetRay greenHit)) = (654, 470) \<and>
   (dirX (targetRay greenHit), dirY (targetRay greenHit)) = (1, 0) \<and>
   (startX (cueRay greenHit hitGame), startY (cueRay greenHit hitGame)) = (1283 / 2, 470) \<and>
   (dirX (cueRay greenHit hitGame), dirY (cueRay greenHit hitGame)) = (0, 1)"
proof -
  from deflection_rays [OF hitGame_ghost] obtain h where
    gb: "ghostOf greenHit = ghostOf h"
    and rays: "collisionBalls (trajectoryPreview (calculateTrajectoryPreview hitGame)) =
       [targetRay h, cueRay h hitGame]"
    and t1: "(startX (targetRay h), startY (targetRay h)) = position (hit_ball h)"
    and t2: "(dirX (targetRay h), dirY (targetRay h)) =
       ((fst (position (hit_ball h)) - hitX h) / ballDiameter,
        (snd (position (hit_ball h)) - hitY h) / ballDiameter)"
    and c1: "(startX (cueRay h hitGame), startY (cueRay h hitGame)) = (hitX h, hitY h)"
    and s3: "\<not> topSpin hitGame \<and> \<not> backSpin hitGame \<longrightarrow>
        (dirX (cueRay h hitGame), dirY (cueRay h hitGame)) =
        (- dirY (targetRay h), dirX (targetRay h))"
    by blast
  note e = ghostOf_eq [OF gb [symmetric]]
  have f: "hitX h = 1283 / 2" "hitY h = 470"
    "hit_ball h = Bodies_circle 2 654 470 ballRadius ''green''"
    using gb by (simp_all add: ghostOf_def greenHit_def)
  have ns: "\<not> topSpin hitGame \<and> \<not> backSpin hitGame"
    by (simp add: topSpin_def backSpin_def hitGame_fields)
  have a: "(startX (targetRay greenHit), startY (targetRay greenHit)) = (654, 470)"
    using t1 by (simp add: e(1) [symmetric] f Bodies_circle_def)
  have b: "(dirX (targetRay greenHit), dirY (targetRay greenHit)) = (1, 0)"
    using t2 by (simp add: e(1) [symmetric] f Bodies_circle_def ballDiameter_value)
  have c: "(startX (cueRay greenHit hitGame), startY (cueRay greenHit hitGame)) = (1283 / 2, 470)"
    using c1 by (simp add: e(2) [of hitGame, symmetric] f)
  have d: "(dirX (cueRay greenHit hitGame), dirY (cueRay greenHit hitGame)) = (0, 1)"
    using s3 ns b by (simp add: e(1) [symmetric] e(2) [of hitGame, symmetric])
  have r: "collisionBalls (trajectoryPreview (calculateTrajectoryPreview hitGame)) =
     [targetRay greenHit, cueRay greenHit hitGame]"
    using rays by (simp add: e(1) [symmetric] e(2) [of hitGame, symmetric])
  show ?thesis using hitGame_ghost r a b c d by blast
qed

end
